(* ===== verification/Prelude.thy ===== *)
theory Prelude
  imports
    Complex_Main
    "HOL-Library.AList"
    "HOL-Library.Char_ord"
    "HOL-Library.List_Lexorder"
    "HOL-Library.Sublist"
begin

text \<open>
  What every component of the development shares: Python's exceptions as values of a sum
  type and the sequencing of statements that may raise; the parts of Python's \<open>str\<close> that
  the scripts use; Python's insertion-ordered dictionaries as association lists, together
  with the interface (a locale) through which the components reason about them.

  Strings are lists of characters, one character for one code point below 256.
\<close>

named_theorems result_simps \<open>when a sequence of statements raises and when it returns\<close>
named_theorems string_simps \<open>splitting, joining and printing of strings\<close>

section \<open>Exceptions\<close>

datatype py_error =
    AttributeError
  | TypeError
  | KeyError
  | ValueError
  | IndexError
  | NameError
  | ImportError
  | OSError
  | TemplateError string
  | UnexpectedException string

type_synonym 'a result = "py_error + 'a"

text \<open>Sequencing, the \<open>for\<close> loop over a state, and the list comprehension.\<close>

definition rbind :: "'a result \<Rightarrow> ('a \<Rightarrow> 'b result) \<Rightarrow> 'b result" where
  "rbind m f = (case m of Inl e \<Rightarrow> Inl e | Inr x \<Rightarrow> f x)"

fun rfold :: "('a \<Rightarrow> 's \<Rightarrow> 's result) \<Rightarrow> 'a list \<Rightarrow> 's \<Rightarrow> 's result" where
  "rfold f [] s = Inr s"
| "rfold f (x # xs) s = rbind (f x s) (rfold f xs)"

fun rmap :: "('a \<Rightarrow> 'b result) \<Rightarrow> 'a list \<Rightarrow> 'b list result" where
  "rmap f [] = Inr []"
| "rmap f (x # xs) = rbind (f x) (\<lambda>y. rbind (rmap f xs) (\<lambda>ys. Inr (y # ys)))"

text \<open>A loop that returns from its first round that has something to return.\<close>

fun rfirst :: "('a \<Rightarrow> 'b option result) \<Rightarrow> 'a list \<Rightarrow> 'b option result" where
  "rfirst f [] = Inr None"
| "rfirst f (x # xs) = rbind (f x) (\<lambda>r. case r of Some y \<Rightarrow> Inr (Some y) | None \<Rightarrow> rfirst f xs)"

text \<open>A value that may be \<open>None\<close>, used where \<open>None\<close> raises.\<close>

definition need :: "py_error \<Rightarrow> 'a option \<Rightarrow> 'a result" where
  "need e x = (case x of None \<Rightarrow> Inl e | Some y \<Rightarrow> Inr y)"

lemma rbind_simps [simp]: "rbind (Inl e) f = Inl e" "rbind (Inr x) f = f x"
  by (simp_all add: rbind_def)

lemma rbind_Inr_iff [result_simps]: "rbind m f = Inr y \<longleftrightarrow> (\<exists>x. m = Inr x \<and> f x = Inr y)"
  by (cases m) auto

lemma rbind_Inl_iff [result_simps]:
  "rbind m f = Inl e \<longleftrightarrow> m = Inl e \<or> (\<exists>x. m = Inr x \<and> f x = Inl e)"
  by (cases m) auto

lemma rbind_cong [fundef_cong]:
  "m = m' \<Longrightarrow> (\<And>x. m' = Inr x \<Longrightarrow> f x = g x) \<Longrightarrow> rbind m f = rbind m' g"
  by (cases m') auto

lemma rbind_assoc: "rbind (rbind m f) g = rbind m (\<lambda>x. rbind (f x) g)"
  by (cases m) auto

lemma need_simps [simp]: "need e None = Inl e" "need e (Some x) = Inr x"
  by (simp_all add: need_def)

lemma need_Inr_iff [result_simps]: "need e x = Inr y \<longleftrightarrow> x = Some y"
  by (cases x) auto

lemma need_Inl_iff [result_simps]: "need e x = Inl e' \<longleftrightarrow> x = None \<and> e' = e"
  by (cases x) auto

lemma rfold_append [simp]: "rfold f (xs @ ys) s = rbind (rfold f xs s) (rfold f ys)"
  by (induction xs arbitrary: s) (auto simp: rbind_assoc intro!: rbind_cong)

text \<open>A loop that raises nowhere is a fold.\<close>

lemma rfold_pure: "(\<And>x s. x \<in> set xs \<Longrightarrow> f x s = Inr (g x s)) \<Longrightarrow> rfold f xs s = Inr (fold g xs s)"
  by (induction xs arbitrary: s) auto

text \<open>What one round of a loop keeps, the loop keeps.\<close>

lemma rfold_invariant:
  assumes "rfold f xs s = Inr t" and "P s"
    and "\<And>x s s'. x \<in> set xs \<Longrightarrow> P s \<Longrightarrow> f x s = Inr s' \<Longrightarrow> P s'"
  shows "P t"
  using assms
proof (induction xs arbitrary: s)
  case Nil
  then show ?case by simp
next
  case (Cons x xs)
  from Cons.prems(1) obtain s' where s': "f x s = Inr s'" "rfold f xs s' = Inr t"
    by (auto simp: result_simps)
  have "P s'"
    by (rule Cons.prems(3) [OF _ Cons.prems(2) s'(1)]) simp
  then show ?case
    using Cons.IH [OF s'(2)] Cons.prems(3) by (meson list.set_intros(2))
qed

text \<open>A reflexive and transitive relation between states that every round of a loop respects.\<close>

locale step_relation =
  fixes R :: "'s \<Rightarrow> 's \<Rightarrow> bool"
  assumes refl: "R s s"
    and trans: "R s t \<Longrightarrow> R t u \<Longrightarrow> R s u"
begin

lemma raising_loop:
  assumes "\<And>x s s'. x \<in> set xs \<Longrightarrow> f x s = Inr s' \<Longrightarrow> R s s'" and "rfold f xs s = Inr s'"
  shows "R s s'"
  using assms(2) by (rule rfold_invariant [where P = "R s"]) (auto intro: refl trans assms(1))

lemma pure_loop: "(\<And>x s. R s (f x s)) \<Longrightarrow> R s (fold f xs s)"
  by (induction xs arbitrary: s) (auto intro: refl trans)

end

lemma rmap_pure: "(\<And>x. x \<in> set xs \<Longrightarrow> f x = Inr (g x)) \<Longrightarrow> rmap f xs = Inr (map g xs)"
  by (induction xs) auto

lemma rmap_Inr_length: "rmap f xs = Inr ys \<Longrightarrow> length ys = length xs"
  by (induction xs arbitrary: ys) (auto simp: result_simps)

lemma rmap_Inr_list_all2: "rmap f xs = Inr ys \<longleftrightarrow> list_all2 (\<lambda>x y. f x = Inr y) xs ys"
  by (induction xs arbitrary: ys) (auto simp: result_simps list_all2_Cons1)

lemma list_all2_source: "list_all2 P xs ys \<Longrightarrow> y \<in> set ys \<Longrightarrow> \<exists>x \<in> set xs. P x y"
  by (induction rule: list_all2_induct) auto

lemma rmap_cong [fundef_cong]:
  "xs = ys \<Longrightarrow> (\<And>x. x \<in> set ys \<Longrightarrow> f x = g x) \<Longrightarrow> rmap f xs = rmap g ys"
proof (induction xs arbitrary: ys)
  case Nil
  then show ?case by simp
next
  case (Cons x xs)
  then show ?case by (auto intro!: rbind_cong)
qed

lemma rfold_cong [fundef_cong]:
  "xs = ys \<Longrightarrow> s = t \<Longrightarrow> (\<And>x s. x \<in> set ys \<Longrightarrow> f x s = g x s) \<Longrightarrow> rfold f xs s = rfold g ys t"
proof (induction xs arbitrary: ys s t)
  case Nil
  then show ?case by auto
next
  case (Cons x xs)
  then show ?case by (auto intro!: rbind_cong)
qed

lemma rfirst_cong [fundef_cong]:
  "xs = ys \<Longrightarrow> (\<And>x. x \<in> set ys \<Longrightarrow> f x = g x) \<Longrightarrow> rfirst f xs = rfirst g ys"
proof (induction xs arbitrary: ys)
  case Nil
  then show ?case by simp
next
  case (Cons x xs)
  then show ?case by (auto intro!: rbind_cong split: option.splits)
qed

lemma rfirst_pure:
  "(\<And>x. x \<in> set xs \<Longrightarrow> f x = Inr (g x)) \<Longrightarrow>
     rfirst f xs = Inr (case filter (\<lambda>x. g x \<noteq> None) xs of [] \<Rightarrow> None | x # _ \<Rightarrow> g x)"
  by (induction xs) (auto split: option.splits)

section \<open>Strings\<close>

abbreviation nl :: string where "nl \<equiv> [CHR 0x0A]"

text \<open>\<open>s.split(c)\<close> for a separator of one character, and \<open>sep.join(parts)\<close>.\<close>

fun py_split :: "char \<Rightarrow> string \<Rightarrow> string list" where
  "py_split c [] = [[]]"
| "py_split c (x # xs) =
     (if x = c then [] # py_split c xs
      else (case py_split c xs of [] \<Rightarrow> [[x]] | p # ps \<Rightarrow> (x # p) # ps))"

fun py_join :: "string \<Rightarrow> string list \<Rightarrow> string" where
  "py_join sep [] = []"
| "py_join sep [x] = x"
| "py_join sep (x # y # ys) = x @ sep @ py_join sep (y # ys)"

definition is_space :: "char \<Rightarrow> bool" where
  "is_space c = (let n = (of_char c :: nat) in
     (9 \<le> n \<and> n \<le> 13) \<or> (28 \<le> n \<and> n \<le> 32) \<or> n = 133 \<or> n = 160)"

definition py_lstrip :: "string \<Rightarrow> string" where
  "py_lstrip s = dropWhile is_space s"

definition py_strip :: "string \<Rightarrow> string" where
  "py_strip s = rev (py_lstrip (rev (py_lstrip s)))"

text \<open>\<open>lower\<close> and \<open>upper\<close> on the ASCII letters.\<close>

definition char_lower :: "char \<Rightarrow> char" where
  "char_lower c = (let n = (of_char c :: nat) in if 65 \<le> n \<and> n \<le> 90 then char_of (n + 32) else c)"

definition char_upper :: "char \<Rightarrow> char" where
  "char_upper c = (let n = (of_char c :: nat) in if 97 \<le> n \<and> n \<le> 122 then char_of (n - 32) else c)"

definition py_lower :: "string \<Rightarrow> string" where "py_lower s = map char_lower s"
definition py_upper :: "string \<Rightarrow> string" where "py_upper s = map char_upper s"

definition py_ljust :: "nat \<Rightarrow> string \<Rightarrow> string" where
  "py_ljust n s = s @ replicate (n - length s) CHR '' ''"

lemma py_split_not_Nil [simp]: "py_split c s \<noteq> []"
  by (cases s) (auto split: list.splits)

lemma py_join_Cons [string_simps]: "xs \<noteq> [] \<Longrightarrow> py_join sep (x # xs) = x @ sep @ py_join sep xs"
  by (cases xs) auto

lemma py_join_split [string_simps]: "py_join [c] (py_split c s) = s"
proof (induction s)
  case Nil
  then show ?case by simp
next
  case (Cons x xs)
  obtain p ps where p: "py_split c xs = p # ps"
    by (cases "py_split c xs") auto
  then show ?case
    using Cons.IH by (cases ps) auto
qed

lemma py_split_free [string_simps]: "c \<notin> set s \<Longrightarrow> py_split c s = [s]"
  by (induction s) auto

lemma py_split_append [string_simps]: "c \<notin> set s \<Longrightarrow> py_split c (s @ c # t) = s # py_split c t"
  by (induction s) auto

lemma py_split_join [string_simps]:
  "xs \<noteq> [] \<Longrightarrow> (\<And>x. x \<in> set xs \<Longrightarrow> c \<notin> set x) \<Longrightarrow> py_split c (py_join [c] xs) = xs"
proof (induction xs)
  case (Cons x xs)
  then show ?case
    by (cases "xs = []") (auto simp: py_join_Cons py_split_append py_split_free)
qed simp

lemma py_join_append [string_simps]:
  "xs \<noteq> [] \<Longrightarrow> ys \<noteq> [] \<Longrightarrow> py_join sep (xs @ ys) = py_join sep xs @ sep @ py_join sep ys"
proof (induction xs)
  case (Cons x xs)
  then show ?case by (cases "xs = []") (auto simp: py_join_Cons)
qed simp

lemma set_py_join: "set (py_join sep xs) \<subseteq> \<Union> (set ` set xs) \<union> set sep"
  by (induction sep xs rule: py_join.induct) auto

text \<open>Joining with a separator that occurs in no part loses nothing.\<close>

lemma py_join_inject:
  assumes "py_join [c] xs = py_join [c] ys" and "xs \<noteq> []" and "ys \<noteq> []"
    and "\<And>x. x \<in> set xs \<Longrightarrow> c \<notin> set x" and "\<And>y. y \<in> set ys \<Longrightarrow> c \<notin> set y"
  shows "xs = ys"
proof -
  have "xs = py_split c (py_join [c] xs)" using assms(2,4) by (simp add: py_split_join)
  also have "\<dots> = py_split c (py_join [c] ys)" by (simp only: assms(1))
  also have "\<dots> = ys" using assms(3,5) by (simp add: py_split_join)
  finally show ?thesis .
qed

subsection \<open>Decimal numbers\<close>

definition digit_char :: "nat \<Rightarrow> char" where
  "digit_char d = char_of (48 + d)"

definition is_digit :: "char \<Rightarrow> bool" where
  "is_digit c = (let n = (of_char c :: nat) in 48 \<le> n \<and> n \<le> 57)"

definition digit_val :: "char \<Rightarrow> nat" where
  "digit_val c = of_char c - 48"

fun string_of_nat :: "nat \<Rightarrow> string" where
  "string_of_nat n = (if n < 10 then [digit_char n]
     else string_of_nat (n div 10) @ [digit_char (n mod 10)])"

declare string_of_nat.simps [simp del]

definition string_of_int :: "int \<Rightarrow> string" where
  "string_of_int i = (if i < 0 then ''-'' @ string_of_nat (nat (- i)) else string_of_nat (nat i))"

definition nat_of_digits :: "string \<Rightarrow> nat" where
  "nat_of_digits s = foldl (\<lambda>n c. 10 * n + digit_val c) 0 s"

text \<open>\<open>str.isdigit\<close> (and \<open>isascii\<close>): not empty, digits only.\<close>

definition py_isdigit :: "string \<Rightarrow> bool" where
  "py_isdigit s = (s \<noteq> [] \<and> list_all is_digit s)"

lemma of_char_digit_char: "d < 10 \<Longrightarrow> of_char (digit_char d) = 48 + d"
  by (simp add: digit_char_def of_char_of)

lemma digit_charI: "d < 10 \<Longrightarrow> of_char c = 48 + d \<Longrightarrow> digit_char d = c"
  by (metis of_char_digit_char of_char_eq_iff)

lemma digit_char_values [simp]:
  "digit_char 0 = CHR ''0''" "digit_char (Suc 0) = CHR ''1''" "digit_char 1 = CHR ''1''"
  "digit_char 2 = CHR ''2''" "digit_char 3 = CHR ''3''" "digit_char 4 = CHR ''4''"
  "digit_char 5 = CHR ''5''" "digit_char 6 = CHR ''6''" "digit_char 7 = CHR ''7''"
  "digit_char 8 = CHR ''8''" "digit_char 9 = CHR ''9''"
  by (rule digit_charI; simp)+

lemma is_digit_digit_char [simp]: "d < 10 \<Longrightarrow> is_digit (digit_char d)"
  by (simp add: is_digit_def of_char_digit_char)

lemma digit_val_digit_char [simp]: "d < 10 \<Longrightarrow> digit_val (digit_char d) = d"
  by (simp add: digit_val_def of_char_digit_char)

lemma string_of_nat_not_Nil [simp]: "string_of_nat n \<noteq> []"
  by (subst string_of_nat.simps) simp

lemma string_of_nat_digits: "c \<in> set (string_of_nat n) \<Longrightarrow> is_digit c"
proof (induction n rule: string_of_nat.induct)
  case (1 n)
  then show ?case
    by (subst (asm) string_of_nat.simps) (auto split: if_splits)
qed

lemma py_isdigit_string_of_nat [simp]: "py_isdigit (string_of_nat n)"
  by (auto simp: py_isdigit_def list_all_iff dest: string_of_nat_digits)

lemma nat_of_digits_snoc [simp]: "nat_of_digits (s @ [c]) = 10 * nat_of_digits s + digit_val c"
  by (simp add: nat_of_digits_def)

lemma nat_of_digits_string_of_nat [simp, string_simps]: "nat_of_digits (string_of_nat n) = n"
proof (induction n rule: string_of_nat.induct)
  case (1 n)
  show ?case
  proof (cases "n < 10")
    case True
    then show ?thesis
      by (subst string_of_nat.simps) (simp add: nat_of_digits_def)
  next
    case False
    then have "nat_of_digits (string_of_nat n)
        = 10 * nat_of_digits (string_of_nat (n div 10)) + n mod 10"
      by (subst string_of_nat.simps) simp
    with "1.IH" [OF False] show ?thesis by simp
  qed
qed

lemma string_of_nat_inject [simp]: "string_of_nat m = string_of_nat n \<longleftrightarrow> m = n"
  by (metis nat_of_digits_string_of_nat)

lemma not_digit_char [simp]:
  "\<not> is_digit CHR ''.''" "\<not> is_digit CHR ''-''" "\<not> is_digit CHR ''/''" "\<not> is_digit CHR ''_''"
  "\<not> is_digit CHR ''+''"
  by (simp_all add: is_digit_def)

lemma char_notin_string_of_nat: "\<not> is_digit c \<Longrightarrow> c \<notin> set (string_of_nat n)"
  by (blast dest: string_of_nat_digits)

lemma string_of_nat_no_leading_zero: "0 < n \<Longrightarrow> hd (string_of_nat n) \<noteq> CHR ''0''"
proof (induction n rule: string_of_nat.induct)
  case (1 n)
  show ?case
  proof (cases "n < 10")
    case True
    have "digit_val (digit_char n) \<noteq> digit_val CHR ''0''"
      using True "1.prems" by (simp add: digit_val_def of_char_digit_char)
    then have "digit_char n \<noteq> CHR ''0''" by metis
    with True show ?thesis by (subst string_of_nat.simps) simp
  next
    case False
    then have "hd (string_of_nat n) = hd (string_of_nat (n div 10))"
      by (subst string_of_nat.simps) (simp add: hd_append)
    with "1.IH" [OF False] False show ?thesis by (simp add: div_greater_zero_iff)
  qed
qed

lemma length_string_of_nat_3: "n < 1000 \<Longrightarrow> length (string_of_nat n) \<le> 3"
  by (simp add: string_of_nat.simps [of n] string_of_nat.simps [of "n div 10"]
      string_of_nat.simps [of "n div 10 div 10"])

text \<open>\<open>int(s)\<close>: surrounding white space, a sign, digits with single underscores between them.\<close>

definition py_digits :: "string \<Rightarrow> int option" where
  "py_digits s = (let parts = py_split CHR ''_'' s in
     if list_all py_isdigit parts then Some (int (nat_of_digits (concat parts))) else None)"

definition py_int :: "string \<Rightarrow> int option" where
  "py_int s = (case py_strip s of [] \<Rightarrow> None
     | c # r \<Rightarrow> if c = CHR ''-'' then map_option uminus (py_digits r)
                else if c = CHR ''+'' then py_digits r
                else py_digits (c # r))"

lemma py_strip_id: "s \<noteq> [] \<Longrightarrow> \<not> is_space (hd s) \<Longrightarrow> \<not> is_space (last s) \<Longrightarrow> py_strip s = s"
proof -
  have d: "dropWhile P xs = xs" if "xs \<noteq> []" "\<not> P (hd xs)" for P and xs :: string
    using that by (cases xs) auto
  assume "s \<noteq> []" "\<not> is_space (hd s)" "\<not> is_space (last s)"
  then show ?thesis by (simp add: py_strip_def py_lstrip_def d hd_rev)
qed

lemma py_strip_Nil [simp]: "py_strip [] = []"
  by (simp add: py_strip_def py_lstrip_def)

lemma py_strip_idem [simp]: "py_strip (py_strip s) = py_strip s"
proof (cases "py_strip s = []")
  case False
  let ?l = "py_lstrip s"
  have ne: "dropWhile is_space (rev ?l) \<noteq> []"
    using False by (simp add: py_strip_def py_lstrip_def)
  have "last (py_strip s) = hd (dropWhile is_space (rev ?l))"
    using ne by (simp add: py_strip_def py_lstrip_def last_rev)
  then have l: "\<not> is_space (last (py_strip s))"
    using hd_dropWhile [OF ne] by simp
  obtain pre where pre: "?l = py_strip s @ pre"
    by (metis dropWhile_eq_drop py_lstrip_def py_strip_def append_take_drop_id rev_append rev_rev_ident)
  have "?l \<noteq> []" using False pre by auto
  then have "\<not> is_space (hd ?l)" by (simp add: py_lstrip_def hd_dropWhile)
  then have "\<not> is_space (hd (py_strip s))" using False pre by (metis hd_append2)
  with l False show ?thesis by (simp add: py_strip_id)
qed simp

lemma is_digit_not_space: "is_digit c \<Longrightarrow> \<not> is_space c"
  by (auto simp: is_digit_def is_space_def Let_def)

lemma py_digits_string_of_nat [simp]: "py_digits (string_of_nat n) = Some (int n)"
proof -
  have "py_split CHR ''_'' (string_of_nat n) = [string_of_nat n]"
    by (simp add: py_split_free char_notin_string_of_nat)
  then show ?thesis by (simp add: py_digits_def)
qed

lemma py_int_string_of_int [simp, string_simps]: "py_int (string_of_int i) = Some i"
proof -
  have dig: "is_digit (hd (string_of_nat n))" "is_digit (last (string_of_nat n))" for n
    by (simp_all add: string_of_nat_digits [of _ n, OF hd_in_set] string_of_nat_digits [of _ n, OF last_in_set])
  have "\<not> is_space CHR ''-''" by (simp add: is_space_def)
  then have strip: "py_strip (string_of_int i) = string_of_int i"
    by (intro py_strip_id) (auto simp: string_of_int_def is_digit_not_space dig)
  obtain c r where cr: "string_of_nat (nat i) = c # r" by (cases "string_of_nat (nat i)") auto
  then have "c \<noteq> CHR ''-'' \<and> c \<noteq> CHR ''+''" using dig(1) [of "nat i"] by auto
  then show ?thesis using cr py_digits_string_of_nat [of "nat i"]
    by (auto simp: py_int_def strip) (auto simp: string_of_int_def)
qed

section \<open>Dictionaries\<close>

text \<open>
  A dictionary remembers the order in which its keys were first stored; storing under an
  existing key keeps the key's place. The interface: looking up and storing, and the list
  of the keys in iteration order.
\<close>

locale py_dict =
  fixes get :: "'d \<Rightarrow> 'k \<Rightarrow> 'v option"
    and put :: "'k \<Rightarrow> 'v \<Rightarrow> 'd \<Rightarrow> 'd"
    and keys :: "'d \<Rightarrow> 'k list"
  assumes get_put: "get (put k v d) k' = (if k' = k then Some v else get d k')"
    and keys_put: "keys (put k v d) = (if k \<in> set (keys d) then keys d else keys d @ [k])"
    and get_None_iff: "get d k = None \<longleftrightarrow> k \<notin> set (keys d)"
begin

lemma distinct_keys_put: "distinct (keys d) \<Longrightarrow> distinct (keys (put k v d))"
  by (simp add: keys_put)

text \<open>A loop that stores its values under computed keys: the last value of a key stays.\<close>

lemma get_fold_put:
  "get (fold (\<lambda>(k, v). put k v) kvs d) k =
     (case map_of (rev kvs) k of None \<Rightarrow> get d k | Some v \<Rightarrow> Some v)"
proof (induction kvs arbitrary: d)
  case Nil
  then show ?case by simp
next
  case (Cons kv kvs)
  then show ?case
    by (cases kv) (auto simp: get_put map_add_def split: option.splits)
qed

lemma set_keys_fold_put:
  "set (keys (fold (\<lambda>(k, v). put k v) kvs d)) = set (keys d) \<union> fst ` set kvs"
  by (induction kvs arbitrary: d) (auto simp: keys_put split: if_splits)

lemma distinct_keys_fold_put:
  "distinct (keys d) \<Longrightarrow> distinct (keys (fold (\<lambda>(k, v). put k v) kvs d))"
  by (induction kvs arbitrary: d) (auto simp: distinct_keys_put split: prod.splits)

text \<open>With distinct new keys nothing is overwritten and the keys come in storing order.\<close>

lemma keys_fold_put_distinct:
  "distinct (keys d @ map fst kvs) \<Longrightarrow> keys (fold (\<lambda>(k, v). put k v) kvs d) = keys d @ map fst kvs"
proof (induction kvs arbitrary: d)
  case Nil
  then show ?case by simp
next
  case (Cons kv kvs)
  then show ?case
    by (cases kv) (auto simp: keys_put)
qed

lemma get_fold_put_distinct:
  "distinct (map fst kvs) \<Longrightarrow> (k, v) \<in> set kvs \<Longrightarrow>
     get (fold (\<lambda>(k, v). put k v) kvs d) k = Some v"
proof -
  assume d: "distinct (map fst kvs)" and kv: "(k, v) \<in> set kvs"
  from d have "distinct (map fst (rev kvs))" by (simp add: rev_map [symmetric])
  moreover from kv have "(k, v) \<in> set (rev kvs)" by simp
  ultimately have "map_of (rev kvs) k = Some v" by simp
  then show ?thesis by (simp add: get_fold_put)
qed

end

text \<open>The implementation: an association list without duplicate keys.\<close>

type_synonym ('k, 'v) dict = "('k \<times> 'v) list"

abbreviation dget :: "('k, 'v) dict \<Rightarrow> 'k \<Rightarrow> 'v option" where "dget d k \<equiv> map_of d k"
abbreviation dput :: "'k \<Rightarrow> 'v \<Rightarrow> ('k, 'v) dict \<Rightarrow> ('k, 'v) dict" where "dput \<equiv> AList.update"
abbreviation dkeys :: "('k, 'v) dict \<Rightarrow> 'k list" where "dkeys d \<equiv> map fst d"
abbreviation dvalues :: "('k, 'v) dict \<Rightarrow> 'v list" where "dvalues d \<equiv> map snd d"
abbreviation ddel :: "'k \<Rightarrow> ('k, 'v) dict \<Rightarrow> ('k, 'v) dict" where "ddel \<equiv> AList.delete"
abbreviation din :: "'k \<Rightarrow> ('k, 'v) dict \<Rightarrow> bool" where "din k d \<equiv> k \<in> set (dkeys d)"

text \<open>\<open>d[k]\<close>, which raises on a missing key.\<close>

definition dict_item :: "('k, 'v) dict \<Rightarrow> 'k \<Rightarrow> 'v result" where
  "dict_item d k = need KeyError (dget d k)"

definition dict_of :: "('k \<times> 'v) list \<Rightarrow> ('k, 'v) dict" where
  "dict_of kvs = fold (\<lambda>(k, v). dput k v) kvs []"

interpretation pyd: py_dict "map_of" "AList.update" "map fst"
  by unfold_locales (auto simp: update_conv' update_keys map_of_eq_None_iff)

lemma dict_item_Inr_iff [result_simps]: "dict_item d k = Inr v \<longleftrightarrow> dget d k = Some v"
  by (simp add: dict_item_def result_simps)

lemma dict_item_Inl_iff [result_simps]:
  "dict_item d k = Inl e \<longleftrightarrow> \<not> din k d \<and> e = KeyError"
  by (auto simp: dict_item_def result_simps pyd.get_None_iff)

lemma din_iff: "din k d \<longleftrightarrow> (\<exists>v. dget d k = Some v)"
  using pyd.get_None_iff [of d k] by auto

lemma dput_new: "\<not> din k d \<Longrightarrow> dput k v d = d @ [(k, v)]"
  by (induction d) auto

lemma dvalues_dput: "set (dvalues (dput k v d)) \<subseteq> insert v (set (dvalues d))"
  by (induction d) auto

lemma dict_item_simps [simp]:
  "dget d k = Some v \<Longrightarrow> dict_item d k = Inr v"
  "dget d k = None \<Longrightarrow> dict_item d k = Inl KeyError"
  by (simp_all add: dict_item_def)

lemma dget_dict_of: "dget (dict_of kvs) k = map_of (rev kvs) k"
  by (simp add: dict_of_def pyd.get_fold_put split: option.splits)

lemma set_dkeys_dict_of: "set (dkeys (dict_of kvs)) = fst ` set kvs"
  by (simp add: dict_of_def pyd.set_keys_fold_put del: set_map)

lemma distinct_dkeys_dict_of: "distinct (dkeys (dict_of kvs))"
  by (simp add: dict_of_def pyd.distinct_keys_fold_put)

end
