(* ===== verification/XmlTree.thy ===== *)
theory XmlTree
  imports Prelude
begin

text \<open>
  The property documents (\<open>umbrella.xml\<close>, \<open>organization.xml\<close>, \<open>firewall.xml\<close>, ...) as the
  scripts read them: element trees with a tag, the text before the first child, attributes
  and children, and the part of Python's ElementTree interface that the scripts use: \<open>find\<close>
  and \<open>findall\<close> with a plain tag (children only), \<open>iter\<close> with a tag (the element itself and
  its descendants, in document order), \<open>get\<close> on attributes and \<open>text\<close>, which is \<open>None\<close> for
  an element without text.
\<close>

datatype elem = Elem (etag: string) (etext: "string option")
  (eattrib: "(string \<times> string) list") (echildren: "elem list")

definition find_elem :: "elem \<Rightarrow> string \<Rightarrow> elem option" where
  "find_elem e t = find (\<lambda>c. etag c = t) (echildren e)"

definition findall :: "elem \<Rightarrow> string \<Rightarrow> elem list" where
  "findall e t = filter (\<lambda>c. etag c = t) (echildren e)"

fun iter_all :: "elem \<Rightarrow> elem list" where
  "iter_all (Elem t x as cs) = Elem t x as cs # concat (map iter_all cs)"

definition iter_elem :: "elem \<Rightarrow> string \<Rightarrow> elem list" where
  "iter_elem e t = filter (\<lambda>c. etag c = t) (iter_all e)"

definition get_attr :: "elem \<Rightarrow> string \<Rightarrow> string option" where
  "get_attr e a = map_of (eattrib e) a"

abbreviation has_elem :: "elem \<Rightarrow> string \<Rightarrow> bool" where
  "has_elem e t \<equiv> find_elem e t \<noteq> None"

text \<open>\<open>e.find(t).text\<close>: \<open>find\<close> gives \<open>None\<close> for a missing child, which has no \<open>text\<close>.\<close>

definition find_text :: "elem \<Rightarrow> string \<Rightarrow> string option result" where
  "find_text e t = rbind (need AttributeError (find_elem e t)) (\<lambda>c. Inr (etext c))"

text \<open>\<open>x.strip()\<close> of a text that may be \<open>None\<close>.\<close>

definition strip_text :: "string option \<Rightarrow> string result" where
  "strip_text x = rbind (need AttributeError x) (\<lambda>s. Inr (py_strip s))"

text \<open>\<open>e.find(t).text.strip()\<close>.\<close>

definition find_stripped :: "elem \<Rightarrow> string \<Rightarrow> string result" where
  "find_stripped e t = rbind (find_text e t) strip_text"

text \<open>The guard \<open>x is not None and x.strip()\<close>, with the stripped text when it holds.\<close>

definition filled :: "string option \<Rightarrow> string option" where
  "filled x = (case x of None \<Rightarrow> None
     | Some s \<Rightarrow> if py_strip s = [] then None else Some (py_strip s))"

lemma find_elem_in: "find_elem e t = Some c \<Longrightarrow> c \<in> set (echildren e) \<and> etag c = t"
  by (auto simp: find_elem_def find_Some_iff)

lemma find_elem_hd: "find_elem e t = (case findall e t of [] \<Rightarrow> None | c # _ \<Rightarrow> Some c)"
proof -
  have "find P xs = (case filter P xs of [] \<Rightarrow> None | c # _ \<Rightarrow> Some c)" for P and xs :: "elem list"
    by (induction xs) auto
  then show ?thesis by (simp add: find_elem_def findall_def)
qed

lemma find_elem_None_iff: "find_elem e t = None \<longleftrightarrow> findall e t = []"
  by (simp add: find_elem_hd split: list.splits)

lemma findall_size: "c \<in> set (findall e t) \<Longrightarrow> size c < size e"
proof -
  have "c \<in> set cs \<Longrightarrow> size c < Suc (size_list size cs)" for cs :: "elem list"
    by (induction cs) auto
  then show "c \<in> set (findall e t) \<Longrightarrow> size c < size e"
    by (cases e) (auto simp: findall_def elem.size_gen)
qed

lemma find_text_simps [simp]:
  "find_elem e t = Some c \<Longrightarrow> find_text e t = Inr (etext c)"
  "find_elem e t = None \<Longrightarrow> find_text e t = Inl AttributeError"
  by (simp_all add: find_text_def)

lemma find_text_Inr_iff [result_simps]:
  "find_text e t = Inr x \<longleftrightarrow> (\<exists>c. find_elem e t = Some c \<and> x = etext c)"
  by (auto simp: find_text_def result_simps)

lemma strip_text_Inr_iff [result_simps]:
  "strip_text x = Inr s \<longleftrightarrow> (\<exists>r. x = Some r \<and> s = py_strip r)"
  by (auto simp: strip_text_def result_simps)

lemma strip_text_simps [simp]:
  "strip_text None = Inl AttributeError" "strip_text (Some s) = Inr (py_strip s)"
  by (simp_all add: strip_text_def)

lemma find_stripped_Inr_iff [result_simps]:
  "find_stripped e t = Inr s \<longleftrightarrow> (\<exists>c r. find_elem e t = Some c \<and> etext c = Some r \<and> s = py_strip r)"
  by (auto simp: find_stripped_def result_simps)

lemma iter_all_self: "e \<in> set (iter_all e)"
  by (cases e) simp

end
