(* ===== verification/IPAddress.thy ===== *)
theory IPAddress
  imports Prelude "HOL-Library.Word"
begin

unbundle bit_operations_syntax

text \<open>
  Addresses and networks of Python's \<open>ipaddress\<close> module, as far as the scripts use them.
  The schemas of the property documents admit dotted-quad addresses only, so addresses are
  the IPv4 ones: 32-bit words. A network is its address and its prefix length.
\<close>

section \<open>Addresses\<close>

type_synonym ipv4 = "32 word"

definition octets :: "ipv4 \<Rightarrow> nat list" where
  "octets a = (let n = unat a in
     [n div 16777216, n div 65536 mod 256, n div 256 mod 256, n mod 256])"

definition of_octets :: "nat list \<Rightarrow> ipv4" where
  "of_octets os = word_of_nat (foldl (\<lambda>n b. 256 * n + b) 0 os)"

definition str_ip :: "ipv4 \<Rightarrow> string" where
  "str_ip a = py_join ''.'' (map string_of_nat (octets a))"

definition parse_octet :: "string \<Rightarrow> nat result" where
  "parse_octet s =
     (if \<not> py_isdigit s then Inl ValueError
      else if 3 < length s then Inl ValueError
      else if s \<noteq> ''0'' \<and> hd s = CHR ''0'' then Inl ValueError
      else if 255 < nat_of_digits s then Inl ValueError
      else Inr (nat_of_digits s))"

definition ip_address :: "string \<Rightarrow> ipv4 result" where
  "ip_address s = (let parts = py_split CHR ''.'' s in
     if length parts \<noteq> 4 then Inl ValueError
     else rbind (rmap parse_octet parts) (\<lambda>os. Inr (of_octets os)))"

text \<open>\<open>ip_address(e)\<close> where \<open>e\<close> may be \<open>None\<close>: \<open>None\<close> is no address.\<close>

definition ip_address_opt :: "string option \<Rightarrow> ipv4 result" where
  "ip_address_opt x = rbind (need ValueError x) ip_address"

text \<open>\<open>address + n\<close> raises \<open>AddressValueError\<close> outside the address space.\<close>

definition addr_add :: "ipv4 \<Rightarrow> int \<Rightarrow> ipv4 result" where
  "addr_add a n = (let r = uint a + n in
     if 0 \<le> r \<and> r < 2 ^ 32 then Inr (word_of_int r) else Inl ValueError)"

section \<open>Networks\<close>

datatype ipnet = IPNet (network_address: ipv4) (prefixlen: nat)

definition netmask_of :: "nat \<Rightarrow> ipv4" where
  "netmask_of p = NOT (mask (32 - p))"

definition netmask :: "ipnet \<Rightarrow> ipv4" where
  "netmask n = netmask_of (prefixlen n)"

definition broadcast_address :: "ipnet \<Rightarrow> ipv4" where
  "broadcast_address n = network_address n OR mask (32 - prefixlen n)"

definition wf_net :: "ipnet \<Rightarrow> bool" where
  "wf_net n \<longleftrightarrow> prefixlen n \<le> 32 \<and> network_address n AND netmask n = network_address n"

text \<open>\<open>address in network\<close>; \<open>network in network\<close> is always \<open>False\<close>.\<close>

definition in_net :: "ipv4 \<Rightarrow> ipnet \<Rightarrow> bool" where
  "in_net a n \<longleftrightarrow> a AND netmask n = network_address n"

definition net_in_net :: "ipnet \<Rightarrow> ipnet \<Rightarrow> bool" where
  "net_in_net a n \<longleftrightarrow> False"

text \<open>The constructor: \<open>ip_network((address, prefixlen))\<close>, strict about host bits.\<close>

definition make_network :: "ipv4 \<Rightarrow> nat \<Rightarrow> ipnet result" where
  "make_network a p =
     (if 32 < p then Inl ValueError
      else if a AND netmask_of p \<noteq> a then Inl ValueError
      else Inr (IPNet a p))"

definition prefix_from_prefix_string :: "string \<Rightarrow> nat option" where
  "prefix_from_prefix_string s =
     (if py_isdigit s \<and> nat_of_digits s \<le> 32 then Some (nat_of_digits s) else None)"

text \<open>A dotted-quad netmask, or else a hostmask.\<close>

definition prefix_from_ip_int :: "ipv4 \<Rightarrow> nat option" where
  "prefix_from_ip_int w = find (\<lambda>p. netmask_of p = w) [0..<33]"

definition prefix_from_ip_string :: "string \<Rightarrow> nat result" where
  "prefix_from_ip_string s = rbind (ip_address s) (\<lambda>w.
     case prefix_from_ip_int w of Some p \<Rightarrow> Inr p
     | None \<Rightarrow> need ValueError (prefix_from_ip_int (NOT w)))"

definition make_netmask :: "string \<Rightarrow> nat result" where
  "make_netmask s = (case prefix_from_prefix_string s of Some p \<Rightarrow> Inr p
     | None \<Rightarrow> prefix_from_ip_string s)"

definition ip_network :: "string \<Rightarrow> ipnet result" where
  "ip_network s = (case py_split CHR ''/'' s of
      [a] \<Rightarrow> rbind (ip_address a) (\<lambda>w. make_network w 32)
    | [a, m] \<Rightarrow> rbind (ip_address a) (\<lambda>w. rbind (make_netmask m) (make_network w))
    | _ \<Rightarrow> Inl ValueError)"

definition ip_network_opt :: "string option \<Rightarrow> ipnet result" where
  "ip_network_opt x = rbind (need ValueError x) ip_network"

definition str_net :: "ipnet \<Rightarrow> string" where
  "str_net n = str_ip (network_address n) @ ''/'' @ string_of_nat (prefixlen n)"

definition num_addresses :: "ipnet \<Rightarrow> nat" where
  "num_addresses n = 2 ^ (32 - prefixlen n)"

text \<open>Iterating over a network: every address, the first and the last included.\<close>

definition net_list :: "ipnet \<Rightarrow> ipv4 list" where
  "net_list n = map (\<lambda>i. network_address n + word_of_nat i) [0..<num_addresses n]"

section \<open>Facts about addresses\<close>

lemma octets_bound: "b \<in> set (octets a) \<Longrightarrow> b < 256"
proof -
  have "unat a < 2 ^ LENGTH(32)" by (rule unsigned_less)
  then have "unat a < 4294967296" by simp
  then show "b \<in> set (octets a) \<Longrightarrow> b < 256"
    by (auto simp: octets_def Let_def)
qed

lemma length_octets [simp]: "length (octets a) = 4"
  by (simp add: octets_def Let_def)

lemma of_octets_octets [simp]: "of_octets (octets a) = a"
proof -
  have "256 * (256 * (256 * (n div 16777216) + n div 65536 mod 256) + n div 256 mod 256) + n mod 256 = n"
    for n :: nat
  proof -
    have "n div 16777216 = n div 65536 div 256" "n div 65536 = n div 256 div 256"
      by (simp_all flip: div_mult2_eq)
    then show ?thesis by simp
  qed
  then show ?thesis by (simp add: of_octets_def octets_def Let_def)
qed

lemma octets_inject: "octets a = octets b \<longleftrightarrow> a = b"
  by (metis of_octets_octets)

lemma parse_octet_string_of_nat [simp]: "n < 256 \<Longrightarrow> parse_octet (string_of_nat n) = Inr n"
proof -
  assume n: "n < 256"
  have "string_of_nat n = ''0'' \<or> hd (string_of_nat n) \<noteq> CHR ''0''"
  proof (cases "n = 0")
    case True
    then show ?thesis by (simp add: string_of_nat.simps [of 0] digit_char_def)
  next
    case False
    then show ?thesis using string_of_nat_no_leading_zero by blast
  qed
  with n length_string_of_nat_3 [of n] show ?thesis
    by (simp add: parse_octet_def)
qed

lemma split_str_ip: "py_split CHR ''.'' (str_ip a) = map string_of_nat (octets a)"
proof -
  have "map string_of_nat (octets a) \<noteq> []" by (simp add: octets_def Let_def)
  then show ?thesis
    unfolding str_ip_def by (rule py_split_join) (auto simp: char_notin_string_of_nat)
qed

lemma ip_address_str_ip [simp]: "ip_address (str_ip a) = Inr a"
proof -
  have "rmap parse_octet (map string_of_nat os) = Inr os" if "\<And>b. b \<in> set os \<Longrightarrow> b < 256" for os
    using that by (induction os) auto
  from this [of "octets a"] show ?thesis
    by (simp add: ip_address_def split_str_ip Let_def octets_bound)
qed

lemma str_ip_inject [simp]: "str_ip a = str_ip b \<longleftrightarrow> a = b"
  by (metis ip_address_str_ip sum.inject(2))

lemma str_ip_chars: "c \<in> set (str_ip a) \<Longrightarrow> is_digit c \<or> c = CHR ''.''"
  using set_py_join [of "''.''" "map string_of_nat (octets a)"]
  by (auto simp: str_ip_def dest: string_of_nat_digits)

section \<open>Facts about networks\<close>

lemma unat_and_mask: "unat (a AND mask h) = unat a mod 2 ^ h" for a :: ipv4
proof -
  have "unat (take_bit h a) = take_bit h (unat a)" by (rule unsigned_take_bit_eq)
  then show ?thesis by (metis take_bit_eq_mask take_bit_eq_mod)
qed

lemma and_mask_split: "(a AND NOT (mask h)) + (a AND mask h) = a" for a :: ipv4
proof -
  have "(a AND NOT (mask h)) AND (a AND mask h) = 0" and "(a AND NOT (mask h)) OR (a AND mask h) = a"
    by (auto simp: bit_eq_iff bit_simps)
  then show ?thesis by (metis add_0 word_plus_and_or)
qed

lemma unat_and_not_mask: "unat (a AND NOT (mask h)) = unat a div 2 ^ h * 2 ^ h" for a :: ipv4
proof -
  have "a AND NOT (mask h) = a - (a AND mask h)"
    by (metis add_diff_cancel_right' and_mask_split)
  moreover have "a AND mask h \<le> a" by (simp add: word_and_le2)
  ultimately have "unat (a AND NOT (mask h)) = unat a - unat (a AND mask h)"
    by (simp add: unat_sub)
  then show ?thesis by (simp add: unat_and_mask minus_mod_eq_div_mult)
qed

text \<open>The block size \<open>2 ^ (32 - p)\<close> of a network carries everything about it as a number.\<close>

lemma in_net_iff_div:
  assumes "wf_net n"
  shows "in_net a n \<longleftrightarrow> unat a div 2 ^ (32 - prefixlen n) = unat (network_address n) div 2 ^ (32 - prefixlen n)"
proof -
  let ?H = "(2::nat) ^ (32 - prefixlen n)"
  have na: "unat (network_address n) = unat (network_address n) div ?H * ?H"
    using assms unat_and_not_mask [of "network_address n" "32 - prefixlen n"]
    by (simp add: wf_net_def netmask_def netmask_of_def)
  have "in_net a n \<longleftrightarrow> unat (a AND NOT (mask (32 - prefixlen n))) = unat (network_address n)"
    by (simp only: in_net_def netmask_def netmask_of_def word_unat_eq_iff)
  also have "\<dots> \<longleftrightarrow> unat a div ?H * ?H = unat (network_address n) div ?H * ?H"
    using na by (simp add: unat_and_not_mask)
  finally show ?thesis by simp
qed

lemma unat_mask_ipv4: "h \<le> 32 \<Longrightarrow> unat (mask h :: ipv4) = 2 ^ h - 1"
proof -
  assume h: "h \<le> 32"
  have "unat (word_of_nat (mask h) :: ipv4) = take_bit 32 (mask h :: nat)"
    by (simp add: unat_of_nat take_bit_eq_mod)
  with h show ?thesis
    by (simp only: of_nat_mask_eq take_bit_of_mask) (simp add: min_def mask_eq_exp_minus_1)
qed

lemma unat_broadcast:
  assumes "wf_net n"
  shows "unat (broadcast_address n) = unat (network_address n) + (2 ^ (32 - prefixlen n) - 1)"
proof -
  let ?h = "32 - prefixlen n"
  have na: "network_address n AND NOT (mask ?h) = network_address n"
    using assms by (simp add: wf_net_def netmask_def netmask_of_def)
  have "network_address n AND mask ?h = 0"
    by (subst na [symmetric]) (simp add: and.assoc)
  then have "broadcast_address n = network_address n + mask ?h"
    using word_plus_and_or [of "network_address n" "mask ?h"] by (simp add: broadcast_address_def)
  moreover have "network_address n \<le> network_address n OR mask ?h"
    by (simp add: le_word_or2)
  ultimately have "unat (broadcast_address n) = unat (network_address n) + unat (mask ?h :: ipv4)"
    by (metis broadcast_address_def unat_plus_simple)
  moreover have "unat (mask ?h :: ipv4) = 2 ^ ?h - 1"
    by (rule unat_mask_ipv4) simp
  ultimately show ?thesis by simp
qed

text \<open>The addresses of a network: the interval from the first to the broadcast address.\<close>

definition addrs :: "ipnet \<Rightarrow> ipv4 set" where
  "addrs n = {a. in_net a n}"

lemma wf_net_dvd: "wf_net n \<Longrightarrow> 2 ^ (32 - prefixlen n) dvd unat (network_address n)"
  by (metis dvd_triv_right netmask_def netmask_of_def unat_and_not_mask wf_net_def)

lemma unat_in_net_iff:
  assumes "wf_net n"
  shows "in_net a n \<longleftrightarrow> unat (network_address n) \<le> unat a \<and>
     unat a < unat (network_address n) + 2 ^ (32 - prefixlen n)"
proof -
  let ?H = "(2::nat) ^ (32 - prefixlen n)"
  obtain k where k: "unat (network_address n) = ?H * k"
    using wf_net_dvd [OF assms] by (auto elim: dvdE)
  have "unat a div ?H = k \<longleftrightarrow> ?H * k \<le> unat a \<and> unat a < ?H * k + ?H"
    by (metis add.commute div_nat_eqI dividend_less_div_times mult.commute mult_Suc
        times_div_less_eq_dividend zero_less_numeral zero_less_power)
  then show ?thesis using k by (simp add: in_net_iff_div [OF assms])
qed

lemma in_net_range:
  assumes "wf_net n"
  shows "in_net a n \<longleftrightarrow> network_address n \<le> a \<and> a \<le> broadcast_address n"
proof -
  have "(0::nat) < 2 ^ (32 - prefixlen n)" by simp
  then show ?thesis
    by (auto simp only: unat_in_net_iff [OF assms] unat_broadcast [OF assms] word_le_nat_alt)
qed

lemma addrs_interval: "wf_net n \<Longrightarrow> addrs n = {network_address n .. broadcast_address n}"
  by (auto simp: addrs_def in_net_range)

lemma network_address_in_net: "wf_net n \<Longrightarrow> in_net (network_address n) n"
  by (simp add: unat_in_net_iff)

lemma first_le_last: "wf_net n \<Longrightarrow> network_address n \<le> broadcast_address n"
  using network_address_in_net in_net_range by blast

lemma broadcast_in_net: "wf_net n \<Longrightarrow> in_net (broadcast_address n) n"
  by (simp add: in_net_range first_le_last)

text \<open>Two networks are nested or apart.\<close>

lemma in_net_mono:
  assumes wf: "wf_net m" "wf_net n" and le: "prefixlen n \<le> prefixlen m"
    and common: "in_net a m" "in_net a n" and b: "in_net b m"
  shows "in_net b n"
proof -
  let ?M = "32 - prefixlen m" and ?N = "32 - prefixlen n"
  have N: "?N = ?M + (?N - ?M)" using le by simp
  have div_N: "unat x div 2 ^ ?N = unat x div 2 ^ ?M div 2 ^ (?N - ?M)" for x :: ipv4
    by (subst N) (simp add: power_add div_mult2_eq)
  have "unat b div 2 ^ ?M = unat a div 2 ^ ?M"
    using common(1) b wf(1) by (simp add: in_net_iff_div)
  then have "unat b div 2 ^ ?N = unat a div 2 ^ ?N" by (simp only: div_N)
  then show ?thesis using common(2) wf(2) by (simp add: in_net_iff_div)
qed

lemma nested_or_disjoint:
  assumes "wf_net m" "wf_net n"
  shows "addrs m \<subseteq> addrs n \<or> addrs n \<subseteq> addrs m \<or> addrs m \<inter> addrs n = {}"
proof (cases "\<exists>a. in_net a m \<and> in_net a n")
  case True
  then obtain a where a: "in_net a m" "in_net a n" by blast
  show ?thesis
  proof (cases "prefixlen n \<le> prefixlen m")
    case True
    then show ?thesis using in_net_mono [OF assms True a] by (auto simp: addrs_def)
  next
    case False
    then have "prefixlen m \<le> prefixlen n" by simp
    then show ?thesis
      using in_net_mono [OF assms(2,1) _ a(2,1)] by (auto simp: addrs_def)
  qed
next
  case False
  then show ?thesis by (auto simp: addrs_def)
qed

lemma addrs_inject:
  assumes "wf_net m" "wf_net n" "addrs m = addrs n"
  shows "m = n"
proof -
  have "{network_address m .. broadcast_address m} = {network_address n .. broadcast_address n}"
    using assms by (simp add: addrs_interval)
  then have eq: "network_address m = network_address n" "broadcast_address m = broadcast_address n"
    using first_le_last [OF assms(1)] first_le_last [OF assms(2)] by (auto simp: Icc_eq_Icc)
  then have "(2::nat) ^ (32 - prefixlen m) - 1 = 2 ^ (32 - prefixlen n) - 1"
    by (metis add_left_cancel assms(1,2) unat_broadcast)
  then have "(2::nat) ^ (32 - prefixlen m) = 2 ^ (32 - prefixlen n)"
    by (metis Suc_pred' zero_less_numeral zero_less_power)
  then have "32 - prefixlen m = 32 - prefixlen n" by simp
  then have "prefixlen m = prefixlen n"
    using assms(1,2) unfolding wf_net_def by linarith
  with eq show ?thesis by (simp add: ipnet.expand)
qed

lemma make_network_Inr_iff [result_simps]:
  "make_network a p = Inr n \<longleftrightarrow> n = IPNet a p \<and> wf_net n"
  by (auto simp: make_network_def wf_net_def netmask_def)

lemma ip_network_wf: "ip_network s = Inr n \<Longrightarrow> wf_net n"
  by (auto simp: ip_network_def result_simps split: list.splits)

lemma ip_network_opt_wf: "ip_network_opt x = Inr n \<Longrightarrow> wf_net n"
  by (auto simp: ip_network_opt_def result_simps dest: ip_network_wf)

lemma ip_network_str_net [simp]: "wf_net n \<Longrightarrow> ip_network (str_net n) = Inr n"
proof -
  assume wf: "wf_net n"
  have "CHR ''/'' \<notin> set (str_ip (network_address n))"
    by (auto dest: str_ip_chars)
  then have "py_split CHR ''/'' (str_net n)
      = [str_ip (network_address n), string_of_nat (prefixlen n)]"
    by (simp add: str_net_def py_split_append py_split_free char_notin_string_of_nat)
  moreover have "make_netmask (string_of_nat (prefixlen n)) = Inr (prefixlen n)"
    using wf by (simp add: make_netmask_def prefix_from_prefix_string_def wf_net_def)
  ultimately show ?thesis
    using wf by (simp add: ip_network_def make_network_def wf_net_def netmask_def)
qed

lemma str_net_inject: "wf_net m \<Longrightarrow> wf_net n \<Longrightarrow> str_net m = str_net n \<longleftrightarrow> m = n"
  by (metis ip_network_str_net sum.inject(2))

lemma network_room:
  assumes "wf_net n"
  shows "unat (network_address n) + 2 ^ (32 - prefixlen n) \<le> 2 ^ 32"
proof -
  have "unat (broadcast_address n) < 2 ^ LENGTH(32)" by (rule unsigned_less)
  then show ?thesis using unat_broadcast [OF assms] by simp
qed

lemma unat_net_list_nth:
  assumes "wf_net n" and "i < num_addresses n"
  shows "unat (network_address n + word_of_nat i) = unat (network_address n) + i"
proof -
  have "unat (network_address n) + i < 2 ^ LENGTH(32)"
    using network_room [OF assms(1)] assms(2) by (simp add: num_addresses_def)
  moreover have "unat (word_of_nat k :: ipv4) = k" if "k < 2 ^ LENGTH(32)" for k
    using that by (simp add: unat_of_nat)
  moreover have "network_address n + word_of_nat i = word_of_nat (unat (network_address n) + i)"
    by simp
  ultimately show ?thesis by (simp only:)
qed

lemma set_net_list: "wf_net n \<Longrightarrow> set (net_list n) = addrs n"
proof (rule set_eqI)
  fix a
  assume wf: "wf_net n"
  show "a \<in> set (net_list n) \<longleftrightarrow> a \<in> addrs n"
  proof
    assume "a \<in> set (net_list n)"
    then obtain i where "i < num_addresses n" "a = network_address n + word_of_nat i"
      by (auto simp: net_list_def)
    then show "a \<in> addrs n"
      using wf by (simp add: addrs_def unat_in_net_iff unat_net_list_nth) (simp add: num_addresses_def)
  next
    assume "a \<in> addrs n"
    then have r: "unat (network_address n) \<le> unat a" "unat a - unat (network_address n) < num_addresses n"
      using wf by (auto simp: addrs_def unat_in_net_iff num_addresses_def)
    then have "a = network_address n + word_of_nat (unat a - unat (network_address n))"
      by (simp add: word_unat_eq_iff unat_net_list_nth [OF wf])
    with r show "a \<in> set (net_list n)"
      unfolding net_list_def by (metis (no_types, lifting) atLeastLessThan_iff image_eqI le0 list.set_map set_upt)
  qed
qed

lemma length_net_list [simp]: "length (net_list n) = num_addresses n"
  by (simp add: net_list_def)

lemma distinct_net_list:
  assumes "wf_net n"
  shows "distinct (net_list n)"
proof -
  have "inj_on (\<lambda>i. network_address n + word_of_nat i) {0..<num_addresses n}"
    using unat_net_list_nth [OF assms]
    by (intro inj_onI) (metis add_left_cancel atLeastLessThan_iff)
  then show ?thesis by (simp add: net_list_def distinct_map)
qed

text \<open>Networks are ordered by their address, then by their mask, the wider network first.\<close>

instantiation ipnet :: linorder
begin

definition less_eq_ipnet :: "ipnet \<Rightarrow> ipnet \<Rightarrow> bool" where
  "less_eq_ipnet m n \<longleftrightarrow> network_address m < network_address n
     \<or> network_address m = network_address n \<and> prefixlen m \<le> prefixlen n"

definition less_ipnet :: "ipnet \<Rightarrow> ipnet \<Rightarrow> bool" where
  "less_ipnet m n \<longleftrightarrow> network_address m < network_address n
     \<or> network_address m = network_address n \<and> prefixlen m < prefixlen n"

instance
  by standard (auto simp: less_eq_ipnet_def less_ipnet_def intro: ipnet.expand)

end

text \<open>Evaluation of concrete addresses by the simplifier.\<close>

lemmas parse_eval = ip_address_def ip_network_def ip_address_opt_def ip_network_opt_def
  make_network_def make_netmask_def prefix_from_prefix_string_def parse_octet_def py_isdigit_def
  is_digit_def digit_val_def nat_of_digits_def of_octets_def netmask_of_def mask_eq_exp_minus_1 Let_def

lemmas net_eval = wf_net_def netmask_def netmask_of_def broadcast_address_def in_net_def
  mask_eq_exp_minus_1

lemmas print_eval = str_ip_def str_net_def octets_def string_of_nat.simps Let_def

end
