(* ===== verification/Samples.thy ===== *)
theory Samples
  imports XmlTree
begin

text \<open>
  Small property documents, in the shape the schemas prescribe, on which the witnesses of the
  properties are evaluated.
\<close>

definition leaf :: "string \<Rightarrow> string \<Rightarrow> elem" where
  "leaf t s = Elem t (Some s) [] []"

definition node :: "string \<Rightarrow> elem list \<Rightarrow> elem" where
  "node t cs = Elem t None [] cs"

definition sample_server :: "string \<Rightarrow> string \<Rightarrow> string \<Rightarrow> string \<Rightarrow> elem" where
  "sample_server name func ip mac = node ''server''
     [leaf ''name'' name, leaf ''function'' func,
      node ''pubif'' [leaf ''dev'' ''eth0'', leaf ''mac'' mac, leaf ''ip'' ip]]"

definition sample_umbrella :: elem where
  "sample_umbrella = node ''Properties''
    [leaf ''system_name'' ''Umbrella'', leaf ''long_name'' ''Umbrella Linux'',
     leaf ''location'' ''Donetsk'', leaf ''state'' ''DPR'', leaf ''country'' ''Russia'',
     leaf ''country_code'' ''RU'',
     node ''domain'' [leaf ''name'' ''Example.org'', leaf ''notify'' ''192.0.2.7''],
     node ''domain'' [leaf ''name'' ''slave.org'', leaf ''master'' ''192.0.2.9''],
     node ''domain'' [leaf ''name'' ''another.org'', leaf ''alias'' ''ftp'', leaf ''slave'' ''ns.other.org''],
     leaf ''pubnet'' ''10.1.0.0/16'', leaf ''secnet'' ''10.2.4.0/22'', leaf ''DMZnet'' ''10.3.0.0/24'',
     leaf ''SMTP_outbound_relay'' ''relay.example.org'',
     sample_server ''gw'' ''router'' ''10.1.0.1'' ''00:00:00:00:00:01'',
     sample_server ''conf'' ''config'' ''10.1.0.2'' ''00:00:00:00:00:02'',
     sample_server ''prx'' ''proxy'' ''10.1.0.3'' ''00:00:00:00:00:03'']"

lemmas xml_eval = sample_umbrella_def sample_server_def node_def leaf_def findall_def
  find_text_def find_elem_def find_stripped_def strip_text_def get_attr_def

lemmas strip_eval = py_strip_def py_lstrip_def is_space_def Let_def

end
