(* ===== verification/FileStore.thy ===== *)
theory FileStore
  imports Prelude
begin

text \<open>
  The files that the scripts read and write, with their modification times, as the state
  that the scripts pass on; and the contract of that state that the scripts rely on. Times are
  seconds, as rational numbers (\<open>getmtime\<close> and \<open>time\<close> give fractions of a second). Whether a
  file can be opened for reading or writing, and whether its times can be set, is part of the
  state: a script may meet files it has no permission for.
\<close>

record filesystem =
  files :: "string \<Rightarrow> (string \<times> rat) option"
  readable :: "string \<Rightarrow> bool"
  writable :: "string \<Rightarrow> bool"
  owned :: "string \<Rightarrow> bool"

definition isfile :: "filesystem \<Rightarrow> string \<Rightarrow> bool" where
  "isfile fs f \<longleftrightarrow> files fs f \<noteq> None"

definition getmtime :: "filesystem \<Rightarrow> string \<Rightarrow> rat result" where
  "getmtime fs f = rbind (need OSError (files fs f)) (\<lambda>(_, m). Inr m)"

definition read_file :: "filesystem \<Rightarrow> string \<Rightarrow> string result" where
  "read_file fs f = (if readable fs f then rbind (need OSError (files fs f)) (\<lambda>(c, _). Inr c)
     else Inl OSError)"

text \<open>\<open>open(f, 'w')\<close> and \<open>write\<close>: the content is replaced, the file changed now.\<close>

definition write_file :: "rat \<Rightarrow> string \<Rightarrow> string \<Rightarrow> filesystem \<Rightarrow> filesystem result" where
  "write_file now f c fs = (if writable fs f
     then Inr (fs\<lparr>files := (files fs)(f \<mapsto> (c, now))\<rparr>) else Inl OSError)"

definition utime :: "string \<Rightarrow> rat \<Rightarrow> filesystem \<Rightarrow> filesystem result" where
  "utime f t fs = (case files fs f of None \<Rightarrow> Inl OSError
     | Some (c, _) \<Rightarrow> if owned fs f then Inr (fs\<lparr>files := (files fs)(f \<mapsto> (c, t))\<rparr>) else Inl OSError)"

text \<open>\<open>readline\<close>: up to and including the first newline.\<close>

fun readline :: "string \<Rightarrow> string" where
  "readline [] = []"
| "readline (c # cs) = (if c = CHR 0x0A then [c] else c # readline cs)"

lemma readline_no_newline: "CHR 0x0A \<notin> set s \<Longrightarrow> readline s = s"
  by (induction s) auto

text \<open>The contract: what is read after a write, and what setting the times leaves alone.\<close>

locale file_store =
  fixes rd :: "'fs \<Rightarrow> string \<Rightarrow> string result"
    and mt :: "'fs \<Rightarrow> string \<Rightarrow> rat result"
    and wr :: "rat \<Rightarrow> string \<Rightarrow> string \<Rightarrow> 'fs \<Rightarrow> 'fs result"
    and ut :: "string \<Rightarrow> rat \<Rightarrow> 'fs \<Rightarrow> 'fs result"
    and may_read :: "'fs \<Rightarrow> string \<Rightarrow> bool"
  assumes rd_wr: "wr t f c s = Inr s' \<Longrightarrow> may_read s f \<Longrightarrow> rd s' f = Inr c"
    and mt_wr: "wr t f c s = Inr s' \<Longrightarrow> mt s' f = Inr t"
    and rd_ut: "ut f t s = Inr s' \<Longrightarrow> rd s' g = rd s g"
    and mt_ut: "ut f t s = Inr s' \<Longrightarrow> mt s' f = Inr t"
    and mt_ut_other: "ut f t s = Inr s' \<Longrightarrow> g \<noteq> f \<Longrightarrow> mt s' g = mt s g"
    and mt_wr_other: "wr t f c s = Inr s' \<Longrightarrow> g \<noteq> f \<Longrightarrow> mt s' g = mt s g"
    and may_wr: "wr t f c s = Inr s' \<Longrightarrow> may_read s' g = may_read s g"
    and may_ut: "ut f t s = Inr s' \<Longrightarrow> may_read s' g = may_read s g"
begin

text \<open>A file that is written and then given a time: the content stays, the time is the given one.\<close>

lemma write_then_utime:
  assumes "wr now f c s = Inr s1" and "ut f t s1 = Inr s2" and "may_read s f"
  shows "rd s2 f = Inr c" and "mt s2 f = Inr t" and "may_read s2 f"
  using assms rd_wr [OF assms(1,3)] rd_ut [OF assms(2)] mt_ut [OF assms(2)]
    may_wr [OF assms(1)] may_ut [OF assms(2)] by simp_all

lemma write_then_utime_other:
  assumes "wr now f c s = Inr s1" and "ut f t s1 = Inr s2" and "g \<noteq> f"
  shows "mt s2 g = mt s g"
  using mt_wr_other [OF assms(1,3)] mt_ut_other [OF assms(2,3)] by simp

end

interpretation fsys: file_store read_file getmtime write_file utime readable
  by unfold_locales
    (auto simp: read_file_def getmtime_def write_file_def utime_def result_simps
      split: if_splits option.splits prod.splits)

end
