(* ===== verification/BaseParams.thy ===== *)
theory BaseParams
  imports XmlTree Samples "HOL-Library.Multiset"
begin

text \<open>
  \<open>Python/00_baseparams.py\<close>: the names, the place and the domains of the installation, read
  from \<open>umbrella.xml\<close>. A text is \<open>None\<close> for an empty element, so most values are optional
  strings; what the script then does with a \<open>None\<close> (an attribute of it, a comparison) raises.
\<close>

section \<open>Model\<close>

record baseparams =
  system_name :: "string option"
  system_name_local :: "string option"
  long_name :: "string option"
  long_name_local :: "string option"
  dept_name :: "string option"
  dept_name_local :: "string option"
  location :: "string option"
  location_local :: "string option"
  state_name :: "string option"
  state_local :: "string option"
  country :: "string option"
  country_local :: "string option"
  country_code :: "string option"
  language :: "string option"
  timezone :: "string option"
  domain_name :: string
  domain_names :: "string option list"
  domain_notifies :: "(string option, string list) dict"
  domain_AXFR :: "(string option, string list) dict"
  realm_name :: string
  ldap_root :: string
  install_zabbix :: bool
  upstream_proxy :: "string option"
  admins :: "string option list"

text \<open>A variable that is first bound to \<open>find(t)\<close> and then to its text or to a default.\<close>

definition text_or :: "elem \<Rightarrow> string \<Rightarrow> string option \<Rightarrow> string option" where
  "text_or xdata t d = (case find_elem xdata t of None \<Rightarrow> d | Some c \<Rightarrow> etext c)"

text \<open>The loop over the domains: names, DNS notifies and zone-transfer permissions.\<close>

record domain_tables =
  dt_names :: "string option list"
  dt_notifies :: "(string option, string list) dict"
  dt_AXFR :: "(string option, string list) dict"

definition put_nonempty ::
  "string option \<Rightarrow> string list \<Rightarrow> (string option, string list) dict \<Rightarrow> (string option, string list) dict" where
  "put_nonempty k xs d = (if 0 < length xs then dput k xs d else d)"

definition stripped_texts :: "elem list \<Rightarrow> string list result" where
  "stripped_texts es = rmap (\<lambda>e. strip_text (etext e)) es"

definition domain_step :: "elem \<Rightarrow> domain_tables \<Rightarrow> domain_tables result" where
  "domain_step domain t =
     (if has_elem domain ''master'' then Inr t
      else rbind (find_text domain ''name'') (\<lambda>d_name.
        rbind (stripped_texts (findall domain ''notify'')) (\<lambda>notifies.
        rbind (stripped_texts (findall domain ''AXFRallow'')) (\<lambda>AXFRs.
        Inr \<lparr>dt_names = dt_names t @ [d_name],
             dt_notifies = put_nonempty d_name notifies (dt_notifies t),
             dt_AXFR = put_nonempty d_name AXFRs (dt_AXFR t)\<rparr>))))"

text \<open>\<open>sorted(names)\<close>: comparing \<open>None\<close> with anything raises.\<close>

definition sorted_names :: "string option list \<Rightarrow> string option list result" where
  "sorted_names xs =
     (if None \<in> set xs \<and> 2 \<le> length xs then Inl TypeError
      else if None \<in> set xs then Inr xs
      else Inr (map Some (sort (map the xs))))"

definition ldap_root_of :: "string \<Rightarrow> string" where
  "ldap_root_of dn = py_join '','' (map (\<lambda>dc. ''dc='' @ dc) (py_split CHR ''.'' dn))"

definition base_params :: "elem \<Rightarrow> baseparams result" where
  "base_params xdata =
    rbind (find_text xdata ''system_name'') (\<lambda>sn.
    rbind (find_text xdata ''long_name'') (\<lambda>ln.
    rbind (find_text xdata ''location'') (\<lambda>lo.
    rbind (find_text xdata ''state'') (\<lambda>st.
    rbind (find_text xdata ''country'') (\<lambda>co.
    rbind (find_text xdata ''country_code'') (\<lambda>cc.
    rbind (need AttributeError (find_elem xdata ''domain'')) (\<lambda>dom.
    rbind (find_text dom ''name'') (\<lambda>dn0.
    rbind (need AttributeError dn0) (\<lambda>dn1.
    rbind (rfold domain_step (findall xdata ''domain'')
             \<lparr>dt_names = [], dt_notifies = [], dt_AXFR = []\<rparr>) (\<lambda>tabs.
    rbind (sorted_names (dt_names tabs)) (\<lambda>names.
    let dn = py_lower dn1 in
    Inr \<lparr>system_name = sn, system_name_local = text_or xdata ''system_name_local'' sn,
         long_name = ln, long_name_local = text_or xdata ''long_name_local'' ln,
         dept_name = text_or xdata ''dept_name'' None,
         dept_name_local = text_or xdata ''dept_name_local'' (text_or xdata ''dept_name'' None),
         location = lo, location_local = text_or xdata ''location_local'' lo,
         state_name = st, state_local = text_or xdata ''state_local'' st,
         country = co, country_local = text_or xdata ''country_local'' co,
         country_code = cc,
         language = text_or xdata ''language'' (Some ''ru_RU''),
         timezone = text_or xdata ''timezone'' (Some ''Europe/Moscow''),
         domain_name = dn,
         domain_names = names,
         domain_notifies = dt_notifies tabs,
         domain_AXFR = dt_AXFR tabs,
         realm_name = py_upper dn,
         ldap_root = ldap_root_of dn,
         install_zabbix = has_elem xdata ''install_zabbix'',
         upstream_proxy = text_or xdata ''upstream_proxy'' None,
         admins = map etext (findall xdata ''admin'')\<rparr>)))))))))))"

section \<open>Facts\<close>

text \<open>The domains this installation is master of, as a list: what the loop collects.\<close>

definition own_domains :: "elem \<Rightarrow> elem list" where
  "own_domains xdata = filter (\<lambda>d. \<not> has_elem d ''master'') (findall xdata ''domain'')"

definition domain_text :: "elem \<Rightarrow> string option" where
  "domain_text d = Option.bind (find_elem d ''name'') etext"

lemma domain_step_names:
  assumes "domain_step d t = Inr t'"
  shows "dt_names t' = dt_names t @ (if has_elem d ''master'' then [] else [domain_text d])"
  using assms by (auto simp: domain_step_def result_simps domain_text_def split: if_splits)

lemma domain_loop_names:
  "rfold domain_step ds t = Inr t' \<Longrightarrow>
     dt_names t' = dt_names t @ map domain_text (filter (\<lambda>d. \<not> has_elem d ''master'') ds)"
  by (induction ds arbitrary: t) (auto simp: result_simps dest!: domain_step_names)

lemma sorted_names_mset: "sorted_names xs = Inr ys \<Longrightarrow> mset ys = mset xs"
proof -
  have "map Some (map the xs) = xs" if "None \<notin> set xs"
    using that by (induction xs) auto
  then have "image_mset Some (mset (map the xs)) = mset xs" if "None \<notin> set xs"
    using that by (metis mset_map)
  then show "sorted_names xs = Inr ys \<Longrightarrow> mset ys = mset xs"
    by (auto simp: sorted_names_def split: if_splits)
qed

lemma sorted_names_sorted:
  "sorted_names xs = Inr ys \<Longrightarrow> None \<notin> set xs \<Longrightarrow> sorted (map the ys) \<and> None \<notin> set ys"
  by (auto simp: sorted_names_def comp_def split: if_splits)

lemma sorted_names_Some: "sorted_names (map Some xs) = Inr (map Some (sort xs))"
proof -
  have "map the (map Some xs) = xs" by (induction xs) auto
  then show ?thesis by (auto simp: sorted_names_def)
qed

lemma base_params_names:
  "base_params xdata = Inr p \<Longrightarrow> sorted_names (map domain_text (own_domains xdata)) = Inr (domain_names p)"
  by (auto simp: base_params_def result_simps Let_def own_domains_def dest!: domain_loop_names)

text \<open>The domain list is sorted and holds every domain the site is master of, once per entry.\<close>

lemma domain_names_sorted:
  assumes "base_params xdata = Inr p"
  shows "mset (domain_names p) = mset (map domain_text (own_domains xdata))
    \<and> (None \<notin> set (domain_names p) \<longrightarrow> sorted (map the (domain_names p)))"
proof -
  note n = base_params_names [OF assms]
  have m: "mset (domain_names p) = mset (map domain_text (own_domains xdata))"
    by (rule sorted_names_mset [OF n])
  moreover have "set (domain_names p) = set (map domain_text (own_domains xdata))"
    using m by (rule mset_eq_setD)
  ultimately show ?thesis using sorted_names_sorted [OF n] by auto
qed

lemma py_split_parts_free: "x \<in> set (py_split c s) \<Longrightarrow> c' \<notin> set s \<Longrightarrow> c' \<notin> set x"
proof (induction s arbitrary: x)
  case Nil
  then show ?case by simp
next
  case (Cons y s)
  then show ?case by (cases "py_split c s") (auto split: if_splits)
qed

lemma ldap_root_of_parts:
  "CHR '','' \<notin> set dn \<Longrightarrow> py_split CHR '','' (ldap_root_of dn) = map (\<lambda>dc. ''dc='' @ dc) (py_split CHR ''.'' dn)"
  unfolding ldap_root_of_def
  by (rule py_split_join) (auto dest: py_split_parts_free)

lemma sample_base_params:
  "\<exists>p. base_params sample_umbrella = Inr p \<and>
     domain_names p = [Some ''Example.org'', Some ''another.org''] \<and>
     domain_name p = ''example.org'' \<and> ldap_root p = ''dc=example,dc=org''"
proof -
  have "map_sum id (\<lambda>p. (domain_names p, domain_name p, ldap_root p)) (base_params sample_umbrella) =
    Inr ([Some ''Example.org'', Some ''another.org''], ''example.org'', ''dc=example,dc=org'')"
    by code_simp
  then show ?thesis by (cases "base_params sample_umbrella") auto
qed

lemma domain_names_sorted_applied:
  "\<exists>p. base_params sample_umbrella = Inr p \<and>
     mset (domain_names p) = mset (map domain_text (own_domains sample_umbrella)) \<and>
     sorted (map the (domain_names p))"
proof -
  obtain p where p: "base_params sample_umbrella = Inr p"
    "domain_names p = [Some ''Example.org'', Some ''another.org'']"
    using sample_base_params by blast
  with domain_names_sorted [OF p(1)] show ?thesis by auto
qed

text \<open>
  C32: the LDAP root is the domain name with its labels as \<open>dc=\<close> components: reading the
  components back gives the domain name.
\<close>

theorem ldap_root_roundtrip:
  assumes "base_params xdata = Inr p" and "CHR '','' \<notin> set (domain_name p)"
  shows "py_join ''.'' (map (drop 3) (py_split CHR '','' (ldap_root p))) = domain_name p"
proof -
  have "ldap_root p = ldap_root_of (domain_name p)"
    using assms(1) by (auto simp: base_params_def result_simps Let_def)
  then show ?thesis
    using assms(2) by (simp add: ldap_root_of_parts comp_def py_join_split)
qed

theorem ldap_root_roundtrip_witness:
  "\<exists>p. base_params sample_umbrella = Inr p \<and>
     py_join ''.'' (map (drop 3) (py_split CHR '','' (ldap_root p))) = ''example.org''"
proof -
  obtain p where p: "base_params sample_umbrella = Inr p" "domain_name p = ''example.org''"
    using sample_base_params by blast
  with ldap_root_roundtrip [OF p(1)] show ?thesis by auto
qed

end
