(* ===== verification/FuncHosts.thy ===== *)
theory FuncHosts
  imports XmlTree Samples
begin

text \<open>
  \<open>Python/10_funchosts.py\<close>: which server has which function, and the servers that follow
  from it (mail, LDAP, NTP, Jabber). A function is the text of an element, so \<open>None\<close> for an
  empty one; it is only a dictionary key. A server name is concatenated, which raises on
  \<open>None\<close>.
\<close>

section \<open>Model\<close>

record host_tables =
  funchosts :: "(string option, string) dict"
  funchostsshort :: "(string option, string) dict"
  hostfuncs :: "(string, string option) dict"

definition server_step :: "string \<Rightarrow> elem \<Rightarrow> host_tables \<Rightarrow> host_tables result" where
  "server_step domain_name server t =
    rbind (find_text server ''name'') (\<lambda>name.
    rbind (need TypeError name) (\<lambda>srvnameshort.
    let srvname = srvnameshort @ ''.'' @ domain_name in
    rbind (find_text server ''function'') (\<lambda>srvfunc.
    Inr \<lparr>funchosts = dput srvfunc srvname (funchosts t),
         funchostsshort = dput srvfunc srvnameshort (funchostsshort t),
         hostfuncs = dput srvname srvfunc (hostfuncs t)\<rparr>)))"

definition host_tables_of :: "string \<Rightarrow> elem \<Rightarrow> host_tables result" where
  "host_tables_of domain_name xdata =
     rfold (server_step domain_name) (findall xdata ''server'')
       \<lparr>funchosts = [], funchostsshort = [], hostfuncs = []\<rparr>"

definition funchostdesc :: "(string, string) dict" where
  "funchostdesc =
    [(''router'', ''The main router.''),
     (''config'', ''Configuration server.''),
     (''proxy'', ''Proxy server.''),
     (''mail'', ''Mail server.''),
     (''monitor'', ''Monitoring server.''),
     (''nfs'', ''NFS server.''),
     (''ltsp'', ''Terminal server.''),
     (''vmhost'', ''VM host.''),
     (''archive'', ''Archive server.''),
     (''backdoor'', ''Backdoor server.''),
     (''DMZsmtp'', ''DNS and SMTP server in DMZ.''),
     (''DMZwww'', ''Web server.''),
     (''DMZwww-test'', ''TEST Web server.''),
     (''DMZxmpp'', ''Jabber server in DMZ.''),
     (''DMZpbx'', ''PBX (telephony) server in DMZ.''),
     (''DMZvpn'', ''VPN server in DMZ.''),
     (''DMZlib'', ''Library (Invenio) server in DMZ.''),
     (''DMZvidconf'', ''Video-conference server in DMZ.'')]"

record func_hosts =
  tables :: host_tables
  smtp_outbound_relay :: "string option"
  smtp_server :: "string option"
  imap_server :: "string option"
  ldap_URIs :: "string list"
  NTP_server_on_vmhost :: bool
  NTP_server :: string
  XMPP_server :: string

definition func_hosts :: "string \<Rightarrow> elem \<Rightarrow> func_hosts result" where
  "func_hosts domain_name xdata =
    rbind (host_tables_of domain_name xdata) (\<lambda>t.
    let fh = funchosts t in
    rbind (find_text xdata ''SMTP_outbound_relay'') (\<lambda>relay.
    let smtp = (if din (Some ''mail'') fh then dget fh (Some ''mail'') else relay) in
    rbind (dict_item fh (Some ''config'')) (\<lambda>config.
    let on_vmhost = (din (Some ''vmhost'') fh \<and> has_elem xdata ''NTP_server_on_vmhost'') in
    rbind (if on_vmhost then dict_item fh (Some ''vmhost'') else Inr config) (\<lambda>ntp.
    rbind (if din (Some ''DMZxmpp'') fh then dict_item fh (Some ''DMZxmpp'')
           else dict_item fh (Some ''proxy'')) (\<lambda>xmpp.
    Inr \<lparr>tables = t, smtp_outbound_relay = relay, smtp_server = smtp, imap_server = smtp,
         ldap_URIs = [''ldaps://'' @ config] @
           (case dget fh (Some ''proxy'') of None \<Rightarrow> [] | Some p \<Rightarrow> [''ldaps://'' @ p]),
         NTP_server_on_vmhost = on_vmhost, NTP_server = ntp, XMPP_server = xmpp\<rparr>)))))"

section \<open>Facts\<close>

text \<open>One server entry: its function and its short name.\<close>

definition server_entry :: "elem \<Rightarrow> (string option \<times> string) result" where
  "server_entry server =
    rbind (find_text server ''name'') (\<lambda>name.
    rbind (need TypeError name) (\<lambda>short.
    rbind (find_text server ''function'') (\<lambda>func. Inr (func, short))))"

lemma server_step_entry:
  "server_step dn s t = rbind (server_entry s) (\<lambda>(func, short).
     Inr \<lparr>funchosts = dput func (short @ ''.'' @ dn) (funchosts t),
          funchostsshort = dput func short (funchostsshort t),
          hostfuncs = dput (short @ ''.'' @ dn) func (hostfuncs t)\<rparr>)"
  by (simp add: server_step_def server_entry_def rbind_assoc Let_def)

lemma server_loop_entries:
  "rfold (server_step dn) ss t = rbind (rmap server_entry ss) (\<lambda>ents.
     Inr \<lparr>funchosts = fold (\<lambda>(k, v). dput k v) (map (\<lambda>(f, n). (f, n @ ''.'' @ dn)) ents) (funchosts t),
          funchostsshort = fold (\<lambda>(k, v). dput k v) ents (funchostsshort t),
          hostfuncs = fold (\<lambda>(k, v). dput k v) (map (\<lambda>(f, n). (n @ ''.'' @ dn, f)) ents) (hostfuncs t)\<rparr>)"
proof (induction ss arbitrary: t)
  case Nil
  then show ?case by simp
next
  case (Cons s ss)
  have "rfold (server_step dn) (s # ss) t = rbind (server_entry s) (\<lambda>(func, short).
     rfold (server_step dn) ss
       \<lparr>funchosts = dput func (short @ ''.'' @ dn) (funchosts t),
        funchostsshort = dput func short (funchostsshort t),
        hostfuncs = dput (short @ ''.'' @ dn) func (hostfuncs t)\<rparr>)"
    by (cases "server_entry s") (auto simp: server_step_entry [of dn s t])
  then show ?case
    by (cases "server_entry s"; cases "rmap server_entry ss") (auto simp: Cons.IH)
qed

lemma host_tables_entries:
  "host_tables_of dn xdata = rbind (rmap server_entry (findall xdata ''server'')) (\<lambda>ents.
     Inr \<lparr>funchosts = dict_of (map (\<lambda>(f, n). (f, n @ ''.'' @ dn)) ents),
          funchostsshort = dict_of ents,
          hostfuncs = dict_of (map (\<lambda>(f, n). (n @ ''.'' @ dn, f)) ents)\<rparr>)"
  by (simp add: host_tables_of_def server_loop_entries dict_of_def)

lemma host_tables_dicts:
  assumes "host_tables_of dn xdata = Inr t"
  obtains ents where "rmap server_entry (findall xdata ''server'') = Inr ents"
    and "funchosts t = dict_of (map (\<lambda>(f, n). (f, n @ ''.'' @ dn)) ents)"
    and "funchostsshort t = dict_of ents"
    and "hostfuncs t = dict_of (map (\<lambda>(f, n). (n @ ''.'' @ dn, f)) ents)"
  using assms by (auto simp: host_tables_entries result_simps)

lemma server_entry_name:
  "server_entry s = Inr (f, n) \<Longrightarrow> find_text s ''name'' = Inr (Some n)"
  by (auto simp: server_entry_def result_simps)

lemma server_entries_names:
  "rmap server_entry ss = Inr ents \<Longrightarrow>
     map (\<lambda>s. find_text s ''name'') ss = map (\<lambda>(f, n). Inr (Some n)) ents"
  by (induction ss arbitrary: ents) (auto simp: result_simps server_entry_name)

text \<open>
  C25: with distinct server names the two directions of the host tables agree: the host that
  serves a function is registered with that very function.
\<close>

theorem hostfuncs_inverse:
  assumes tabs: "host_tables_of dn xdata = Inr t"
    and names: "distinct (map (\<lambda>s. find_text s ''name'') (findall xdata ''server''))"
    and f: "dget (funchosts t) f = Some h"
  shows "dget (hostfuncs t) h = Some f \<and> (\<exists>n. dget (funchostsshort t) f = Some n \<and> h = n @ ''.'' @ dn)"
proof -
  obtain ents where e: "rmap server_entry (findall xdata ''server'') = Inr ents"
    "funchosts t = dict_of (map (\<lambda>(f, n). (f, n @ ''.'' @ dn)) ents)"
    "funchostsshort t = dict_of ents"
    "hostfuncs t = dict_of (map (\<lambda>(f, n). (n @ ''.'' @ dn, f)) ents)"
    using tabs by (rule host_tables_dicts)
  have get_funchosts: "dget (funchosts t) f = map_option (\<lambda>n. n @ ''.'' @ dn) (dget (funchostsshort t) f)"
    by (simp add: e(2,3) dget_dict_of rev_map map_of_map flip: map_prod_simp)
  with f obtain n where n: "dget (funchostsshort t) f = Some n" "h = n @ ''.'' @ dn"
    by auto
  then have in_ents: "(f, n) \<in> set ents"
    by (auto simp: e(3) dget_dict_of dest: map_of_SomeD)
  have "distinct (map (\<lambda>(f, n). Inr (Some n) :: string option result) ents)"
    using names by (simp only: server_entries_names [OF e(1)])
  then have "distinct (map (\<lambda>n. Inr (Some n) :: string option result) (map snd ents))"
    by (simp add: comp_def case_prod_beta')
  then have "distinct (map snd ents)" by (simp only: distinct_map)
  then have "distinct (map (\<lambda>n. n @ ''.'' @ dn) (map snd ents))"
    by (simp add: distinct_map inj_on_def del: map_map)
  then have "distinct (map fst (map (\<lambda>(f, n). (n @ ''.'' @ dn, f)) ents))"
    by (simp add: comp_def case_prod_beta')
  then have "dget (hostfuncs t) h = Some f"
    unfolding e(4) dict_of_def
    by (rule pyd.get_fold_put_distinct) (use in_ents n(2) in force)
  with n show ?thesis by blast
qed

theorem hostfuncs_inverse_witness:
  "\<exists>t. host_tables_of ''example.org'' sample_umbrella = Inr t \<and>
     dget (hostfuncs t) ''conf.example.org'' = Some (Some ''config'')"
proof -
  obtain t where t: "host_tables_of ''example.org'' sample_umbrella = Inr t"
    and f: "dget (funchosts t) (Some ''config'') = Some ''conf.example.org''"
    by (simp add: host_tables_of_def server_step_def sample_umbrella_def sample_server_def
        node_def leaf_def findall_def find_text_def find_elem_def Let_def)
  have "distinct (map (\<lambda>s. find_text s ''name'') (findall sample_umbrella ''server''))"
    by (simp add: sample_umbrella_def sample_server_def
        node_def leaf_def findall_def find_text_def find_elem_def)
  from hostfuncs_inverse [OF t this f] t show ?thesis by blast
qed

text \<open>
  C35: once the server entries are well formed and the relay is configured, the script fails
  exactly when there is no configuration server, or neither a Jabber server nor a proxy.
\<close>

theorem func_hosts_fails_iff:
  assumes "host_tables_of dn xdata = Inr t" and "has_elem xdata ''SMTP_outbound_relay''"
  shows "func_hosts dn xdata = Inl e \<longleftrightarrow> e = KeyError \<and>
     (\<not> din (Some ''config'') (funchosts t) \<or>
      \<not> din (Some ''DMZxmpp'') (funchosts t) \<and> \<not> din (Some ''proxy'') (funchosts t))"
proof -
  obtain r where r: "find_text xdata ''SMTP_outbound_relay'' = Inr r"
    using assms(2) by auto
  show ?thesis
    unfolding func_hosts_def din_iff
    by (cases "dget (funchosts t) (Some ''config'')"; cases "dget (funchosts t) (Some ''proxy'')";
        cases "dget (funchosts t) (Some ''DMZxmpp'')"; cases "dget (funchosts t) (Some ''vmhost'')";
        cases "find_elem xdata ''NTP_server_on_vmhost''") (auto simp: assms(1) r Let_def)
qed

theorem func_hosts_fails_iff_witness:
  "func_hosts ''example.org'' (node ''Properties''
     [leaf ''SMTP_outbound_relay'' ''relay'', sample_server ''gw'' ''router'' ''10.1.0.1'' ''m1'']) = Inl KeyError"
proof -
  let ?x = "node ''Properties'' [leaf ''SMTP_outbound_relay'' ''relay'',
    sample_server ''gw'' ''router'' ''10.1.0.1'' ''m1'']"
  let ?t = "\<lparr>funchosts = [(Some ''router'', ''gw.example.org'')], funchostsshort = [(Some ''router'', ''gw'')],
    hostfuncs = [(''gw.example.org'', Some ''router'')]\<rparr>"
  have "host_tables_of ''example.org'' ?x = Inr ?t"
    by (simp add: host_tables_of_def server_step_def xml_eval Let_def)
  moreover have "has_elem ?x ''SMTP_outbound_relay''" by (simp add: xml_eval)
  ultimately show ?thesis using func_hosts_fails_iff [of "''example.org''" ?x ?t KeyError] by simp
qed

end
