(* ===== verification/PassFiles.thy ===== *)
theory PassFiles
  imports FileStore
begin

text \<open>
  \<open>Python/12_passfiles.py\<close>: passwords kept in files and renewed when the file is older than a
  number of days. The state is the file system; the clock and the random choices are
  arguments: \<open>choice i s\<close> is what the \<open>i\<close>-th call of \<open>random.choice(s)\<close> returns.
\<close>

section \<open>Model\<close>

definition password_alphabet :: string where
  "password_alphabet = ''ABCDEFGHIJKLMNOPQRSTUVWXYZ'' @ ''0123456789''"

definition file_fresh :: "filesystem \<Rightarrow> string \<Rightarrow> int \<Rightarrow> rat \<Rightarrow> bool result" where
  "file_fresh fs fname lifetime_days now =
     (if \<not> isfile fs fname then Inr False
      else if lifetime_days < 0 then Inr True
      else rbind (getmtime fs fname) (\<lambda>m. Inr (now - m < of_int (lifetime_days * 24 * 60 * 60))))"

definition random_password :: "(nat \<Rightarrow> string \<Rightarrow> char) \<Rightarrow> nat \<Rightarrow> string" where
  "random_password choice len = map (\<lambda>i. choice i password_alphabet) [0..<len]"

definition read_password ::
  "rat \<Rightarrow> (nat \<Rightarrow> string \<Rightarrow> char) \<Rightarrow> string \<Rightarrow> int \<Rightarrow> nat \<Rightarrow> filesystem \<Rightarrow> (string \<times> filesystem) result" where
  "read_password now choice fname lifetime_days password_length fs =
    rbind (file_fresh fs fname lifetime_days now) (\<lambda>fresh.
    rbind (if fresh then rbind (read_file fs fname) (\<lambda>c. Inr (readline c)) else Inr []) (\<lambda>password.
    if password = []
    then let password = random_password choice password_length in
         rbind (write_file now fname password fs) (\<lambda>fs'. Inr (password, fs'))
    else Inr (password, fs)))"

section \<open>Facts\<close>

lemma file_fresh_Inr: "\<exists>b. file_fresh fs f n now = Inr b"
  by (auto simp: file_fresh_def isfile_def getmtime_def)

lemma file_fresh_Some:
  "files fs f = Some (c, m) \<Longrightarrow>
     file_fresh fs f n now = Inr (n < 0 \<or> now - m < of_int (n * 24 * 60 * 60))"
  by (simp add: file_fresh_def isfile_def getmtime_def)

lemma file_fresh_True:
  "file_fresh fs f n now = Inr True \<Longrightarrow> \<exists>c m. files fs f = Some (c, m)"
  by (auto simp: file_fresh_def isfile_def split: if_splits)

lemma alphabet_no_newline: "CHR 0x0A \<notin> set password_alphabet"
  by (simp add: password_alphabet_def)

lemma random_password_chars:
  "(\<And>i s. s \<noteq> [] \<Longrightarrow> choice i s \<in> set s) \<Longrightarrow> set (random_password choice n) \<subseteq> set password_alphabet"
proof -
  assume "\<And>i s. s \<noteq> [] \<Longrightarrow> choice i s \<in> set s"
  moreover have "password_alphabet \<noteq> []" by (simp add: password_alphabet_def)
  ultimately have "choice i password_alphabet \<in> set password_alphabet" for i by blast
  then show ?thesis by (auto simp: random_password_def)
qed

lemma length_random_password [simp]: "length (random_password choice n) = n"
  by (simp add: random_password_def)

text \<open>The two ways of a call: the stored password is used, or a new one is made and stored.\<close>

lemma read_password_cases:
  assumes "read_password now choice f n len fs = Inr (p, fs')"
  obtains (stored) c where "file_fresh fs f n now = Inr True" "read_file fs f = Inr c"
      "p = readline c" "p \<noteq> []" "fs' = fs"
    | (new) "p = random_password choice len" "write_file now f p fs = Inr fs'"
      "\<forall>c. file_fresh fs f n now = Inr True \<longrightarrow> read_file fs f = Inr c \<longrightarrow> readline c = []"
  using assms
  by (auto simp: read_password_def result_simps Let_def split: if_splits)

text \<open>
  C24: within its lifetime a password does not change: whatever the first call did, a later call
  that finds the file fresh returns the same password and leaves the files alone.
\<close>

theorem read_password_stable:
  assumes choice: "\<And>i s. s \<noteq> [] \<Longrightarrow> choice i s \<in> set s"
    and len: "0 < len"
    and first: "read_password now choice f n len fs = Inr (p, fs')"
    and readable: "readable fs f"
    and fresh: "file_fresh fs' f n now' = Inr True"
  shows "read_password now' choice' f n len' fs' = Inr (p, fs')"
  using first
proof (cases rule: read_password_cases)
  case (stored c)
  then show ?thesis using fresh by (simp add: read_password_def)
next
  case new
  have "read_file fs' f = Inr p" using fsys.rd_wr [OF new(2) readable] .
  moreover have "set p \<subseteq> set password_alphabet"
    unfolding new(1) by (rule random_password_chars) (rule choice)
  then have "CHR 0x0A \<notin> set p" using alphabet_no_newline by auto
  moreover have "p \<noteq> []" using len new(1) length_random_password [of choice len] by force
  ultimately show ?thesis using fresh by (simp add: read_password_def readline_no_newline)
qed

definition sample_fs :: filesystem where
  "sample_fs = \<lparr>files = Map.empty(''old'' \<mapsto> (''SECRET'', 0)), readable = (\<lambda>_. True),
     writable = (\<lambda>_. True), owned = (\<lambda>_. True)\<rparr>"

theorem read_password_stable_witness:
  "\<exists>p fs'. read_password 200000 (\<lambda>_. hd) ''old'' 2 3 sample_fs = Inr (p, fs') \<and>
     p = ''AAA'' \<and> read_password 372799 (\<lambda>_. last) ''old'' 2 9 fs' = Inr (p, fs')"
proof -
  let ?fs' = "sample_fs\<lparr>files := (files sample_fs)(''old'' \<mapsto> (''AAA'', 200000))\<rparr>"
  have first: "read_password 200000 (\<lambda>_. hd) ''old'' 2 3 sample_fs = Inr (''AAA'', ?fs')"
    by (simp add: read_password_def file_fresh_def isfile_def getmtime_def sample_fs_def
        write_file_def random_password_def password_alphabet_def upt_rec Let_def)
  have "read_password 372799 (\<lambda>_. last) ''old'' 2 9 ?fs' = Inr (''AAA'', ?fs')"
    by (rule read_password_stable [OF _ _ first])
      (auto simp: file_fresh_def isfile_def getmtime_def sample_fs_def)
  with first show ?thesis by blast
qed

text \<open>
  C29: a password whose file is missing or too old is replaced: the new one has the requested
  length, consists of capital letters and digits, and is stored with the present time.
\<close>

theorem read_password_renews:
  assumes choice: "\<And>i s. s \<noteq> [] \<Longrightarrow> choice i s \<in> set s"
    and stale: "file_fresh fs f n now = Inr False"
    and writable: "writable fs f"
  shows "\<exists>p fs'. read_password now choice f n len fs = Inr (p, fs')
    \<and> length p = len \<and> set p \<subseteq> set password_alphabet \<and> files fs' f = Some (p, now)"
  using random_password_chars [of choice len] choice stale writable
  by (simp add: read_password_def write_file_def Let_def)

theorem read_password_renews_witness:
  "\<exists>p fs'. read_password 172800 (\<lambda>_. last) ''old'' 2 48 sample_fs = Inr (p, fs')
    \<and> length p = 48 \<and> set p \<subseteq> set password_alphabet \<and> files fs' ''old'' = Some (p, 172800)"
  by (rule read_password_renews)
    (auto simp: file_fresh_def isfile_def getmtime_def sample_fs_def)

text \<open>
  A negative lifetime never expires: a stored password is used however old its file is.
\<close>

lemma read_password_forever:
  assumes "files fs f = Some (c, m)" and "readline c \<noteq> []" and "readable fs f" and "n < 0"
  shows "read_password now choice f n len fs = Inr (readline c, fs)"
  using assms by (simp add: read_password_def file_fresh_Some read_file_def)

lemma read_password_forever_applied:
  "read_password 1000000000 (\<lambda>_. hd) ''old'' (-1) 12 sample_fs = Inr (''SECRET'', sample_fs)"
  using read_password_forever [of sample_fs "''old''" "''SECRET''" 0 "-1"]
  by (simp add: sample_fs_def)

end
