(* ===== verification/Networks.thy ===== *)
theory Networks
  imports XmlTree IPAddress Samples
begin

text \<open>
  \<open>Python/20_networks.py\<close>: the networks of the installation by the type of the router's
  interface, the address of the host being configured, the check that internal networks do
  not intersect, the DHCP range, and the function that removes networks contained in others.
  What the configuration server knows of the client (\<open>metadata\<close>) is a record; the resolver
  is an argument, \<open>None\<close> when the name cannot be resolved.
\<close>

section \<open>Model\<close>

record client_metadata =
  hostname :: string
  groups :: "string list"
  addresses :: "string list option"

definition is_subnet_of :: "ipnet \<Rightarrow> ipnet \<Rightarrow> bool" where
  "is_subnet_of a b \<longleftrightarrow>
     network_address b \<le> network_address a \<and> broadcast_address a \<le> broadcast_address b"

text \<open>The mandatory networks, then the optional ones in the order of the script.\<close>

definition required_network :: "elem \<Rightarrow> string \<Rightarrow> ipnet result" where
  "required_network xdata t = rbind (find_text xdata t) ip_network_opt"

definition add_network ::
  "elem \<Rightarrow> string \<Rightarrow> string \<Rightarrow> (string, ipnet) dict \<Rightarrow> (string, ipnet) dict result" where
  "add_network xdata t ifname nets = (case find_elem xdata t of None \<Rightarrow> Inr nets
     | Some tnet \<Rightarrow> rbind (ip_network_opt (etext tnet)) (\<lambda>n. Inr (dput ifname n nets)))"

definition load_networks :: "elem \<Rightarrow> (string, ipnet) dict result" where
  "load_networks xdata =
    rbind (required_network xdata ''pubnet'') (\<lambda>pub.
    rbind (required_network xdata ''secnet'') (\<lambda>sec.
    rbind (required_network xdata ''DMZnet'') (\<lambda>dmz.
    rbind (add_network xdata ''extnet'' ''extif''
             [(''pubif'', pub), (''secif'', sec), (''DMZif'', dmz)]) (\<lambda>nets.
    rbind (add_network xdata ''intnet'' ''intif'' nets) (\<lambda>nets.
    rbind (add_network xdata ''winnet'' ''winif'' nets) (\<lambda>nets.
    add_network xdata ''vpnet'' ''vpnif'' nets))))))"

text \<open>The address of the client: \<open>addresses\<close> in the order in which the set is iterated.\<close>

definition public_address_step ::
  "string \<Rightarrow> ipnet \<Rightarrow> string \<Rightarrow> ipv4 option \<Rightarrow> ipv4 option result" where
  "public_address_step host pub a ip_addr =
    rbind (ip_address a) (\<lambda>addr.
      if in_net addr pub
      then (case ip_addr of None \<Rightarrow> Inr (Some addr)
            | Some _ \<Rightarrow> Inl (TemplateError (''Multiple addresses in public network for '' @ host @ ''.'')))
      else Inr ip_addr)"

definition current_ip ::
  "(string \<Rightarrow> string option) \<Rightarrow> client_metadata \<Rightarrow> (string, ipnet) dict \<Rightarrow> ipv4 option result" where
  "current_ip resolve metadata nets = (case addresses metadata of
      None \<Rightarrow> Inr None
    | Some as \<Rightarrow>
       (if length as = 0
        then (case resolve (hostname metadata) of None \<Rightarrow> Inr None
              | Some s \<Rightarrow> rbind (ip_address s) (\<lambda>a. Inr (Some a)))
        else if length as = 1 then rbind (ip_address (hd as)) (\<lambda>a. Inr (Some a))
        else rbind (dict_item nets ''pubif'') (\<lambda>pub.
               rfold (public_address_step (hostname metadata) pub) as None)))"

definition internal_networks :: "(string, ipnet) dict \<Rightarrow> (string, ipnet) dict" where
  "internal_networks nets = ddel ''intif'' (ddel ''extif'' nets)"

text \<open>\<open>T[:-2]\<close>: the interface type without its \<open>if\<close>.\<close>

definition net_type :: "string \<Rightarrow> string" where
  "net_type t = take (length t - 2) t"

text \<open>Two entries of the dictionary are the same object when they are the same entry.\<close>

definition check_pair :: "string \<times> ipnet \<Rightarrow> string \<times> ipnet \<Rightarrow> unit result" where
  "check_pair x y = (case (x, y) of ((T1, N1), (T2, N2)) \<Rightarrow>
     if T2 \<noteq> T1 \<and> net_in_net N2 N1
     then Inl (TemplateError (''The \"'' @ net_type T1 @ ''\" network '' @ str_net N1 @ '' intersects ''
       @ '' the \"'' @ net_type T2 @ ''\" network '' @ str_net N2 @ '', which is not allowed .''))
     else Inr ())"

definition check_intnets :: "(string, ipnet) dict \<Rightarrow> unit result" where
  "check_intnets nets = rfold (\<lambda>x _. rfold (\<lambda>y _. check_pair x y) nets ()) nets ()"

definition dhcp_range :: "elem \<Rightarrow> (ipv4 \<times> ipv4) option result" where
  "dhcp_range xdata = (case find_elem xdata ''pub_dhcp'' of None \<Rightarrow> Inr None
    | Some d \<Rightarrow>
      rbind (rbind (find_text d ''start'') ip_address_opt) (\<lambda>s.
      rbind (rbind (find_text d ''end'') ip_address_opt) (\<lambda>e.
      if uint e < uint s
      then Inl (TemplateError (''The start DHCP address must be smaller or equal to the end DHCP '' @
             ''address in <pub_dhcp> section of umbrella.xml.''))
      else Inr (Some (s, e)))))"

definition dns_cache :: "elem \<Rightarrow> string option list option" where
  "dns_cache xdata = (if has_elem xdata ''DNScache'' then Some (map etext (findall xdata ''DNScache'')) else None)"

record network_params =
  networks :: "(string, ipnet) dict"
  ip_addr :: "ipv4 option"
  intnets :: "(string, ipnet) dict"
  intnet_ifs :: "string list"
  pub_dhcp :: "(ipv4 \<times> ipv4) option"
  DNScache :: "string option list option"

definition network_script ::
  "(string \<Rightarrow> string option) \<Rightarrow> client_metadata \<Rightarrow> elem \<Rightarrow> network_params result" where
  "network_script resolve metadata xdata =
    rbind (load_networks xdata) (\<lambda>nets.
    rbind (current_ip resolve metadata nets) (\<lambda>ip.
    let internal = internal_networks nets in
    rbind (check_intnets internal) (\<lambda>_.
    rbind (dhcp_range xdata) (\<lambda>dhcp.
    Inr \<lparr>networks = nets, ip_addr = ip, intnets = internal, intnet_ifs = dkeys internal,
         pub_dhcp = dhcp, DNScache = dns_cache xdata\<rparr>))))"

text \<open>\<open>itertools.combinations(xs, 2)\<close>; the set is given in its iteration order.\<close>

fun combinations2 :: "'a list \<Rightarrow> ('a \<times> 'a) list" where
  "combinations2 [] = []"
| "combinations2 (x # xs) = map (\<lambda>y. (x, y)) xs @ combinations2 xs"

definition contained_step :: "ipnet \<times> ipnet \<Rightarrow> ipnet set \<Rightarrow> ipnet set" where
  "contained_step p s = (case p of (a, b) \<Rightarrow>
     let s = (if is_subnet_of a b then insert a s else s)
     in if is_subnet_of b a then insert b s else s)"

definition cleanup_fully_contained :: "ipnet list \<Rightarrow> ipnet list" where
  "cleanup_fully_contained nets =
    (let nets_contained = fold contained_step (combinations2 nets) {}
     in filter (\<lambda>n. n \<notin> nets_contained) nets)"

section \<open>Containment\<close>

text \<open>
  The contract of a containment test between values of which only some are valid: an order on
  the valid ones. Its client takes the maximal elements of a finite set.
\<close>

locale containment =
  fixes sub :: "'n \<Rightarrow> 'n \<Rightarrow> bool" and valid :: "'n \<Rightarrow> bool"
  assumes sub_refl: "sub a a"
    and sub_trans: "sub a b \<Longrightarrow> sub b c \<Longrightarrow> sub a c"
    and sub_antisym: "valid a \<Longrightarrow> valid b \<Longrightarrow> sub a b \<Longrightarrow> sub b a \<Longrightarrow> a = b"
begin

lemma below_maximal:
  assumes "finite S" and "\<forall>x \<in> S. valid x" and "x \<in> S"
  shows "\<exists>y \<in> S. sub x y \<and> (\<forall>z \<in> S. sub y z \<longrightarrow> z = y)"
  using assms
proof (induction "card {z \<in> S. sub x z}" arbitrary: x rule: less_induct)
  case less
  show ?case
  proof (cases "\<forall>z \<in> S. sub x z \<longrightarrow> z = x")
    case True
    then show ?thesis using less.prems sub_refl by blast
  next
    case False
    then obtain z where z: "z \<in> S" "sub x z" "z \<noteq> x" by blast
    have "\<not> sub z x" using sub_antisym z less.prems by blast
    then have "{w \<in> S. sub z w} \<subset> {w \<in> S. sub x w}"
      using z sub_trans sub_refl less.prems(3) by blast
    then have "card {w \<in> S. sub z w} < card {w \<in> S. sub x w}"
      using less.prems(1) by (intro psubset_card_mono) auto
    from less.hyps [OF this less.prems(1,2) z(1)] show ?thesis
      using sub_trans z(2) by blast
  qed
qed

end

lemma is_subnet_of_iff:
  "wf_net a \<Longrightarrow> wf_net b \<Longrightarrow> is_subnet_of a b \<longleftrightarrow> addrs a \<subseteq> addrs b"
  by (auto simp: is_subnet_of_def addrs_interval first_le_last)

interpretation net_order: containment is_subnet_of wf_net
proof unfold_locales
  fix a b
  assume "wf_net a" "wf_net b" "is_subnet_of a b" "is_subnet_of b a"
  then show "a = b" by (intro addrs_inject) (auto simp: is_subnet_of_iff)
qed (auto simp: is_subnet_of_def)

section \<open>Facts\<close>

lemma contained_fold:
  "fold contained_step ps s = s \<union> {a. \<exists>b. (a, b) \<in> set ps \<and> is_subnet_of a b}
     \<union> {b. \<exists>a. (a, b) \<in> set ps \<and> is_subnet_of b a}"
  by (induction ps arbitrary: s) (auto simp: contained_step_def Let_def split: prod.splits)

lemma combinations2_pairs:
  "distinct xs \<Longrightarrow> a \<noteq> b \<Longrightarrow> a \<in> set xs \<Longrightarrow> b \<in> set xs \<Longrightarrow>
     (a, b) \<in> set (combinations2 xs) \<or> (b, a) \<in> set (combinations2 xs)"
  by (induction xs) auto

lemma combinations2_distinct:
  "distinct xs \<Longrightarrow> (a, b) \<in> set (combinations2 xs) \<Longrightarrow> a \<noteq> b \<and> a \<in> set xs \<and> b \<in> set xs"
  by (induction xs) auto

lemma set_cleanup:
  assumes "distinct nets"
  shows "set (cleanup_fully_contained nets) =
    {n \<in> set nets. \<forall>m \<in> set nets. is_subnet_of n m \<longrightarrow> m = n}"
  using combinations2_pairs [OF assms] combinations2_distinct [OF assms]
  by (auto simp: cleanup_fully_contained_def contained_fold Let_def) blast+

text \<open>
  C3: removing contained networks loses no address and leaves networks that do not overlap:
  for well-formed networks the result is a subset with the same addresses whose members are
  pairwise disjoint.
\<close>

theorem cleanup_covers_disjoint:
  assumes "distinct nets" and wf: "\<forall>n \<in> set nets. wf_net n"
  shows "set (cleanup_fully_contained nets) \<subseteq> set nets
    \<and> \<Union> (addrs ` set (cleanup_fully_contained nets)) = \<Union> (addrs ` set nets)
    \<and> (\<forall>a \<in> set (cleanup_fully_contained nets). \<forall>b \<in> set (cleanup_fully_contained nets).
         a \<noteq> b \<longrightarrow> addrs a \<inter> addrs b = {})"
proof -
  note c = set_cleanup [OF assms(1)]
  have sub: "set (cleanup_fully_contained nets) \<subseteq> set nets" by (auto simp: c)
  have "addrs n \<subseteq> \<Union> (addrs ` set (cleanup_fully_contained nets))" if n: "n \<in> set nets" for n
  proof -
    obtain y where y: "y \<in> set nets" "is_subnet_of n y" "\<forall>z \<in> set nets. is_subnet_of y z \<longrightarrow> z = y"
      using net_order.below_maximal [OF _ wf n] by auto
    then have "y \<in> set (cleanup_fully_contained nets)" by (auto simp: c)
    moreover have "addrs n \<subseteq> addrs y" using y n wf by (simp add: is_subnet_of_iff)
    ultimately show ?thesis by blast
  qed
  then have cover: "\<Union> (addrs ` set (cleanup_fully_contained nets)) = \<Union> (addrs ` set nets)"
    using sub by blast
  have "addrs a \<inter> addrs b = {}" if ab: "a \<in> set (cleanup_fully_contained nets)"
    "b \<in> set (cleanup_fully_contained nets)" "a \<noteq> b" for a b
  proof -
    have "wf_net a" "wf_net b" using ab(1,2) sub wf by auto
    moreover have "\<not> is_subnet_of a b" "\<not> is_subnet_of b a" using ab by (auto simp: c)
    ultimately show ?thesis using nested_or_disjoint [of a b] by (simp add: is_subnet_of_iff)
  qed
  with sub cover show ?thesis by blast
qed

theorem cleanup_covers_disjoint_witness:
  "cleanup_fully_contained [IPNet 167837696 24, IPNet 167837696 16, IPNet 3232235520 24]
     = [IPNet 167837696 16, IPNet 3232235520 24]
   \<and> addrs (IPNet 167837696 24) \<subseteq> addrs (IPNet 167837696 16) \<union> addrs (IPNet 3232235520 24)"
proof -
  let ?nets = "[IPNet 167837696 24, IPNet 167837696 16, IPNet 3232235520 24]"
  have d: "distinct ?nets" by simp
  have wf: "\<forall>n \<in> set ?nets. wf_net n"
    by (simp add: wf_net_def netmask_def netmask_of_def mask_eq_exp_minus_1)
  have e: "cleanup_fully_contained ?nets = [IPNet 167837696 16, IPNet 3232235520 24]"
    by (simp add: cleanup_fully_contained_def contained_step_def is_subnet_of_def
        broadcast_address_def mask_eq_exp_minus_1)
  have "addrs (IPNet 167837696 24) \<subseteq> \<Union> (addrs ` set (cleanup_fully_contained ?nets))"
    using cleanup_covers_disjoint [OF d wf] by auto
  then show ?thesis using e by auto
qed

text \<open>The dictionary of networks: its keys are distinct and its networks well formed.\<close>

definition wf_networks :: "(string, ipnet) dict \<Rightarrow> bool" where
  "wf_networks nets \<longleftrightarrow> distinct (dkeys nets) \<and> (\<forall>n \<in> set (dvalues nets). wf_net n)"

lemma wf_networks_put:
  "wf_networks nets \<Longrightarrow> wf_net n \<Longrightarrow> wf_networks (dput k n nets)"
  using dvalues_dput [of k n nets] pyd.distinct_keys_put [of nets k n]
  by (auto simp: wf_networks_def simp del: set_map)

text \<open>Which element of \<open>umbrella.xml\<close> gives the network of which interface type.\<close>

definition network_elements :: "(string \<times> string) list" where
  "network_elements = [(''pubnet'', ''pubif''), (''secnet'', ''secif''), (''DMZnet'', ''DMZif''),
     (''extnet'', ''extif''), (''intnet'', ''intif''), (''winnet'', ''winif''), (''vpnet'', ''vpnif'')]"

definition network_entry :: "elem \<Rightarrow> string \<times> string \<Rightarrow> (string \<times> ipnet) result" where
  "network_entry xdata p = rbind (required_network xdata (fst p)) (\<lambda>n. Inr (snd p, n))"

lemma network_entry_Inr:
  "network_entry xdata (t, k) = Inr (k', n) \<longleftrightarrow>
     k' = k \<and> (\<exists>e. find_elem xdata t = Some e \<and> ip_network_opt (etext e) = Inr n)"
  by (auto simp: network_entry_def required_network_def result_simps)

lemma add_network_entry:
  "\<not> din k nets \<Longrightarrow> add_network xdata t k nets =
     rbind (rmap (network_entry xdata) (filter (\<lambda>p. has_elem xdata (fst p)) [(t, k)])) (\<lambda>new. Inr (nets @ new))"
  by (auto simp: add_network_def network_entry_def required_network_def rbind_assoc dput_new
      simp del: set_map split: option.splits)

lemma rbind_Inr_right: "rbind m Inr = m"
  by (cases m) simp_all

lemma rfold_eta: "rfold f [] = Inr" "rfold f (x # xs) = (\<lambda>s. rbind (f x s) (rfold f xs))"
  by (simp_all add: fun_eq_iff)

lemma rmap_append: "rmap f (xs @ ys) = rbind (rmap f xs) (\<lambda>us. rbind (rmap f ys) (\<lambda>vs. Inr (us @ vs)))"
  by (induction xs) (auto simp: rbind_assoc rbind_Inr_right intro!: rbind_cong)

lemma network_entry_key:
  "rmap (network_entry xdata) (filter P ps) = Inr new \<Longrightarrow> set (dkeys new) \<subseteq> snd ` set ps"
  unfolding rmap_Inr_list_all2 by (fastforce dest: list_all2_source simp: network_entry_def result_simps)

lemma add_networks_entries:
  assumes "distinct (dkeys nets @ map snd ps)"
  shows "rfold (\<lambda>(t, k). add_network xdata t k) ps nets =
     rbind (rmap (network_entry xdata) (filter (\<lambda>p. has_elem xdata (fst p)) ps)) (\<lambda>new. Inr (nets @ new))"
  using assms
proof (induction ps arbitrary: nets)
  case (Cons p ps)
  obtain t k where p: "p = (t, k)" by (cases p)
  have k: "\<not> din k nets" using Cons.prems by (auto simp: p)
  show ?case
  proof (cases "rmap (network_entry xdata) (filter (\<lambda>p. has_elem xdata (fst p)) [p])")
    case (Inr new)
    have "set (dkeys new) \<subseteq> {k}" using network_entry_key [OF Inr] by (simp add: p)
    moreover have "length new \<le> 1"
      using rmap_Inr_length [OF Inr] by (auto split: if_splits)
    ultimately have "distinct (dkeys (nets @ new) @ map snd ps)"
      using Cons.prems by (cases new) (auto simp: p)
    note IH = Cons.IH [OF this]
    have "rmap (network_entry xdata) (filter (\<lambda>p. has_elem xdata (fst p)) (p # ps))
        = rbind (rmap (network_entry xdata) (filter (\<lambda>p. has_elem xdata (fst p)) ps)) (\<lambda>vs. Inr (new @ vs))"
      using Inr rmap_append [of "network_entry xdata" "filter (\<lambda>p. has_elem xdata (fst p)) [p]"
          "filter (\<lambda>p. has_elem xdata (fst p)) ps"]
      by (auto split: if_splits)
    then show ?thesis
      using Inr by (simp add: p add_network_entry [OF k] IH rbind_assoc)
  next
    case (Inl e)
    then show ?thesis
      using rmap_append [of "network_entry xdata" "filter (\<lambda>p. has_elem xdata (fst p)) [p]"
          "filter (\<lambda>p. has_elem xdata (fst p)) ps"]
      by (auto simp: p add_network_entry [OF k] split: if_splits)
  qed
qed simp

lemma load_networks_entries:
  "load_networks xdata = rmap (network_entry xdata)
     (filter (\<lambda>(t, k). t \<in> {''pubnet'', ''secnet'', ''DMZnet''} \<or> has_elem xdata t) network_elements)"
proof -
  let ?opt = "[(''extnet'', ''extif''), (''intnet'', ''intif''), (''winnet'', ''winif''), (''vpnet'', ''vpnif'')]"
  let ?man = "[(''pubnet'', ''pubif''), (''secnet'', ''secif''), (''DMZnet'', ''DMZif'')]"
  have "load_networks xdata = rbind (rmap (network_entry xdata) ?man) (rfold (\<lambda>(t, k). add_network xdata t k) ?opt)"
    by (simp add: load_networks_def network_entry_def rbind_assoc rbind_Inr_right rfold_eta)
  also have "\<dots> = rbind (rmap (network_entry xdata) ?man) (\<lambda>nets.
      rbind (rmap (network_entry xdata) (filter (\<lambda>p. has_elem xdata (fst p)) ?opt)) (\<lambda>new. Inr (nets @ new)))"
  proof (rule rbind_cong [OF HOL.refl])
    fix nets assume "rmap (network_entry xdata) ?man = Inr nets"
    then have "dkeys nets = [''pubif'', ''secif'', ''DMZif'']"
      by (auto simp: result_simps network_entry_def)
    then have "distinct (dkeys nets @ map snd ?opt)" by simp
    from add_networks_entries [OF this]
    show "rfold (\<lambda>(t, k). add_network xdata t k) ?opt nets =
      rbind (rmap (network_entry xdata) (filter (\<lambda>p. has_elem xdata (fst p)) ?opt)) (\<lambda>new. Inr (nets @ new))" .
  qed
  also have "\<dots> = rmap (network_entry xdata) (?man @ filter (\<lambda>p. has_elem xdata (fst p)) ?opt)"
    by (simp only: rmap_append)
  also have "?man @ filter (\<lambda>p. has_elem xdata (fst p)) ?opt
      = filter (\<lambda>(t, k). t \<in> {''pubnet'', ''secnet'', ''DMZnet''} \<or> has_elem xdata t) network_elements"
    by (simp add: network_elements_def)
  finally show ?thesis .
qed

text \<open>
  C31: the script loads the networks exactly when the elements of the public, the secured and
  the DMZ network are there and these and the optional elements that are there have well-formed
  texts; then the dictionary has, in the order of the script, one entry for each of these
  elements: the interface type that belongs to the element with the network that its text
  denotes, which is well formed. All keys are distinct.
\<close>

theorem load_networks_wf:
  "(load_networks xdata = Inr nets \<longleftrightarrow>
     list_all2 (\<lambda>(t, k) (k', n). k' = k \<and> (\<exists>e. find_elem xdata t = Some e \<and> ip_network_opt (etext e) = Inr n))
       (filter (\<lambda>(t, k). t \<in> {''pubnet'', ''secnet'', ''DMZnet''} \<or> find_elem xdata t \<noteq> None)
         [(''pubnet'', ''pubif''), (''secnet'', ''secif''), (''DMZnet'', ''DMZif''), (''extnet'', ''extif''),
          (''intnet'', ''intif''), (''winnet'', ''winif''), (''vpnet'', ''vpnif'')]) nets)
   \<and> (load_networks xdata = Inr nets \<longrightarrow> wf_networks nets
        \<and> {''pubif'', ''secif'', ''DMZif''} \<subseteq> set (dkeys nets)
        \<and> set (dkeys nets) \<subseteq> {''pubif'', ''secif'', ''DMZif'', ''extif'', ''intif'', ''winif'', ''vpnif''})"
proof -
  let ?P = "\<lambda>(t, k). t \<in> {''pubnet'', ''secnet'', ''DMZnet''} \<or> has_elem xdata t"
  let ?R = "\<lambda>(t, k) (k', n). k' = k \<and> (\<exists>e. find_elem xdata t = Some e \<and> ip_network_opt (etext e) = Inr n)"
  have "(\<lambda>p e. network_entry xdata p = Inr e) = ?R"
    by (auto simp: fun_eq_iff network_entry_Inr)
  then have iff: "load_networks xdata = Inr nets \<longleftrightarrow> list_all2 ?R (filter ?P network_elements) nets"
    by (simp add: load_networks_entries rmap_Inr_list_all2)
  have "wf_networks nets \<and> {''pubif'', ''secif'', ''DMZif''} \<subseteq> set (dkeys nets)
      \<and> set (dkeys nets) \<subseteq> snd ` set network_elements"
    if "list_all2 ?R (filter ?P network_elements) nets"
  proof -
    have k: "dkeys nets = map snd (filter ?P network_elements)"
      using that by (induction rule: list_all2_induct) auto
    have "distinct (map snd network_elements)" by (simp add: network_elements_def)
    then have "distinct (dkeys nets)" unfolding k by (rule distinct_map_filter)
    moreover have "\<forall>n \<in> set (dvalues nets). wf_net n"
      using that by (induction rule: list_all2_induct) (auto simp: ip_network_opt_wf)
    moreover have "{''pubif'', ''secif'', ''DMZif''} \<subseteq> set (map snd (filter ?P network_elements))"
      by (simp add: network_elements_def)
    moreover have "set (map snd (filter ?P network_elements)) \<subseteq> snd ` set network_elements" by auto
    ultimately show ?thesis unfolding wf_networks_def k [symmetric] by blast
  qed
  with iff show ?thesis by (simp add: network_elements_def)
qed

theorem load_networks_wf_witness:
  "\<exists>nets. load_networks sample_umbrella = Inr nets \<and> wf_networks nets \<and> dkeys nets = [''pubif'', ''secif'', ''DMZif'']"
proof -
  have "ip_network ''10.1.0.0/16'' = Inr (IPNet 167837696 16)"
    "ip_network ''10.2.4.0/22'' = Inr (IPNet 167904256 22)"
    "ip_network ''10.3.0.0/24'' = Inr (IPNet 167968768 24)"
    by (simp_all add: parse_eval)
  then have nets: "load_networks sample_umbrella = Inr
    [(''pubif'', IPNet 167837696 16), (''secif'', IPNet 167904256 22), (''DMZif'', IPNet 167968768 24)]"
    by (simp add: load_networks_def required_network_def add_network_def xml_eval ip_network_opt_def)
  have "wf_networks [(''pubif'', IPNet 167837696 16), (''secif'', IPNet 167904256 22), (''DMZif'', IPNet 167968768 24)]"
    using load_networks_wf [of sample_umbrella] nets by blast
  with nets show ?thesis by simp
qed

text \<open>
  The check of the internal networks accepts everything, because \<open>network in network\<close> is
  always false: also two well-formed networks that share an address pass it.
\<close>

lemma check_intnets_accepts_overlap:
  "check_intnets nets = Inr () \<and>
   (\<exists>m n a. check_intnets [(''pubif'', m), (''secif'', n)] = Inr () \<and> wf_net m \<and> wf_net n \<and>
      is_subnet_of n m \<and> a \<in> addrs m \<and> a \<in> addrs n)"
proof -
  have pass: "check_intnets nets = Inr ()" for nets
  proof -
    have "rfold (\<lambda>x _. rfold (\<lambda>y _. check_pair x y) nets ()) xs () = Inr ()" for xs
    proof (induction xs)
      case (Cons x xs)
      have "rfold (\<lambda>y _. check_pair x y) ys () = Inr ()" for ys
        by (induction ys) (auto simp: check_pair_def net_in_net_def split: prod.splits)
      with Cons show ?case by simp
    qed simp
    then show ?thesis by (simp add: check_intnets_def)
  qed
  let ?m = "IPNet 167837696 16" and ?n = "IPNet 167837696 24"
  have "wf_net ?m" "wf_net ?n" "is_subnet_of ?n ?m" "167837696 \<in> addrs ?m" "167837696 \<in> addrs ?n"
    by (simp_all add: wf_net_def netmask_def netmask_of_def mask_eq_exp_minus_1 is_subnet_of_def
        broadcast_address_def addrs_def in_net_def)
  with pass show ?thesis by blast
qed

text \<open>
  C30: a client with several addresses is taken to have the one of them that lies in the public
  network; with none there it has no address, and with two the script refuses.
\<close>

theorem current_ip_several:
  assumes as: "addresses metadata = Some as" "2 \<le> length as" and parsed: "rmap ip_address as = Inr ips"
    and pub: "dget nets ''pubif'' = Some pub"
  shows "current_ip resolve metadata nets =
    (case filter (\<lambda>a. in_net a pub) ips of
       [] \<Rightarrow> Inr None
     | [a] \<Rightarrow> Inr (Some a)
     | _ \<Rightarrow> Inl (TemplateError (''Multiple addresses in public network for '' @ hostname metadata @ ''.'')))"
proof -
  let ?err = "Inl (TemplateError (''Multiple addresses in public network for '' @ hostname metadata @ ''.''))"
  let ?step = "public_address_step (hostname metadata) pub"
  have found: "rfold ?step xs (Some b) = (if filter (\<lambda>a. in_net a pub) ys = [] then Inr (Some b) else ?err)"
    if "rmap ip_address xs = Inr ys" for xs ys b
    using that
  proof (induction xs arbitrary: ys)
    case (Cons x xs)
    then obtain y ys' where "ys = y # ys'" "ip_address x = Inr y" "rmap ip_address xs = Inr ys'"
      by (auto simp: result_simps)
    then show ?case by (simp add: public_address_step_def [of _ _ x] Cons.IH)
  qed simp
  have "rfold ?step xs None = (case filter (\<lambda>a. in_net a pub) ys of
       [] \<Rightarrow> Inr None | [a] \<Rightarrow> Inr (Some a) | _ \<Rightarrow> ?err)"
    if "rmap ip_address xs = Inr ys" for xs ys
    using that
  proof (induction xs arbitrary: ys)
    case (Cons x xs)
    then obtain y ys' where "ys = y # ys'" "ip_address x = Inr y" "rmap ip_address xs = Inr ys'"
      by (auto simp: result_simps)
    then show ?case by (simp add: public_address_step_def [of _ _ x] Cons.IH found split: list.splits)
  qed simp
  then show ?thesis using as pub parsed by (auto simp: current_ip_def)
qed

theorem current_ip_several_witness:
  "current_ip (\<lambda>_. None) \<lparr>hostname = ''ws'', groups = [], addresses = Some [''192.168.0.1'', ''10.1.0.9'']\<rparr>
     [(''pubif'', IPNet 167837696 16)] = Inr (Some 167837705)"
proof -
  have p: "rmap ip_address [''192.168.0.1'', ''10.1.0.9''] = Inr [3232235521, 167837705]"
    by (simp add: parse_eval)
  have f: "filter (\<lambda>a. in_net a (IPNet 167837696 16)) [3232235521, 167837705] = [167837705]"
    by (simp add: in_net_def netmask_def netmask_of_def mask_eq_exp_minus_1)
  show ?thesis
    by (subst current_ip_several [OF _ _ p, of _ _ "IPNet 167837696 16"]) (simp_all add: net_eval)
qed

end
