(* ===== verification/RevZones.thy ===== *)
theory RevZones
  imports Networks
begin

text \<open>
  \<open>Python/21_revzones.py\<close>: the reverse DNS zones of the networks. A zone is delegated at an
  octet boundary, so every network is wrapped into a classful one (prefix length a multiple
  of 8); a network that is not classful itself gets a zone below its wrapper, named after its
  first and last host. Sets of networks are iterated in an order that Python does not fix;
  where the order matters it is an argument.
\<close>

section \<open>Model\<close>

definition classful_wrapper :: "ipnet \<Rightarrow> ipnet result" where
  "classful_wrapper N =
    (let newprefixlen = 8 * (prefixlen N div 8);
         addr = (0x100000000 - 2 ^ (32 - newprefixlen)) AND uint (network_address N)
     in make_network (word_of_int addr) newprefixlen)"

text \<open>
  The loop over the networks; the cache keeps one object for each printed form, which for the
  set of values that is built makes no difference but is what the script does.
\<close>

definition classful_step ::
  "string \<times> ipnet \<Rightarrow> ipnet set \<times> (string, ipnet) dict \<Rightarrow> (ipnet set \<times> (string, ipnet) dict) result" where
  "classful_step x s = (case (x, s) of ((T, N), (classfulnets, cache)) \<Rightarrow>
     if T \<in> {''extif'', ''intif'', ''vpnif''} then Inr (classfulnets, cache)
     else if prefixlen N mod 8 = 0 then Inr (insert N classfulnets, cache)
     else rbind (classful_wrapper N) (\<lambda>W.
       case dget cache (str_net W) of
         Some W' \<Rightarrow> Inr (insert W' classfulnets, cache)
       | None \<Rightarrow> Inr (insert W classfulnets, dput (str_net W) W cache)))"

text \<open>
  Removing the ones contained in others. The condition is \<open>N2 in N1 and N2.size() < N1.size()\<close>;
  networks have no method \<open>size\<close>, so evaluating its second half raises.
\<close>

definition net_size :: "ipnet \<Rightarrow> nat result" where
  "net_size N = Inl AttributeError"

definition remove_step :: "ipnet \<Rightarrow> ipnet \<Rightarrow> ipnet set \<Rightarrow> ipnet set result" where
  "remove_step N1 N2 newclassfulnets =
    rbind (if net_in_net N2 N1
           then rbind (net_size N2) (\<lambda>s2. rbind (net_size N1) (\<lambda>s1. Inr (s2 < s1)))
           else Inr False) (\<lambda>cond.
    if cond
    then (if N2 \<in> newclassfulnets then Inr (newclassfulnets - {N2}) else Inr newclassfulnets)
    else Inr newclassfulnets)"

definition remove_contained :: "ipnet list \<Rightarrow> ipnet set \<Rightarrow> ipnet set result" where
  "remove_contained order nets =
    rfold (\<lambda>N1. rfold (remove_step N1) order) order nets"

definition classful_networks ::
  "(ipnet set \<Rightarrow> ipnet list) \<Rightarrow> (string, ipnet) dict \<Rightarrow> ipnet set result" where
  "classful_networks order nets =
    rbind (rfold classful_step nets ({}, [])) (\<lambda>(classfulnets, _).
    remove_contained (order classfulnets) classfulnets)"

definition linking_networks ::
  "(ipnet set \<Rightarrow> ipnet list) \<Rightarrow> ipnet set \<Rightarrow> (string, ipnet) dict \<Rightarrow> ipnet list" where
  "linking_networks order classfulnets nets = order (classfulnets - set (dvalues nets))"

text \<open>
  Slices with step -1: \<open>xs[start::-1]\<close> and \<open>xs[:stop:-1]\<close>, where a negative bound counts from
  the end of the list.
\<close>

definition slice_back_from :: "'a list \<Rightarrow> int \<Rightarrow> 'a list" where
  "slice_back_from xs start =
    (let n = int (length xs); i = (if start < 0 then start + n else start)
     in if i < 0 then [] else rev (take (nat i + 1) xs))"

definition slice_back_until :: "'a list \<Rightarrow> int \<Rightarrow> 'a list" where
  "slice_back_until xs stop =
    (let n = int (length xs); i = (if stop < 0 then stop + n else stop)
     in if i < 0 then rev xs else rev (drop (nat i + 1) xs))"

definition octet_strings :: "ipv4 \<Rightarrow> string list" where
  "octet_strings a = py_split CHR ''.'' (str_ip a)"

definition classlessShortName :: "ipnet \<Rightarrow> ipnet \<Rightarrow> string result" where
  "classlessShortName N NC =
    (let N_first = network_address N; N_last = broadcast_address N; k = prefixlen NC div 8
     in rbind (addr_add N_first 1) (\<lambda>a.
        rbind (addr_add N_last (-1)) (\<lambda>b.
        Inr (py_join ''-'' (drop k (octet_strings a)) @ ''-'' @ py_join ''-'' (drop k (octet_strings b))))))"

definition findClassful :: "ipnet \<Rightarrow> ipnet list \<Rightarrow> ipnet option" where
  "findClassful N classfulnets =
    (if N \<in> set classfulnets then Some N else find (\<lambda>NN. is_subnet_of N NN) classfulnets)"

text \<open>
  The test \<open>NC is not N\<close> is one of object identity; its callers pass the very object that
  \<open>findClassful\<close> returns, which is \<open>N\<close> itself or a network different from it, so the test
  agrees with that of values.
\<close>

definition networkZoneName :: "ipnet \<Rightarrow> ipnet \<Rightarrow> string result" where
  "networkZoneName N NC =
    (let sq = slice_back_from (octet_strings (network_address NC)) (int (prefixlen NC div 8) - 1)
              @ [''in-addr'', ''arpa'']
     in if NC \<noteq> N then rbind (classlessShortName N NC) (\<lambda>s. Inr (py_join ''.'' (s # sq)))
        else Inr (py_join ''.'' sq))"

definition hostRevIP :: "ipv4 \<Rightarrow> ipnet \<Rightarrow> string" where
  "hostRevIP IP N = py_join ''.'' (slice_back_until (octet_strings IP) (int (prefixlen N div 8) - 1))"

section \<open>Wrapping\<close>

lemma unat_not_mask: "h \<le> 32 \<Longrightarrow> unat (NOT (mask h) :: ipv4) = 2 ^ 32 - 2 ^ h"
proof -
  assume h: "h \<le> 32"
  have "(mask 32 :: ipv4) = - 1" by (simp add: mask_eq_exp_minus_1)
  then have "unat (- 1 :: ipv4) = 2 ^ 32 - 1" by (metis unat_mask_ipv4 order_refl)
  moreover have "(NOT (mask h) :: ipv4) = - 1 - mask h" by (simp add: not_eq_complement)
  moreover have "(mask h :: ipv4) \<le> - 1" by simp
  ultimately have "unat (NOT (mask h) :: ipv4) = 2 ^ 32 - 1 - (2 ^ h - 1)"
    by (simp add: unat_sub unat_mask_ipv4 [OF h])
  moreover have "(1::nat) \<le> 2 ^ h" by simp
  ultimately show ?thesis by simp
qed

lemma classful_wrapper_eq:
  "classful_wrapper N = make_network (network_address N AND netmask_of (8 * (prefixlen N div 8)))
     (8 * (prefixlen N div 8))"
proof -
  let ?h = "32 - 8 * (prefixlen N div 8)"
  have h: "?h \<le> 32" by simp
  have le: "(2::nat) ^ ?h \<le> 2 ^ 32" by (rule power_increasing [OF h]) simp
  have "uint (NOT (mask ?h) :: ipv4) = int (unat (NOT (mask ?h) :: ipv4))" by simp
  also have "\<dots> = 0x100000000 - 2 ^ ?h"
    using le by (simp only: unat_not_mask [OF h] of_nat_diff of_nat_power) simp
  finally have "(0x100000000 - 2 ^ ?h) AND uint (network_address N)
      = uint (NOT (mask ?h) AND network_address N)"
    by (simp only: uint_and)
  then show ?thesis
    by (simp only: classful_wrapper_def Let_def word_of_int_uint netmask_of_def and.commute)
qed

lemma prefixlen_wrapper_le: "8 * (prefixlen N div 8) \<le> prefixlen N"
  by simp

text \<open>A network inside another has the longer prefix, and the other way round.\<close>

lemma subnet_prefixlen:
  assumes "wf_net a" "wf_net b" "is_subnet_of a b"
  shows "prefixlen b \<le> prefixlen a"
proof -
  have "unat (network_address b) \<le> unat (network_address a)"
    "unat (broadcast_address a) \<le> unat (broadcast_address b)"
    using assms(3) by (auto simp: is_subnet_of_def word_le_nat_alt)
  then have "unat (network_address a) + (2 ^ (32 - prefixlen a) - 1)
      \<le> unat (network_address a) + (2 ^ (32 - prefixlen b) - 1)"
    using unat_broadcast [OF assms(1)] unat_broadcast [OF assms(2)] by linarith
  then have "(2::nat) ^ (32 - prefixlen a) - 1 \<le> 2 ^ (32 - prefixlen b) - 1"
    by (simp only: add_le_cancel_left)
  then have "(2::nat) ^ (32 - prefixlen a) \<le> 2 ^ (32 - prefixlen b)"
    by (metis Suc_pred' not_less_eq_eq not_le zero_less_numeral zero_less_power le_diff_conv add_diff_inverse_nat less_one Suc_eq_plus1)
  then have "32 - prefixlen a \<le> 32 - prefixlen b" by simp
  then show ?thesis using assms(1,2) unfolding wf_net_def by linarith
qed

lemma subnet_if_common:
  assumes "wf_net a" "wf_net b" "prefixlen b \<le> prefixlen a" "in_net c a" "in_net c b"
  shows "is_subnet_of a b"
  using in_net_mono [OF assms(1,2,3,4,5)] assms(1,2) by (auto simp: is_subnet_of_iff addrs_def)

text \<open>
  C28: the classful wrapper of a network always exists, has its prefix at an octet boundary,
  contains the network, and is the smallest such network.
\<close>

theorem classful_wrapper_least:
  assumes "wf_net N"
  shows "\<exists>W. classful_wrapper N = Inr W \<and> wf_net W \<and> 8 dvd prefixlen W \<and> is_subnet_of N W
    \<and> (\<forall>M. wf_net M \<and> 8 dvd prefixlen M \<and> is_subnet_of N M \<longrightarrow> is_subnet_of W M)"
proof -
  let ?p = "8 * (prefixlen N div 8)"
  let ?W = "IPNet (network_address N AND netmask_of ?p) ?p"
  have p: "?p \<le> prefixlen N" "prefixlen N \<le> 32" using assms by (auto simp: wf_net_def)
  have wf: "wf_net ?W" using p by (simp add: wf_net_def netmask_def and.assoc)
  have W: "classful_wrapper N = Inr ?W"
    using wf by (simp add: classful_wrapper_eq result_simps)
  have inW: "in_net (network_address N) ?W" by (simp add: in_net_def netmask_def)
  have sub: "is_subnet_of N ?W"
    by (rule subnet_if_common [OF assms wf _ network_address_in_net [OF assms] inW]) (use p in simp)
  have "is_subnet_of ?W M" if M: "wf_net M" "8 dvd prefixlen M" "is_subnet_of N M" for M
  proof (rule subnet_if_common [OF wf M(1) _ inW])
    have "prefixlen M \<le> prefixlen N" by (rule subnet_prefixlen [OF assms M(1,3)])
    then have "prefixlen M div 8 \<le> prefixlen N div 8" by (rule div_le_mono)
    then show "prefixlen M \<le> prefixlen ?W" using M(2) by auto
    show "in_net (network_address N) M"
      using M(3) network_address_in_net [OF assms] assms M(1) by (auto simp: is_subnet_of_iff addrs_def)
  qed
  with W wf sub show ?thesis by auto
qed

theorem classful_wrapper_least_witness:
  "classful_wrapper (IPNet 167904256 22) = Inr (IPNet 167903232 16)
   \<and> is_subnet_of (IPNet 167904256 22) (IPNet 167903232 16)"
proof -
  have wf: "wf_net (IPNet 167904256 22)" by (simp add: net_eval)
  have "classful_wrapper (IPNet 167904256 22) = Inr (IPNet 167903232 16)"
    by (simp add: classful_wrapper_eq make_network_def netmask_of_def mask_eq_exp_minus_1)
  with classful_wrapper_least [OF wf] show ?thesis by auto
qed

section \<open>Octets of the names\<close>

lemma octet_strings_eq: "octet_strings a = map string_of_nat (octets a)"
  by (simp add: octet_strings_def split_str_ip)

lemma octet_strings_chars: "s \<in> set (octet_strings a) \<Longrightarrow> c \<in> set s \<Longrightarrow> is_digit c"
  by (auto simp: octet_strings_eq dest: string_of_nat_digits)

lemma octets_suffix:
  assumes "drop k (octets a) = drop k (octets b)" and "k \<le> 4"
  shows "unat a mod 2 ^ (32 - 8 * k) = unat b mod 2 ^ (32 - 8 * k)"
proof -
  have m2: "n mod 65536 = 256 * (n div 256 mod 256) + n mod 256" for n :: nat
    using mod_mult2_eq [of n 256 256] by simp
  have m3: "n mod 16777216 = 65536 * (n div 65536 mod 256) + n mod 65536" for n :: nat
    using mod_mult2_eq [of n 65536 256] by simp
  have m4: "n mod 4294967296 = 16777216 * (n div 16777216 mod 256) + n mod 16777216" for n :: nat
    using mod_mult2_eq [of n 16777216 256] by simp
  from assms(2) consider "k = 0" | "k = 1" | "k = 2" | "k = 3" | "k = 4" by linarith
  then show ?thesis
    using assms(1) by cases (simp_all add: octets_def Let_def m2 m3 m4)
qed

lemma octets_prefix:
  assumes "unat a div 2 ^ (32 - 8 * k) = unat b div 2 ^ (32 - 8 * k)" and "k \<le> 4"
  shows "take k (octets a) = take k (octets b)"
proof -
  have d: "n div 65536 = n div 256 div 256" "n div 16777216 = n div 65536 div 256" for n :: nat
    by (simp_all flip: div_mult2_eq)
  from assms(2) consider "k = 0" | "k = 1" | "k = 2" | "k = 3" | "k = 4" by linarith
  then show ?thesis
  proof cases
    case 2
    then show ?thesis using assms(1) by (simp add: octets_def Let_def)
  next
    case 3
    then show ?thesis using assms(1) by (simp add: octets_def Let_def d(2))
  next
    case 4
    then show ?thesis using assms(1) by (simp add: octets_def Let_def d)
  next
    case 5
    then have "a = b" using assms(1) by (simp add: word_unat_eq_iff)
    then show ?thesis by simp
  qed simp
qed

text \<open>
  C1: for a network at an octet boundary, the relative name of a host followed by the name of
  the zone is the standard reverse name: all four octets backwards, then \<open>in-addr.arpa\<close>.
\<close>

theorem reverse_name_of_host:
  assumes "wf_net NC" and "prefixlen NC \<in> {8, 16, 24}" and "in_net IP NC"
  shows "\<exists>zone. networkZoneName NC NC = Inr zone \<and>
     hostRevIP IP NC @ ''.'' @ zone = py_join ''.'' (rev (octet_strings IP) @ [''in-addr'', ''arpa''])"
proof -
  define k where "k = prefixlen NC div 8"
  have k: "prefixlen NC = 8 * k" "k \<in> {1, 2, 3}" using assms(2) by (auto simp: k_def)
  have "take k (octets (network_address NC)) = take k (octets IP)"
    by (rule octets_prefix) (use k in_net_iff_div [OF assms(1), of IP] assms(3) in auto)
  then have pre: "take k (octet_strings (network_address NC)) = take k (octet_strings IP)"
    by (simp add: octet_strings_eq take_map)
  have l: "length (octet_strings a) = 4" for a by (simp add: octet_strings_eq)
  have z: "slice_back_from (octet_strings a) (int k - 1) = rev (take k (octet_strings a))" for a
    using k(2) by (auto simp: slice_back_from_def l numeral_eq_Suc)
  have h: "slice_back_until (octet_strings a) (int k - 1) = rev (drop k (octet_strings a))" for a
    using k(2) by (auto simp: slice_back_until_def l numeral_eq_Suc)
  have ne: "drop k (octet_strings IP) \<noteq> []" using k(2) by (auto simp: l)
  have "py_join ''.'' (rev (octet_strings IP) @ [''in-addr'', ''arpa''])
      = py_join ''.'' (rev (drop k (octet_strings IP)) @ rev (take k (octet_strings IP)) @ [''in-addr'', ''arpa''])"
    by (metis append.assoc append_take_drop_id rev_append)
  also have "\<dots> = py_join ''.'' (rev (drop k (octet_strings IP))) @ ''.'' @
      py_join ''.'' (rev (take k (octet_strings IP)) @ [''in-addr'', ''arpa''])"
    by (rule py_join_append) (use ne in auto)
  finally show ?thesis
    unfolding networkZoneName_def hostRevIP_def k_def [symmetric] z h pre by simp
qed

theorem reverse_name_of_host_witness:
  "\<exists>zone. networkZoneName (IPNet 167837696 24) (IPNet 167837696 24) = Inr zone \<and>
     hostRevIP 167837705 (IPNet 167837696 24) @ ''.'' @ zone
       = py_join ''.'' (rev (octet_strings 167837705) @ [''in-addr'', ''arpa''])"
proof -
  have "wf_net (IPNet 167837696 24)" "in_net 167837705 (IPNet 167837696 24)"
    by (simp_all add: net_eval)
  then show ?thesis by (intro reverse_name_of_host) auto
qed

section \<open>Distinct zones\<close>

lemma classlessShortName_parts:
  assumes "classlessShortName N NC = Inr s" and "prefixlen NC < 32"
  shows "\<exists>a b. addr_add (network_address N) 1 = Inr a \<and> addr_add (broadcast_address N) (- 1) = Inr b
    \<and> s = py_join ''-'' (drop (prefixlen NC div 8) (octet_strings a) @ drop (prefixlen NC div 8) (octet_strings b))"
proof -
  have "prefixlen NC div 8 < 4" using assms(2) by linarith
  then have "drop (prefixlen NC div 8) (octet_strings a) \<noteq> []" for a
    by (simp add: octet_strings_eq)
  then show ?thesis using assms(1)
    by (auto simp: classlessShortName_def Let_def result_simps py_join_append)
qed

lemma mod_close_eq:
  fixes u v :: nat
  assumes "u mod h = v mod h" "u < v + h" "v < u + h"
  shows "u = v"
proof -
  have "x = y" if "y \<le> x" "x < y + h" "x mod h = y mod h" for x y :: nat
  proof -
    have "h dvd x - y" using that by (simp add: mod_eq_dvd_iff_nat)
    then show ?thesis using that by (auto dest!: dvd_imp_le)
  qed
  then show ?thesis using assms by (metis nat_le_linear)
qed

lemma addr_add_unat: "addr_add a n = Inr b \<Longrightarrow> int (unat b) = int (unat a) + n"
proof -
  assume "addr_add a n = Inr b"
  then have r: "0 \<le> uint a + n" "uint a + n < 2 ^ LENGTH(32)" "b = word_of_int (uint a + n)"
    by (auto simp: addr_add_def Let_def simp del: of_int_add split: if_splits)
  then have "uint b = uint a + n" by (simp only: r(3) uint_word_of_int mod_pos_pos_trivial)
  then show ?thesis by simp
qed

lemma classlessShortName_inject:
  assumes "wf_net N" "wf_net M" "wf_net NC" "prefixlen NC < 32"
    and "is_subnet_of N NC" "is_subnet_of M NC"
    and "classlessShortName N NC = Inr s" "classlessShortName M NC = Inr s"
  shows "N = M"
proof -
  let ?k = "prefixlen NC div 8"
  have k: "?k < 4" using assms(4) by linarith
  obtain a b where ab: "addr_add (network_address N) 1 = Inr a" "addr_add (broadcast_address N) (- 1) = Inr b"
      "s = py_join ''-'' (drop ?k (octet_strings a) @ drop ?k (octet_strings b))"
    using classlessShortName_parts [OF assms(7,4)] by blast
  obtain c d where cd: "addr_add (network_address M) 1 = Inr c" "addr_add (broadcast_address M) (- 1) = Inr d"
      "s = py_join ''-'' (drop ?k (octet_strings c) @ drop ?k (octet_strings d))"
    using classlessShortName_parts [OF assms(8,4)] by blast
  have ne: "drop ?k (octet_strings x) \<noteq> []" for x using k by (simp add: octet_strings_eq)
  have "drop ?k (octet_strings a) @ drop ?k (octet_strings b)
      = drop ?k (octet_strings c) @ drop ?k (octet_strings d)"
  proof (rule py_join_inject)
    show "py_join ''-'' (drop ?k (octet_strings a) @ drop ?k (octet_strings b))
      = py_join ''-'' (drop ?k (octet_strings c) @ drop ?k (octet_strings d))"
      using ab(3) cd(3) by simp
  qed (use ne in \<open>auto dest!: in_set_dropD dest: octet_strings_chars\<close>)
  then have "drop ?k (octet_strings a) = drop ?k (octet_strings c)"
      "drop ?k (octet_strings b) = drop ?k (octet_strings d)"
    by (simp_all add: octet_strings_eq append_eq_append_conv)
  moreover have inj: "inj string_of_nat" by (simp add: inj_def)
  ultimately have o: "drop ?k (octets a) = drop ?k (octets c)" "drop ?k (octets b) = drop ?k (octets d)"
    by (simp_all add: octet_strings_eq drop_map inj_map_eq_map)
  let ?H = "(2::nat) ^ (32 - 8 * ?k)"
  have ac: "unat a mod ?H = unat c mod ?H" "unat b mod ?H = unat d mod ?H"
    using o k by (auto intro: octets_suffix)
  have room: "unat (network_address NC) \<le> unat x \<and> unat x < unat (network_address NC) + ?H"
    if "in_net x NC" for x
  proof -
    have "(2::nat) ^ (32 - prefixlen NC) \<le> ?H" by (rule power_increasing) auto
    then show ?thesis using that unat_in_net_iff [OF assms(3), of x] by linarith
  qed
  have sub: "in_net (network_address K) NC \<and> in_net (broadcast_address K) NC"
    if "wf_net K" "is_subnet_of K NC" for K
    using that assms(3) network_address_in_net broadcast_in_net
    by (auto simp: is_subnet_of_iff addrs_def)
  have r: "in_net (network_address N) NC" "in_net (network_address M) NC"
      "in_net (broadcast_address N) NC" "in_net (broadcast_address M) NC"
    using sub assms(1,2,5,6) by auto
  note eqs = addr_add_unat [OF ab(1)] addr_add_unat [OF ab(2)] addr_add_unat [OF cd(1)] addr_add_unat [OF cd(2)]
  have "unat a = unat c"
    by (rule mod_close_eq [OF ac(1)]; use room [OF r(1)] room [OF r(2)] eqs in linarith)
  moreover have "unat b = unat d"
    by (rule mod_close_eq [OF ac(2)]; use room [OF r(3)] room [OF r(4)] eqs in linarith)
  ultimately have "network_address N = network_address M" "broadcast_address N = broadcast_address M"
    using eqs unfolding word_unat_eq_iff by linarith+
  then show ?thesis using assms(1,2) by (intro addrs_inject) (simp_all add: addrs_interval)
qed

text \<open>
  C11: within one classful network the names of the zones are distinct: two networks inside it
  that get the same zone name are the same network.
\<close>

theorem networkZoneName_inject:
  assumes "wf_net N" "wf_net M" "wf_net NC" "prefixlen NC < 32"
    and "is_subnet_of N NC" "is_subnet_of M NC"
    and "networkZoneName N NC = Inr zone" "networkZoneName M NC = Inr zone"
  shows "N = M"
proof -
  define sq where "sq = slice_back_from (octet_strings (network_address NC)) (int (prefixlen NC div 8) - 1)
              @ [''in-addr'', ''arpa'']"
  have j: "py_join ''.'' (s # sq) = s @ ''.'' @ py_join ''.'' sq" for s
    by (simp add: py_join_Cons sq_def)
  have nz: "networkZoneName K NC = (if NC = K then Inr (py_join ''.'' sq)
      else rbind (classlessShortName K NC) (\<lambda>s. Inr (s @ ''.'' @ py_join ''.'' sq)))" for K
    by (simp add: networkZoneName_def Let_def sq_def [symmetric] j)
  show ?thesis
  proof (cases "N = NC \<or> M = NC")
    case True
    then show ?thesis using assms(7,8) by (auto simp: nz result_simps split: if_splits)
  next
    case False
    then obtain s where "classlessShortName N NC = Inr s" "classlessShortName M NC = Inr s"
      using assms(7,8) by (auto simp: nz result_simps)
    then show ?thesis by (rule classlessShortName_inject [OF assms(1-6)])
  qed
qed

theorem networkZoneName_inject_witness:
  "networkZoneName (IPNet 167837696 25) (IPNet 167837696 24) \<noteq>
   networkZoneName (IPNet 167837824 25) (IPNet 167837696 24)"
proof
  let ?N = "IPNet 167837696 25" and ?M = "IPNet 167837824 25" and ?C = "IPNet 167837696 24"
  assume eq: "networkZoneName ?N ?C = networkZoneName ?M ?C"
  have wf: "wf_net ?N" "wf_net ?M" "wf_net ?C" by (simp_all add: net_eval)
  have sub: "is_subnet_of ?N ?C" "is_subnet_of ?M ?C"
    by (simp_all add: is_subnet_of_def net_eval word_le_nat_alt)
  obtain zone where z: "networkZoneName ?N ?C = Inr zone"
    by (simp add: networkZoneName_def classlessShortName_def addr_add_def Let_def net_eval)
  have "?N = ?M"
    by (rule networkZoneName_inject [OF wf _ sub z]) (use eq z in auto)
  then show False by simp
qed

section \<open>The set of classful networks\<close>

definition wrap :: "ipnet \<Rightarrow> ipnet" where
  "wrap N = IPNet (network_address N AND netmask_of (8 * (prefixlen N div 8))) (8 * (prefixlen N div 8))"

lemma wrap_properties:
  assumes "wf_net N"
  shows "classful_wrapper N = Inr (wrap N)" "wf_net (wrap N)" "8 dvd prefixlen (wrap N)"
    "is_subnet_of N (wrap N)"
proof -
  have p: "prefixlen N \<le> 32" using assms by (simp add: wf_net_def)
  show wf: "wf_net (wrap N)"
    using p prefixlen_wrapper_le [of N] by (simp add: wrap_def wf_net_def netmask_def and.assoc)
  then show "classful_wrapper N = Inr (wrap N)"
    by (simp add: classful_wrapper_eq result_simps wrap_def)
  show "8 dvd prefixlen (wrap N)" by (simp add: wrap_def)
  have "in_net (network_address N) (wrap N)" by (simp add: in_net_def netmask_def wrap_def)
  then show "is_subnet_of N (wrap N)"
    by (intro subnet_if_common [OF assms wf _ network_address_in_net [OF assms]]) (simp_all add: wrap_def)
qed

lemma wrap_classful: "wf_net N \<Longrightarrow> prefixlen N mod 8 = 0 \<Longrightarrow> wrap N = N"
  by (auto simp: wrap_def wf_net_def netmask_def intro!: ipnet.expand)

definition cache_ok :: "(string, ipnet) dict \<Rightarrow> bool" where
  "cache_ok cache \<longleftrightarrow> (\<forall>k W. dget cache k = Some W \<longrightarrow> wf_net W \<and> k = str_net W)"

lemma classful_step_wrap:
  assumes "wf_net N" "cache_ok cache"
  shows "\<exists>cache'. classful_step (T, N) (S, cache)
      = Inr (if T \<in> {''extif'', ''intif'', ''vpnif''} then S else insert (wrap N) S, cache') \<and> cache_ok cache'"
proof (cases "dget cache (str_net (wrap N))")
  case None
  then show ?thesis using assms wrap_properties [OF assms(1)] wrap_classful [OF assms(1)]
    by (auto simp: classful_step_def cache_ok_def pyd.get_put)
next
  case (Some W)
  then have "W = wrap N"
    using assms wrap_properties [OF assms(1)] by (metis cache_ok_def str_net_inject)
  then show ?thesis using Some assms wrap_properties [OF assms(1)] wrap_classful [OF assms(1)]
    by (auto simp: classful_step_def)
qed

lemma classful_fold:
  assumes "\<And>x. x \<in> set nets \<Longrightarrow> wf_net (snd x)" and "cache_ok cache"
  shows "\<exists>cache'. rfold classful_step nets (S, cache)
     = Inr (S \<union> {wrap N |T N. (T, N) \<in> set nets \<and> T \<notin> {''extif'', ''intif'', ''vpnif''}}, cache')"
  using assms
proof (induction nets arbitrary: S cache)
  case Nil
  then show ?case by simp
next
  case (Cons x nets)
  obtain T N where x: "x = (T, N)" by (cases x)
  have "wf_net N" using Cons.prems(1) [of x] x by simp
  then obtain cache1 where s: "classful_step (T, N) (S, cache)
      = Inr (if T \<in> {''extif'', ''intif'', ''vpnif''} then S else insert (wrap N) S, cache1)" "cache_ok cache1"
    using classful_step_wrap [OF _ Cons.prems(2)] by blast
  show ?case
    using Cons.IH [OF _ s(2), of "if T \<in> {''extif'', ''intif'', ''vpnif''} then S else insert (wrap N) S"] Cons.prems(1)
    by (fastforce simp only: x rfold.simps s(1) rbind_simps list.set split: if_splits)
qed

lemma remove_contained_id: "remove_contained order nets = Inr nets"
proof -
  have inner: "rfold (remove_step N1) ys s = Inr s" for N1 ys s
    by (induction ys) (simp_all add: remove_step_def net_in_net_def)
  have "rfold (\<lambda>N1. rfold (remove_step N1) ys) zs s = Inr s" for ys zs s
    by (induction zs) (simp_all add: inner)
  then show ?thesis by (simp only: remove_contained_def)
qed

lemma findClassful_covers:
  assumes "W \<in> set nets" and "is_subnet_of N W"
  shows "\<exists>V \<in> set nets. findClassful N nets = Some V \<and> is_subnet_of N V"
proof (cases "N \<in> set nets")
  case True
  then show ?thesis by (auto simp: findClassful_def intro: net_order.sub_refl)
next
  case False
  from assms obtain V where "find (\<lambda>V. is_subnet_of N V) nets = Some V"
    by (cases "find (\<lambda>V. is_subnet_of N V) nets") (auto simp: find_None_iff)
  with False show ?thesis by (auto simp: findClassful_def find_Some_iff)
qed

text \<open>Which networks of the dictionary get reverse zones: the loop passes over three types.\<close>

abbreviation rev_networks :: "(string, ipnet) dict \<Rightarrow> ipnet set" where
  "rev_networks nets \<equiv> {N. \<exists>T. (T, N) \<in> set nets \<and> T \<notin> {''extif'', ''intif'', ''vpnif''}}"

lemma classful_networks_wrap:
  assumes "\<And>x. x \<in> set nets \<Longrightarrow> wf_net (snd x)"
  shows "classful_networks order nets = Inr (wrap ` rev_networks nets)"
proof -
  have "cache_ok []" by (simp add: cache_ok_def)
  from classful_fold [OF assms this, of nets "{}"]
  obtain cache where "rfold classful_step nets ({}, [])
     = Inr ({wrap N |T N. (T, N) \<in> set nets \<and> T \<notin> {''extif'', ''intif'', ''vpnif''}}, cache)"
    by auto
  moreover have "{wrap N |T N. (T, N) \<in> set nets \<and> T \<notin> {''extif'', ''intif'', ''vpnif''}} = wrap ` rev_networks nets"
    by blast
  ultimately show ?thesis by (simp add: classful_networks_def remove_contained_id)
qed

text \<open>
  C12: take any well-formed networks and, of these, all but those of the interface types \<open>extif\<close>,
  \<open>intif\<close> and \<open>vpnif\<close> (the virtual private network is passed over although it is an internal
  network). The script does not raise; each classful network that it computes has its prefix at
  an octet boundary and is the wrapper of one of the networks taken; and looking up any network
  taken finds a computed classful network that contains it. That computed networks may be
  nested, which the script means to exclude, is shown separately below.
\<close>

theorem classful_networks_cover:
  assumes "\<And>x. x \<in> set nets \<Longrightarrow> wf_net (snd x)" and "\<And>S. finite S \<Longrightarrow> set (order S) = S"
  shows "\<exists>S. classful_networks order nets = Inr S
    \<and> (\<forall>V \<in> S. wf_net V \<and> 8 dvd prefixlen V
         \<and> (\<exists>T N. (T, N) \<in> set nets \<and> T \<notin> {''extif'', ''intif'', ''vpnif''} \<and> classful_wrapper N = Inr V))
    \<and> (\<forall>T N. (T, N) \<in> set nets \<and> T \<notin> {''extif'', ''intif'', ''vpnif''} \<longrightarrow>
         (\<exists>V \<in> S. findClassful N (order S) = Some V \<and> is_subnet_of N V))"
proof -
  let ?S = "wrap ` rev_networks nets"
  have wf: "wf_net N" if "(T, N) \<in> set nets" for T N using assms(1) [OF that] by simp
  have "rev_networks nets \<subseteq> snd ` set nets" by force
  then have "finite ?S" by (intro finite_imageI) (rule finite_subset, auto)
  then have ord: "set (order ?S) = ?S" by (rule assms(2))
  have "\<exists>V \<in> ?S. findClassful N (order ?S) = Some V \<and> is_subnet_of N V"
    if "(T, N) \<in> set nets \<and> T \<notin> {''extif'', ''intif'', ''vpnif''}" for T N
  proof -
    have "wrap N \<in> set (order ?S)" unfolding ord using that by blast
    from findClassful_covers [OF this wrap_properties(4) [OF wf]] that show ?thesis
      unfolding ord by blast
  qed
  moreover have "\<forall>V \<in> ?S. wf_net V \<and> 8 dvd prefixlen V
      \<and> (\<exists>T N. (T, N) \<in> set nets \<and> T \<notin> {''extif'', ''intif'', ''vpnif''} \<and> classful_wrapper N = Inr V)"
    using wrap_properties(1-3) [OF wf] by blast
  ultimately show ?thesis
    using classful_networks_wrap [OF assms(1), of nets order] by blast
qed

theorem classful_networks_cover_witness:
  "\<exists>S. classful_networks sorted_list_of_set
      [(''pubif'', IPNet 167837696 24), (''secif'', IPNet 167904256 22), (''intif'', IPNet 0 0)] = Inr S
    \<and> (\<exists>V \<in> S. findClassful (IPNet 167904256 22) (sorted_list_of_set S) = Some V)"
proof -
  let ?nets = "[(''pubif'', IPNet 167837696 24), (''secif'', IPNet 167904256 22), (''intif'', IPNet 0 0)]"
  have wf: "\<And>x. x \<in> set ?nets \<Longrightarrow> wf_net (snd x)" by (auto simp: net_eval)
  have ord: "\<And>S :: ipnet set. finite S \<Longrightarrow> set (sorted_list_of_set S) = S" by simp
  have "(''secif'', IPNet 167904256 22) \<in> set ?nets \<and> ''secif'' \<notin> {''extif'', ''intif'', ''vpnif''}"
    by simp
  with classful_networks_cover [where nets = ?nets and order = sorted_list_of_set, OF wf ord]
  show ?thesis by (elim exE conjE) (metis (no_types, lifting))
qed



end
