(* ===== verification/Firewall.thy ===== *)
theory Firewall
  imports Networks FuncHosts
begin

text \<open>
  \<open>Python/25_firewall.py\<close>: the parameters of the firewall from \<open>firewall.xml\<close>: who serves SSH,
  the mail robots in the DMZ and the numbering of their servers, the DNS lists for SMTP, and
  the static routes. The script deletes the variable of a loop that may not have run; the
  template engine's namespace ignores the deletion of a name it does not have.
\<close>

section \<open>Model\<close>

subsection \<open>Flags\<close>

record firewall_flags =
  ssh_from_ext :: bool
  ssh_from_int :: bool
  forward_ssh_to_ltsp :: bool
  ssh_to_ltsp :: bool
  forward_smtps_imaps_to_mail :: bool
  smtps_imaps_to_mail :: bool
  ssh_to_router :: bool
  auth_in_DMZ :: bool
  www_homes :: bool
  mail_in_DMZ :: bool
  admin_from_VPN :: bool
  ssh_to_sec :: bool
  pub_nfs_from_sec :: bool
  jabber_from_sec :: bool
  mail_from_sec :: bool
  vnc_in_gui_sessions :: bool
  transparent_proxy :: bool
  slow_down_dynamic_hosts :: bool

definition firewall_flags_of :: "elem \<Rightarrow> (string option, string) dict \<Rightarrow> firewall_flags" where
  "firewall_flags_of xdata fh =
    (let from_ext = has_elem xdata ''ssh_from_ext'';
         from_int = has_elem xdata ''ssh_from_int'';
         fwd = has_elem xdata ''forward_ssh_to_ltsp'';
         to_ltsp = (fwd \<and> din (Some ''ltsp'') fh);
         fwd_mail = has_elem xdata ''forward_smtps_imaps_to_mail'';
         to_mail = (fwd_mail \<and> din (Some ''mail'') fh);
         to_router = ((from_ext \<or> from_int) \<and> \<not> to_ltsp);
         to_ltsp = ((from_ext \<or> from_int) \<and> to_ltsp);
         auth = find_elem xdata ''auth_in_DMZ''
     in \<lparr>ssh_from_ext = from_ext, ssh_from_int = from_int, forward_ssh_to_ltsp = fwd,
         ssh_to_ltsp = to_ltsp, forward_smtps_imaps_to_mail = fwd_mail, smtps_imaps_to_mail = to_mail, ssh_to_router = to_router,
         auth_in_DMZ = (auth \<noteq> None),
         www_homes = (case auth of None \<Rightarrow> False | Some a \<Rightarrow> has_elem a ''www_homes''),
         mail_in_DMZ = has_elem xdata ''mail_in_DMZ'',
         admin_from_VPN = has_elem xdata ''admin_from_VPN'',
         ssh_to_sec = has_elem xdata ''ssh_to_sec'',
         pub_nfs_from_sec = has_elem xdata ''pub_nfs_from_sec'',
         jabber_from_sec = has_elem xdata ''jabber_from_sec'',
         mail_from_sec = has_elem xdata ''mail_from_sec'',
         vnc_in_gui_sessions = has_elem xdata ''vnc_in_gui_sessions'',
         transparent_proxy = has_elem xdata ''transparent_proxy'',
         slow_down_dynamic_hosts = has_elem xdata ''slow_down_dynamic_hosts''\<rparr>)"

subsection \<open>Mail robots\<close>

record robot_state =
  num :: nat
  robot_out_addrs :: "(string, nat) dict"
  robot_inc_addrs :: "(string, nat) dict"
  address_numbering :: "(ipv4, nat) dict"

definition sends :: "string option \<Rightarrow> bool" where
  "sends flow \<longleftrightarrow> flow \<in> {None, Some [], Some ''sendrecv'', Some ''sendonly''}"

definition receives :: "string option \<Rightarrow> bool" where
  "receives flow \<longleftrightarrow> flow \<in> {None, Some [], Some ''sendrecv'', Some ''recvonly''}"

definition noteaddr :: "string \<Rightarrow> ipv4 \<Rightarrow> string option \<Rightarrow> robot_state \<Rightarrow> robot_state" where
  "noteaddr name addr flow s =
    (let (rnum, s) = (case dget (address_numbering s) addr of
           Some n \<Rightarrow> (n, s)
         | None \<Rightarrow> (num s, s\<lparr>address_numbering := dput addr (num s) (address_numbering s), num := num s + 1\<rparr>));
         s = (if sends flow then s\<lparr>robot_out_addrs := dput name rnum (robot_out_addrs s)\<rparr> else s)
     in if receives flow then s\<lparr>robot_inc_addrs := dput name rnum (robot_inc_addrs s)\<rparr> else s)"

definition ml_suffixes :: "string list" where
  "ml_suffixes = [''admin'', ''bounces'', ''confirm'', ''join'', ''leave'', ''owner'', ''request'',
     ''subscribe'', ''unsubscribe'']"

text \<open>A list name without text is noted and then concatenated, which raises.\<close>

definition robot_step :: "elem \<Rightarrow> robot_state \<Rightarrow> robot_state result" where
  "robot_step robot s =
    (let flow = get_attr robot ''flow'' in
     rbind (rbind (find_stripped robot ''ip'') ip_address) (\<lambda>addr.
     case find_elem robot ''list_name'' of
       Some ml \<Rightarrow> rbind (need TypeError (etext ml)) (\<lambda>ml_name.
         Inr (fold (\<lambda>suffix. noteaddr (ml_name @ ''-'' @ suffix) addr flow) ml_suffixes
                (noteaddr ml_name addr flow s)))
     | None \<Rightarrow> rbind (find_stripped robot ''name'') (\<lambda>name. Inr (noteaddr name addr flow s))))"

record robots =
  robot_servers :: "ipv4 option list"
  robot_outgoing_addresses :: "(string, nat) dict"
  robot_incoming_addresses :: "(string, nat) dict"

definition robots_init :: robot_state where
  "robots_init = \<lparr>num = 0, robot_out_addrs = [], robot_inc_addrs = [], address_numbering = []\<rparr>"

definition number_servers :: "(ipv4, nat) dict \<Rightarrow> ipv4 option list" where
  "number_servers numbering =
    fold (\<lambda>(addr, n) servers. servers[n := Some addr]) numbering (replicate (length numbering) None)"

definition mail_robots :: "elem \<Rightarrow> robots result" where
  "mail_robots xdata = (case find_elem xdata ''mail_in_DMZ'' of
      None \<Rightarrow> Inr \<lparr>robot_servers = [], robot_outgoing_addresses = [], robot_incoming_addresses = []\<rparr>
    | Some m \<Rightarrow> rbind (rfold robot_step (findall m ''robot'') robots_init) (\<lambda>s.
        Inr \<lparr>robot_servers = number_servers (address_numbering s),
             robot_outgoing_addresses = robot_out_addrs s,
             robot_incoming_addresses = robot_inc_addrs s\<rparr>))"

subsection \<open>DNS lists\<close>

definition cacheDNSListItem :: "elem \<Rightarrow> (string \<times> string option) list \<Rightarrow> (string \<times> string option) list result" where
  "cacheDNSListItem item DNSList =
    rbind (strip_text (etext item)) (\<lambda>itemName.
    Inr (DNSList @ [(itemName, get_attr item ''recordMatch'')]))"

definition dns_lists :: "elem \<Rightarrow> ((string \<times> string option) list \<times> (string \<times> string option) list) result" where
  "dns_lists xdata = (case find_elem xdata ''DNS_SMTP_lists'' of None \<Rightarrow> Inr ([], [])
    | Some l \<Rightarrow> rbind (rfold cacheDNSListItem (findall l ''whitelist'') []) (\<lambda>white.
        rbind (rfold cacheDNSListItem (findall l ''blacklist'') []) (\<lambda>black. Inr (white, black))))"

subsection \<open>Static routes\<close>

type_synonym route = "ipnet \<times> ipv4"

definition route_step :: "string \<Rightarrow> ipnet \<Rightarrow> elem \<Rightarrow> route list \<Rightarrow> route list result" where
  "route_step netif netwrk r acc =
    rbind (rbind (find_stripped r ''network'') ip_network) (\<lambda>route_network.
    rbind (rbind (find_stripped r ''via'') ip_address) (\<lambda>route_via.
    if \<not> in_net route_via netwrk
    then Inl (TemplateError (''The static route on \"'' @ net_type netif @ ''\" to '' @ str_net route_network
      @ '' points to a gateway '' @ str_ip route_via @ '', which is not in \"'' @ net_type netif @ ''\" network.''))
    else Inr (acc @ [(route_network, route_via)])))"

definition netif_routes_step ::
  "elem \<Rightarrow> string \<times> ipnet \<Rightarrow> (string, route list) dict \<Rightarrow> (string, route list) dict result" where
  "netif_routes_step xdata x static = (case x of (netif, netwrk) \<Rightarrow>
     rbind (rfold (route_step netif netwrk) (findall xdata (''static_route_'' @ net_type netif)) []) (\<lambda>routes_acc.
     if length routes_acc > 0 then Inr (dput netif routes_acc static) else Inr static))"

definition static_routes_of :: "elem \<Rightarrow> (string, ipnet) dict \<Rightarrow> (string, route list) dict result" where
  "static_routes_of xdata nets = rfold (netif_routes_step xdata) nets []"

record firewall =
  flags :: firewall_flags
  mail_robot_tables :: robots
  dns_smtp_whitelists :: "(string \<times> string option) list"
  dns_smtp_blacklists :: "(string \<times> string option) list"
  static_routes :: "(string, route list) dict"

definition firewall_script ::
  "elem \<Rightarrow> (string option, string) dict \<Rightarrow> (string, ipnet) dict \<Rightarrow> firewall result" where
  "firewall_script xdata fh nets =
    rbind (mail_robots xdata) (\<lambda>rob.
    rbind (dns_lists xdata) (\<lambda>(white, black).
    rbind (static_routes_of xdata nets) (\<lambda>routes.
    Inr \<lparr>flags = firewall_flags_of xdata fh, mail_robot_tables = rob,
         dns_smtp_whitelists = white, dns_smtp_blacklists = black, static_routes = routes\<rparr>)))"

section \<open>The numbering of the robot servers\<close>

text \<open>What a \<open>robot\<close> element notes: names, each with the address of the server and the flow.\<close>

type_synonym robot_note = "string \<times> ipv4 \<times> string option"

definition robot_notes :: "elem \<Rightarrow> robot_note list result" where
  "robot_notes robot =
    rbind (rbind (find_stripped robot ''ip'') ip_address) (\<lambda>addr.
    rbind (case find_elem robot ''list_name'' of
        Some ml \<Rightarrow> rbind (need TypeError (etext ml)) (\<lambda>n. Inr (n # map (\<lambda>s. n @ ''-'' @ s) ml_suffixes))
      | None \<Rightarrow> rbind (find_stripped robot ''name'') (\<lambda>n. Inr [n])) (\<lambda>names.
    Inr (map (\<lambda>n. (n, addr, get_attr robot ''flow'')) names)))"

abbreviation note_all :: "robot_note list \<Rightarrow> robot_state \<Rightarrow> robot_state" where
  "note_all \<equiv> fold (\<lambda>(n, a, f). noteaddr n a f)"

lemma robot_step_notes:
  "robot_step robot s = rbind (robot_notes robot) (\<lambda>ns. Inr (note_all ns s))"
  by (simp add: robot_step_def robot_notes_def rbind_assoc Let_def fold_map o_def split: option.splits)

lemma robot_loop_notes:
  "rfold robot_step rs s = rbind (rmap robot_notes rs) (\<lambda>nss. Inr (note_all (concat nss) s))"
proof (induction rs arbitrary: s)
  case (Cons r rs)
  then show ?case
    by (cases "robot_notes r"; cases "rmap robot_notes rs") (simp_all add: robot_step_notes [of r s])
qed simp

definition nub :: "'a list \<Rightarrow> 'a list" where
  "nub xs = rev (remdups (rev xs))"

lemma nub_snoc: "nub (xs @ [x]) = (if x \<in> set xs then nub xs else nub xs @ [x])"
  by (simp add: nub_def)

lemma set_nub [simp]: "set (nub xs) = set xs"
  and distinct_nub [simp]: "distinct (nub xs)"
  by (simp_all add: nub_def)

lemma length_nub: "length (nub xs) = card (set xs)"
  by (metis distinct_card distinct_nub set_nub)

text \<open>A value stands after those that were mentioned before its first mention.\<close>

lemma nub_first_mention:
  "i < length xs \<Longrightarrow> xs ! i \<notin> set (take i xs) \<Longrightarrow>
     card (set (take i xs)) < length (nub xs) \<and> nub xs ! card (set (take i xs)) = xs ! i"
proof (induction xs rule: rev_induct)
  case (snoc x xs)
  show ?case
  proof (cases "i < length xs")
    case True
    with snoc show ?thesis by (auto simp: nth_append nub_snoc)
  next
    case False
    with snoc.prems(1) have i: "i = length xs" by simp
    with snoc.prems(2) have "x \<notin> set xs" by simp
    with i show ?thesis by (simp add: nub_snoc length_nub nth_append)
  qed
qed simp

lemma noteaddr_numbering:
  "address_numbering (noteaddr n a f s) =
    (if din a (address_numbering s) then address_numbering s else address_numbering s @ [(a, num s)])"
  "num (noteaddr n a f s) = (if din a (address_numbering s) then num s else num s + 1)"
proof -
  show "address_numbering (noteaddr n a f s) =
    (if din a (address_numbering s) then address_numbering s else address_numbering s @ [(a, num s)])"
    using dput_new [of a "address_numbering s"] pyd.get_None_iff [of "address_numbering s" a]
    by (auto simp: noteaddr_def Let_def split: option.splits simp del: set_map)
  show "num (noteaddr n a f s) = (if din a (address_numbering s) then num s else num s + 1)"
    using pyd.get_None_iff [of "address_numbering s" a]
    by (auto simp: noteaddr_def Let_def split: option.splits simp del: set_map)
qed

lemma noteaddr_tables:
  assumes "dget (address_numbering (noteaddr n a f s)) a = Some i"
  shows "robot_out_addrs (noteaddr n a f s) = (if sends f then dput n i (robot_out_addrs s) else robot_out_addrs s)"
    "robot_inc_addrs (noteaddr n a f s) = (if receives f then dput n i (robot_inc_addrs s) else robot_inc_addrs s)"
  using assms by (auto simp: noteaddr_def Let_def pyd.get_put split: option.splits if_splits)

text \<open>The numbers are the positions of the addresses in the order of their first mention.\<close>

lemma note_all_numbering:
  "address_numbering (note_all ns robots_init)
     = zip (nub (map (fst \<circ> snd) ns)) [0..<length (nub (map (fst \<circ> snd) ns))]
   \<and> num (note_all ns robots_init) = length (nub (map (fst \<circ> snd) ns))"
proof (induction ns rule: rev_induct)
  case Nil
  then show ?case by (simp add: robots_init_def nub_def)
next
  case (snoc x ns)
  obtain n a f where x: "x = (n, a, f)" by (cases x) auto
  show ?case
    using snoc.IH
    by (auto simp: x noteaddr_numbering nub_snoc map_fst_zip simp del: set_map)
qed

definition noted :: "(string option \<Rightarrow> bool) \<Rightarrow> robot_note list \<Rightarrow> (string \<times> ipv4) list" where
  "noted P ns = map (\<lambda>(n, a, f). (n, a)) (filter (\<lambda>(n, a, f). P f) ns)"

lemma noted_simps [simp]:
  "noted P [] = []"
  "noted P (ns @ [(n, a, f)]) = noted P ns @ (if P f then [(n, a)] else [])"
  by (simp_all add: noted_def)

lemma noted_numbered:
  assumes "map_of (rev (noted P ns)) n = Some a"
  shows "din a (address_numbering (note_all ns robots_init))"
proof -
  have "(n, a) \<in> set (noted P ns)" using map_of_SomeD [OF assms] by simp
  then have "a \<in> set (nub (map (fst \<circ> snd) ns))" by (force simp: noted_def)
  then show ?thesis
    using note_all_numbering [of ns] by (simp add: map_fst_zip del: set_map set_nub)
qed

lemma noteaddr_numbering_ext:
  "din b (address_numbering s) \<Longrightarrow>
     dget (address_numbering (noteaddr n a f s)) b = dget (address_numbering s) b"
  by (auto simp: noteaddr_numbering map_add_def din_iff simp del: set_map)

lemma noteaddr_numbers: "\<exists>i. dget (address_numbering (noteaddr n a f s)) a = Some i"
  by (auto simp: noteaddr_numbering map_add_def din_iff simp del: set_map split: option.splits)

lemma note_all_tables:
  "dget (robot_out_addrs (note_all ns robots_init)) n
     = Option.bind (map_of (rev (noted sends ns)) n) (dget (address_numbering (note_all ns robots_init)))
   \<and> dget (robot_inc_addrs (note_all ns robots_init)) n
     = Option.bind (map_of (rev (noted receives ns)) n) (dget (address_numbering (note_all ns robots_init)))"
proof (induction ns rule: rev_induct)
  case Nil
  then show ?case by (simp add: robots_init_def)
next
  case (snoc x ns)
  obtain m a f where x: "x = (m, a, f)" by (cases x) auto
  let ?s = "note_all ns robots_init"
  obtain i where i: "dget (address_numbering (noteaddr m a f ?s)) a = Some i"
    using noteaddr_numbers by blast
  have ext: "Option.bind (map_of (rev (noted P ns)) n) (dget (address_numbering (noteaddr m a f ?s)))
      = Option.bind (map_of (rev (noted P ns)) n) (dget (address_numbering ?s))" for P
    by (cases "map_of (rev (noted P ns)) n") (auto dest!: noted_numbered noteaddr_numbering_ext)
  show ?case
    using snoc.IH ext [of sends] ext [of receives] i by (auto simp: x noteaddr_tables [OF i] pyd.get_put)
qed

lemma number_servers_zip:
  "length servers \<ge> i + length ks \<Longrightarrow>
   fold (\<lambda>(a, n) servers. servers[n := Some a]) (zip ks [i..<i + length ks]) servers
     = take i servers @ map Some ks @ drop (i + length ks) servers"
proof (induction ks arbitrary: i servers)
  case (Cons k ks)
  have "[i..<i + length (k # ks)] = i # [Suc i..<Suc i + length ks]"
    by (subst upt_rec) simp
  then show ?case using Cons.IH [of "Suc i" "servers[i := Some k]"] Cons.prems
    by (simp add: take_Suc_conv_app_nth upd_conv_take_nth_drop ac_simps)
qed simp

lemma number_servers_nub: "number_servers (zip ks [0..<length ks]) = map Some ks"
  using number_servers_zip [of 0 ks "replicate (length ks) None"] by (simp add: number_servers_def)

text \<open>
  C4: the servers of the mail robots are numbered without gaps by first mention, every server
  once: the server that is mentioned for the first time after mentions of \<open>n\<close> others has
  number \<open>n\<close>. The number under which a robot name is found in the outgoing (or the incoming)
  table is the position of the server that the last robot of that name and flow gave.
\<close>

theorem mail_robots_numbering:
  assumes "find_elem xdata ''mail_in_DMZ'' = Some m"
    and "rmap robot_notes (findall m ''robot'') = Inr nss"
    and "mentions = map (\<lambda>(name, addr, flow). addr) (concat nss)"
  shows "\<exists>rob ks. mail_robots xdata = Inr rob
    \<and> robot_servers rob = map Some ks \<and> distinct ks \<and> set ks = set mentions
    \<and> (\<forall>i < length mentions. mentions ! i \<notin> set (take i mentions) \<longrightarrow>
          card (set (take i mentions)) < length ks \<and> ks ! card (set (take i mentions)) = mentions ! i)
    \<and> (\<forall>n i. dget (robot_outgoing_addresses rob) n = Some i \<longleftrightarrow>
          i < length ks \<and> map_of (rev (noted sends (concat nss))) n = Some (ks ! i))
    \<and> (\<forall>n i. dget (robot_incoming_addresses rob) n = Some i \<longleftrightarrow>
          i < length ks \<and> map_of (rev (noted receives (concat nss))) n = Some (ks ! i))"
proof -
  let ?s = "note_all (concat nss) robots_init" and ?ks = "nub (map (fst \<circ> snd) (concat nss))"
  have ms: "mentions = map (fst \<circ> snd) (concat nss)"
    unfolding assms(3) by (intro map_cong) auto
  let ?rob = "\<lparr>robot_servers = map Some ?ks, robot_outgoing_addresses = robot_out_addrs ?s,
    robot_incoming_addresses = robot_inc_addrs ?s\<rparr>"
  have num: "address_numbering ?s = zip ?ks [0..<length ?ks]" by (simp add: note_all_numbering)
  have run: "mail_robots xdata = Inr ?rob"
    using assms by (simp add: mail_robots_def robot_loop_notes num number_servers_nub)
  have pos: "dget (zip ?ks [0..<length ?ks]) a = Some i \<longleftrightarrow> i < length ?ks \<and> ?ks ! i = a" for a i
    by (auto simp: map_of_zip_is_Some in_set_zip distinct_nub map_fst_zip
        intro!: map_of_is_SomeI dest!: map_of_SomeD)
  have tab: "dget (robot_out_addrs ?s) n = Some i \<longleftrightarrow>
          i < length ?ks \<and> map_of (rev (noted sends (concat nss))) n = Some (?ks ! i)"
      "dget (robot_inc_addrs ?s) n = Some i \<longleftrightarrow>
          i < length ?ks \<and> map_of (rev (noted receives (concat nss))) n = Some (?ks ! i)" for n i
    using note_all_tables [of "concat nss" n] by (auto simp: num pos bind_eq_Some_conv)
  show ?thesis
    by (rule exI [of _ ?rob], rule exI [of _ ?ks])
      (simp add: run tab ms nub_first_mention del: map_concat)
qed

definition sample_robots :: elem where
  "sample_robots = node ''Properties'' [node ''mail_in_DMZ''
     [Elem ''robot'' None [(''flow'', ''sendonly'')] [leaf ''name'' '' alarm '', leaf ''ip'' ''10.3.0.5''],
      Elem ''robot'' None [] [leaf ''name'' ''wiki'', leaf ''ip'' ''10.3.0.6'']]]"

theorem mail_robots_numbering_witness:
  "\<exists>rob. mail_robots sample_robots = Inr rob
     \<and> robot_servers rob ! 0 = Some 167968773 \<and> robot_servers rob ! 1 = Some 167968774
     \<and> dget (robot_outgoing_addresses rob) ''wiki'' = Some 1"
proof -
  let ?m = "the (find_elem sample_robots ''mail_in_DMZ'')"
  let ?nss = "[[(''alarm'', 167968773, Some ''sendonly'')], [(''wiki'', 167968774, None)]]"
  have m: "find_elem sample_robots ''mail_in_DMZ'' = Some ?m"
    by (simp add: sample_robots_def xml_eval)
  have "ip_address ''10.3.0.5'' = Inr 167968773" "ip_address ''10.3.0.6'' = Inr 167968774"
    by (simp_all add: parse_eval)
  moreover have "py_strip ''10.3.0.5'' = ''10.3.0.5''" "py_strip ''10.3.0.6'' = ''10.3.0.6''"
    "py_strip '' alarm '' = ''alarm''" "py_strip ''wiki'' = ''wiki''"
    by (simp_all add: strip_eval)
  ultimately have run: "rmap robot_notes (findall ?m ''robot'') = Inr ?nss"
    by (simp add: sample_robots_def xml_eval robot_notes_def)
  define ms :: "ipv4 list" where "ms = [167968773, 167968774]"
  then have ms: "ms = map (\<lambda>(name, addr, flow). addr) (concat ?nss)" by simp
  obtain rob ks where r: "mail_robots sample_robots = Inr rob" "robot_servers rob = map Some ks"
    "\<forall>i < length ms. ms ! i \<notin> set (take i ms) \<longrightarrow>
          card (set (take i ms)) < length ks \<and> ks ! card (set (take i ms)) = ms ! i"
    "\<forall>n i. dget (robot_outgoing_addresses rob) n = Some i \<longleftrightarrow>
          i < length ks \<and> map_of (rev (noted sends (concat ?nss))) n = Some (ks ! i)"
    using mail_robots_numbering [OF m run ms] by (elim exE conjE) (rule that)
  have ks: "0 < length ks" "ks ! 0 = 167968773" "1 < length ks" "ks ! 1 = 167968774"
    using r(3) [rule_format, of 0] r(3) [rule_format, of 1] by (simp_all add: ms_def)
  have "map_of (rev (noted sends (concat ?nss))) ''wiki'' = Some 167968774"
    by (simp add: noted_def sends_def)
  then have "dget (robot_outgoing_addresses rob) ''wiki'' = Some 1"
    using r(4) [rule_format, of "''wiki''" 1] ks by simp
  with r(1,2) ks show ?thesis by (intro exI [of _ rob]) simp
qed

section \<open>Who serves SSH\<close>

text \<open>
  SSH is served by exactly one of the router and the terminal server when it is allowed
  from outside or inside and by neither otherwise; by the terminal server only when there is
  one.
\<close>

lemma ssh_served_once:
  "let f = firewall_flags_of xdata fh in
     (ssh_to_router f \<noteq> ssh_to_ltsp f) = (ssh_from_ext f \<or> ssh_from_int f)
   \<and> \<not> (ssh_to_router f \<and> ssh_to_ltsp f)
   \<and> (ssh_to_ltsp f = (din (Some ''ltsp'') fh \<and> has_elem xdata ''forward_ssh_to_ltsp''
        \<and> (has_elem xdata ''ssh_from_ext'' \<or> has_elem xdata ''ssh_from_int'')))"
  by (auto simp: firewall_flags_of_def Let_def simp del: set_map)

definition sample_ssh :: elem where
  "sample_ssh = node ''Properties'' [node ''ssh_from_ext'' [], node ''forward_ssh_to_ltsp'' []]"

lemma ssh_served_once_applied:
  "ssh_to_ltsp (firewall_flags_of sample_ssh [(Some ''ltsp'', ''ts.example.org'')])
   \<and> \<not> ssh_to_router (firewall_flags_of sample_ssh [(Some ''ltsp'', ''ts.example.org'')])"
proof -
  have "has_elem sample_ssh ''ssh_from_ext''" "has_elem sample_ssh ''forward_ssh_to_ltsp''"
    by (simp_all add: sample_ssh_def xml_eval)
  with ssh_served_once [of sample_ssh "[(Some ''ltsp'', ''ts.example.org'')]"]
  show ?thesis by (auto simp: Let_def)
qed

section \<open>Static routes\<close>

definition route_ok :: "elem \<Rightarrow> route \<Rightarrow> bool" where
  "route_ok r x \<longleftrightarrow> rbind (find_stripped r ''network'') ip_network = Inr (fst x)
     \<and> rbind (find_stripped r ''via'') ip_address = Inr (snd x)"

lemma route_step_Inr:
  "route_step netif N r acc = Inr acc' \<longleftrightarrow> (\<exists>x. route_ok r x \<and> in_net (snd x) N \<and> acc' = acc @ [x])"
  unfolding route_step_def rbind_Inr_iff [of "rbind (find_stripped r ''network'') ip_network"]
    rbind_Inr_iff [of "rbind (find_stripped r ''via'') ip_address"]
  by (auto simp: route_ok_def split: if_splits)

lemma route_loop:
  "rfold (route_step netif N) rs acc = Inr acc' \<longleftrightarrow>
     (\<exists>xs. acc' = acc @ xs \<and> list_all2 route_ok rs xs \<and> (\<forall>x \<in> set xs. in_net (snd x) N))"
proof (induction rs arbitrary: acc)
  case (Cons r rs)
  have "rfold (route_step netif N) (r # rs) acc = Inr acc' \<longleftrightarrow>
    (\<exists>x. route_ok r x \<and> in_net (snd x) N \<and> rfold (route_step netif N) rs (acc @ [x]) = Inr acc')"
    by (auto simp: rbind_Inr_iff [of "route_step netif N r acc"] route_step_Inr)
  also have "\<dots> \<longleftrightarrow> (\<exists>x xs. route_ok r x \<and> in_net (snd x) N \<and> acc' = acc @ x # xs
      \<and> list_all2 route_ok rs xs \<and> (\<forall>x \<in> set xs. in_net (snd x) N))"
    by (simp add: Cons.IH)
  also have "\<dots> \<longleftrightarrow> (\<exists>xs. acc' = acc @ xs \<and> list_all2 route_ok (r # rs) xs \<and> (\<forall>x \<in> set xs. in_net (snd x) N))"
    by (auto simp: list_all2_Cons1)
  finally show ?case .
qed (simp add: eq_commute)

definition netif_routes :: "elem \<Rightarrow> string \<times> ipnet \<Rightarrow> route list \<Rightarrow> bool" where
  "netif_routes xdata x xs \<longleftrightarrow> list_all2 route_ok (findall xdata (''static_route_'' @ net_type (fst x))) xs
     \<and> (\<forall>r \<in> set xs. in_net (snd r) (snd x))"

lemma netif_routes_unique: "netif_routes xdata x xs \<Longrightarrow> netif_routes xdata x ys \<Longrightarrow> xs = ys"
proof -
  have u: "route_ok r x \<Longrightarrow> route_ok r y \<Longrightarrow> x = y" for r x y
    by (cases x; cases y) (auto simp: route_ok_def)
  have "list_all2 route_ok rs xs \<Longrightarrow> list_all2 route_ok rs ys \<Longrightarrow> xs = ys" for rs xs ys
    by (induction rs arbitrary: xs ys) (auto simp: list_all2_Cons1 dest: u)
  then show "netif_routes xdata x xs \<Longrightarrow> netif_routes xdata x ys \<Longrightarrow> xs = ys"
    by (auto simp: netif_routes_def)
qed

lemma netif_routes_step_Inr:
  "netif_routes_step xdata x t = Inr t' \<longleftrightarrow>
     (\<exists>xs. netif_routes xdata x xs \<and> t' = (if xs = [] then t else dput (fst x) xs t))"
  by (cases x) (auto simp: netif_routes_step_def rbind_Inr_iff route_loop netif_routes_def)

lemma static_routes_loop:
  assumes "rfold (netif_routes_step xdata) nets t = Inr t'" and "distinct (dkeys nets)"
    and "\<forall>k \<in> set (dkeys nets). dget t k = None"
  shows "(\<forall>x \<in> set nets. \<exists>xs. netif_routes xdata x xs \<and> dget t' (fst x) = (if xs = [] then None else Some xs))
    \<and> (\<forall>k. k \<notin> set (dkeys nets) \<longrightarrow> dget t' k = dget t k)"
  using assms
proof (induction nets arbitrary: t)
  case (Cons x nets)
  from Cons.prems(1) obtain xs where xs: "netif_routes xdata x xs"
      "rfold (netif_routes_step xdata) nets (if xs = [] then t else dput (fst x) xs t) = Inr t'"
    by (auto simp: rbind_Inr_iff [of "netif_routes_step xdata x t"] netif_routes_step_Inr)
  have "\<forall>k \<in> set (dkeys nets). dget (if xs = [] then t else dput (fst x) xs t) k = None"
    using Cons.prems(2,3) by (auto simp: pyd.get_put rev_image_eqI)
  from Cons.IH [OF xs(2) _ this] Cons.prems(2,3) xs(1)
  show ?case by (auto simp: pyd.get_put split: if_splits)
qed simp

text \<open>
  C23: when the script accepts the static routes, every network's list holds the routes that
  \<open>firewall.xml\<close> gives for it, in that order and each through a gateway inside the network, no
  list is empty, and there are no other lists.
\<close>

theorem static_routes_inside:
  assumes "static_routes_of xdata nets = Inr routes" and "distinct (dkeys nets)"
  shows "(\<forall>(netif, N) \<in> set nets. \<exists>xs.
      list_all2 route_ok (findall xdata (''static_route_'' @ net_type netif)) xs
      \<and> (\<forall>(net, via) \<in> set xs. in_net via N)
      \<and> dget routes netif = (if xs = [] then None else Some xs))
    \<and> set (dkeys routes) \<subseteq> set (dkeys nets)"
proof -
  have r: "(\<forall>x \<in> set nets. \<exists>xs. netif_routes xdata x xs \<and> dget routes (fst x) = (if xs = [] then None else Some xs))"
      "\<forall>k. k \<notin> set (dkeys nets) \<longrightarrow> dget routes k = dget [] k"
    using static_routes_loop [OF assms(1) [unfolded static_routes_of_def] assms(2)] by auto
  have "set (dkeys routes) \<subseteq> set (dkeys nets)"
    using r(2) by (metis din_iff map_of.simps(1) option.distinct(1) subsetI)
  with r(1) show ?thesis by (fastforce simp: netif_routes_def)
qed

definition sample_routes :: elem where
  "sample_routes = node ''Properties'' [node ''static_route_pub''
     [leaf ''network'' ''10.9.0.0/16'', leaf ''via'' ''10.1.0.9'']]"

theorem static_routes_inside_witness:
  "static_routes_of sample_routes [(''pubif'', IPNet 167837696 16)]
     = Inr [(''pubif'', [(IPNet 168361984 16, 167837705)])]
   \<and> set (dkeys [(''pubif'', [(IPNet 168361984 16, 167837705 :: ipv4)])]) \<subseteq> {''pubif''}"
proof -
  have "ip_network ''10.9.0.0/16'' = Inr (IPNet 168361984 16)" "ip_address ''10.1.0.9'' = Inr 167837705"
    by (simp_all add: parse_eval)
  moreover have "py_strip ''10.9.0.0/16'' = ''10.9.0.0/16''" "py_strip ''10.1.0.9'' = ''10.1.0.9''"
    by (simp_all add: strip_eval)
  moreover have "in_net 167837705 (IPNet 167837696 16)" by (simp add: net_eval)
  ultimately have run: "static_routes_of sample_routes [(''pubif'', IPNet 167837696 16)]
     = Inr [(''pubif'', [(IPNet 168361984 16, 167837705)])]"
    by (simp add: static_routes_of_def netif_routes_step_def route_step_def sample_routes_def xml_eval
        net_type_def)
  then show ?thesis using static_routes_inside [OF run] by simp
qed

end
