(* ===== verification/Networking.thy ===== *)
theory Networking
  imports Networks Firewall BaseParams
begin

text \<open>
  \<open>Python/30_networking.py\<close>: what the host being configured is in the installation. Its
  entry and the router's in \<open>umbrella.xml\<close>, the addresses the router is visible at, the main
  interfaces of the function hosts, the settings a workstation inherits from its place in
  \<open>organization.xml\<close>, and the canonical name of the system.
\<close>

section \<open>Model\<close>

subsection \<open>The stanza of an interface\<close>

definition netnames :: "(string, string) dict" where
  "netnames =
    [(''extif'', ''External network (accesible from Internet directly)''),
     (''intif'', ''Legacy organization'' @ [CHR 0x27] @ ''s intranet''),
     (''pubif'', ''Network for public workstations with Internet access''),
     (''secif'', ''Network for secured workstations with no Internet access''),
     (''DMZif'', ''DMZ for Internet-accessible servers''),
     (''vpnif'', ''Network for workstations, connecting via VPN''),
     (''winif'', ''Network for Windows workstations and other insecure devices'')]"

definition bridge_head :: "string \<Rightarrow> string option \<Rightarrow> string result" where
  "bridge_head tag bridgeddev =
    (if bridgeddev = Some ''none'' then Inr []
     else rbind (need TypeError bridgeddev) (\<lambda>dev.
       Inr (''# bridged'' @ (case dget netnames tag of Some n \<Rightarrow> '' to '' @ n | None \<Rightarrow> []) @ nl
         @ ''auto '' @ dev @ nl @ ''iface '' @ dev @ '' inet manual'' @ nl @ nl)))"

text \<open>
  The lines of a static address. The script calls the network mask, which is an address and no
  method, and appends an address to a string; Python answers either with a \<open>TypeError\<close>.
\<close>

definition call_address :: "ipv4 \<Rightarrow> string result" where
  "call_address a = Inl TypeError"

definition append_address :: "string \<Rightarrow> ipv4 \<Rightarrow> string result" where
  "append_address s a = Inl TypeError"

definition nameserver_of ::
  "client_metadata \<Rightarrow> (string, ipv4) dict \<Rightarrow> string \<Rightarrow> elem option \<Rightarrow> string option result" where
  "nameserver_of metadata rifs tag gateway =
    (if gateway \<noteq> None \<and> tag \<noteq> ''extif'' \<and> tag \<noteq> ''intif'' then Inr (Option.bind gateway etext)
     else if ''backdoor'' \<in> set (groups metadata)
     then (if tag \<noteq> ''extif'' \<and> tag \<noteq> ''intif''
           then rbind (dict_item rifs ''pubif'') (\<lambda>a. Inr (Some (str_ip a))) else Inr None)
     else Inr (Some ''127.0.0.1''))"

definition option_lines :: "string \<Rightarrow> elem list \<Rightarrow> string result" where
  "option_lines pre es = rfold (\<lambda>e r. rbind (need TypeError (etext e)) (\<lambda>t. Inr (r @ pre @ t @ nl))) es []"

definition static_lines ::
  "(string, ipnet) dict \<Rightarrow> string \<Rightarrow> client_metadata \<Rightarrow> (string, ipv4) dict \<Rightarrow> elem \<Rightarrow> string \<Rightarrow> string \<Rightarrow> string result" where
  "static_lines nets dn metadata rifs interface dev ip =
    (let tag = etag interface; gateway = find_elem interface ''gateway'' in
     rbind (dict_item nets tag) (\<lambda>net.
     rbind (call_address (netmask net)) (\<lambda>mask.
     rbind (append_address ''    network '' (network_address net)) (\<lambda>network.
     rbind (case gateway of None \<Rightarrow> Inr []
        | Some g \<Rightarrow> rbind (need TypeError (etext g)) (\<lambda>t. Inr (''    gateway '' @ t @ nl))) (\<lambda>gw.
     rbind (nameserver_of metadata rifs tag gateway) (\<lambda>nameserver.
     rbind (option_lines ''    '' (findall interface ''option'')) (\<lambda>options.
     rbind (option_lines ''    up '' (findall interface ''up'')) (\<lambda>ups.
     Inr (''iface '' @ dev @ '' inet static'' @ nl
       @ ''    address '' @ ip @ nl
       @ ''    netmask '' @ mask @ nl
       @ network @ nl
       @ gw
       @ (case nameserver of None \<Rightarrow> []
          | Some s \<Rightarrow> ''    dns-nameservers '' @ s @ nl @ ''    dns-search '' @ dn @ nl)
       @ (if ''virt-lxc'' \<notin> set (groups metadata) \<or> ''nfs'' \<in> set (groups metadata)
          then ''    post-up /sbin/ifconfig '' @ dev @ '' txqueuelen 4'' @ nl else [])
       @ options @ ups)))))))))"

definition inet_lines ::
  "(string, ipnet) dict \<Rightarrow> string \<Rightarrow> client_metadata \<Rightarrow> (string, ipv4) dict \<Rightarrow> elem \<Rightarrow> string \<Rightarrow> string result" where
  "inet_lines nets dn metadata rifs interface dev = (case find_elem interface ''ip'' of
      None \<Rightarrow> Inr (''iface '' @ dev @ '' inet manual'' @ nl)
    | Some ip \<Rightarrow> (case filled (etext ip) of
         None \<Rightarrow> Inr (''iface '' @ dev @ '' inet dhcp'' @ nl)
       | Some t \<Rightarrow> static_lines nets dn metadata rifs interface dev t))"

definition route_lines :: "string \<Rightarrow> string \<Rightarrow> string" where
  "route_lines net via =
     ''    up ip route add '' @ net @ '' via '' @ via @ '' || true '' @ nl
     @ ''    down ip route delete '' @ net @ '' via '' @ via @ '' || true '' @ nl"

definition interface_stanza ::
  "elem \<Rightarrow> (string, ipnet) dict \<Rightarrow> string \<Rightarrow> client_metadata \<Rightarrow> (string, ipv4) dict
    \<Rightarrow> (string option, ipv4) dict \<Rightarrow> (string, route list) dict \<Rightarrow> string result" where
  "interface_stanza interface nets dn metadata rifs fifs routes =
    (let tag = etag interface; bridged = find_elem interface ''bridged'' in
     rbind (case bridged of None \<Rightarrow> Inr [] | Some b \<Rightarrow> bridge_head tag (etext b)) (\<lambda>head.
     rbind (find_text interface ''dev'') (\<lambda>dev.
     rbind (need TypeError dev) (\<lambda>dev.
     rbind (inet_lines nets dn metadata rifs interface dev) (\<lambda>inet.
     rbind (case find_elem interface ''vlandev'' of None \<Rightarrow> Inr []
        | Some v \<Rightarrow> rbind (need TypeError (etext v)) (\<lambda>v. Inr (''    vlan-raw-device '' @ v @ nl))) (\<lambda>vlan.
     Inr (head
       @ (case dget netnames tag of Some n \<Rightarrow> ''# '' @ n @ nl | None \<Rightarrow> [])
       @ ''auto '' @ dev @ nl @ inet
       @ (case Option.bind bridged etext of None \<Rightarrow> []
          | Some b \<Rightarrow> ''    bridge_ports '' @ b @ nl @ ''    bridge_stp off'' @ nl
              @ ''    bridge_fd 0'' @ nl @ ''    bridge_maxwait 0'' @ nl)
       @ vlan
       @ (case (dget fifs (Some ''DMZvpn''), dget nets ''vpnif'') of
            (Some dmzvpn, Some vpnet) \<Rightarrow>
              if ''router'' \<in> set (groups metadata) \<and> tag = ''DMZif''
              then route_lines (str_net vpnet) (str_ip dmzvpn) else []
          | _ \<Rightarrow> [])
       @ (case dget routes tag of None \<Rightarrow> []
          | Some rs \<Rightarrow> concat (map (\<lambda>(n, v). route_lines (str_net n) (str_ip v)) rs)))))))))"

subsection \<open>Settings inherited in the organization\<close>

text \<open>The network a unit is matched by: \<open>network_match\<close> over \<open>network\<close>; an empty one matches nothing.\<close>

definition unit_network :: "elem \<Rightarrow> ipnet option result" where
  "unit_network e = (case find_elem e ''network_match'' of
      None \<Rightarrow> (case find_elem e ''network'' of None \<Rightarrow> Inr None
        | Some n \<Rightarrow> rbind (ip_network_opt (etext n)) (\<lambda>n. Inr (Some n)))
    | Some n \<Rightarrow> (case filled (etext n) of None \<Rightarrow> Inr None
        | Some _ \<Rightarrow> rbind (ip_network_opt (etext n)) (\<lambda>n. Inr (Some n))))"

text \<open>\<open>ip in network\<close> with \<open>ip\<close> being \<open>None\<close> raises.\<close>

definition unit_matches :: "ipv4 option \<Rightarrow> elem \<Rightarrow> bool result" where
  "unit_matches ip e = rbind (unit_network e) (\<lambda>network.
     case network of None \<Rightarrow> Inr False
     | Some n \<Rightarrow> rbind (need AttributeError ip) (\<lambda>a. Inr (in_net a n)))"

definition tag_value :: "string \<Rightarrow> elem \<Rightarrow> string option" where
  "tag_value name e = Option.bind (find_elem e name) etext"

function accumulate_tags :: "elem \<Rightarrow> ipv4 option \<Rightarrow> string \<Rightarrow> (string list \<times> bool) result" where
  "accumulate_tags element ip name =
    (let val = tag_value name element in
     rbind (unit_matches ip element) (\<lambda>m.
     if m then Inr (case val of Some v \<Rightarrow> [v] | None \<Rightarrow> [], True)
     else rbind (rfirst (\<lambda>sub. rbind (accumulate_tags sub ip name) (\<lambda>(vs, found).
                   Inr (if found then Some vs else None))) (findall element ''ou'')) (\<lambda>r.
       case r of Some vs \<Rightarrow> Inr (case val of Some v \<Rightarrow> vs @ [v] | None \<Rightarrow> vs, True)
       | None \<Rightarrow> Inr ([], False))))"
  by pat_completeness auto
termination
  by (relation "measure (\<lambda>(e, _, _). size e)") (auto dest: findall_size)

declare accumulate_tags.simps [simp del]

text \<open>
  The variables taken from it: the deepest value when a unit matches. Two of them keep the
  pair \<open>([], False)\<close> when none does, the others get a default.
\<close>

datatype ws_value = Deepest string | Unmatched

definition ws_first :: "elem option \<Rightarrow> ipv4 option \<Rightarrow> string \<Rightarrow> ws_value result" where
  "ws_first ou ip name =
    rbind (need AttributeError ou) (\<lambda>ou.
    rbind (accumulate_tags ou ip name) (\<lambda>(vs, found).
    if found then (case vs of [] \<Rightarrow> Inl IndexError | v # _ \<Rightarrow> Inr (Deepest v)) else Inr Unmatched))"

record ws_params =
  ws_org_network :: ws_value
  ws_org_gateway :: ws_value
  ws_org_users_group :: "string option"
  ws_org_admin_group :: "string list"
  organization_host :: bool

definition workstation_params :: "elem \<Rightarrow> ipv4 option \<Rightarrow> ws_params result" where
  "workstation_params organization ip =
    (let ou = find_elem organization ''ou'' in
     rbind (ws_first ou ip ''network'') (\<lambda>network.
     rbind (ws_first ou ip ''gateway'') (\<lambda>gateway.
     rbind (ws_first ou ip ''users_group'') (\<lambda>users.
     rbind (need AttributeError ou) (\<lambda>ou.
     rbind (accumulate_tags ou ip ''admin_group'') (\<lambda>(admins, found).
     Inr \<lparr>ws_org_network = network, ws_org_gateway = gateway,
          ws_org_users_group = (case users of Deepest u \<Rightarrow> Some u | Unmatched \<Rightarrow> None),
          ws_org_admin_group = (if found then admins else []),
          organization_host = (network \<noteq> Unmatched)\<rparr>))))))"

subsection \<open>The host's entry and the router\<close>

definition text_is :: "string option \<Rightarrow> string \<Rightarrow> bool" where
  "text_is x s \<longleftrightarrow> x = Some s"

definition find_hosts_step ::
  "string \<Rightarrow> elem \<Rightarrow> elem option \<times> elem option \<Rightarrow> (elem option \<times> elem option) result" where
  "find_hosts_step host server x = (case x of (entry, router) \<Rightarrow>
     rbind (find_text server ''name'') (\<lambda>srvname.
     rbind (find_text server ''function'') (\<lambda>srvfunc.
     rbind (if text_is srvname host
            then (if entry = None then Inr (Some server)
                  else Inl (TemplateError (''Multiple entries in umbrella.xml for '' @ host @ '' .'')))
            else Inr entry) (\<lambda>entry.
     rbind (if text_is srvfunc ''router''
            then (if router = None then Inr (Some server)
                  else Inl (TemplateError ''Multiple routers are declared in umbrella.xml .''))
            else Inr router) (\<lambda>router.
     Inr (entry, router))))))"

definition find_hosts :: "string \<Rightarrow> elem \<Rightarrow> (elem option \<times> elem option) result" where
  "find_hosts host umbrella = rfold (find_hosts_step host) (findall umbrella ''server'') (None, None)"

definition iftypes :: "string list" where
  "iftypes = [''extif'', ''intif'', ''pubif'', ''secif'', ''DMZif'', ''vpnif'', ''winif'']"

text \<open>The router's interfaces; without a router its MAC addresses are never assigned.\<close>

record router_tables =
  routerifs :: "(string, ipv4) dict"
  routerifdevs :: "(string, string option) dict"
  routerifmacs :: "(string, string option) dict option"

definition filled_address :: "elem option \<Rightarrow> ipv4 option result" where
  "filled_address t = (case Option.bind t (filled \<circ> etext) of None \<Rightarrow> Inr None
     | Some s \<Rightarrow> rbind (ip_address s) (\<lambda>a. Inr (Some a)))"

definition dput_some :: "'k \<Rightarrow> 'v option \<Rightarrow> ('k, 'v) dict \<Rightarrow> ('k, 'v) dict" where
  "dput_some k v d = (case v of None \<Rightarrow> d | Some x \<Rightarrow> dput k x d)"

definition router_if_step :: "elem \<Rightarrow> string
    \<Rightarrow> (string, ipv4) dict \<times> (string, string option) dict \<times> (string, string option) dict
    \<Rightarrow> ((string, ipv4) dict \<times> (string, string option) dict \<times> (string, string option) dict) result" where
  "router_if_step router interface x = (case x of (ifs, devs, macs) \<Rightarrow>
     (case find_elem router interface of None \<Rightarrow> Inr (ifs, devs, macs)
      | Some t \<Rightarrow>
         rbind (find_text t ''dev'') (\<lambda>dev.
         rbind (find_text t ''mac'') (\<lambda>mac.
         rbind (filled_address (find_elem t ''ip'')) (\<lambda>a.
         Inr (dput_some interface a ifs, dput interface dev devs, dput interface mac macs))))))"

definition router_tables_of :: "elem \<Rightarrow> elem option \<Rightarrow> router_tables result" where
  "router_tables_of organization router = (case router of
      None \<Rightarrow>
        rbind (need AttributeError (find_elem organization ''ou'')) (\<lambda>ou.
        rbind (rbind (find_stripped ou ''gateway'') ip_address) (\<lambda>a.
        Inr \<lparr>routerifs = [(''pubif'', a)], routerifdevs = [(''pubif'', Some ''eth0'')], routerifmacs = None\<rparr>))
    | Some r \<Rightarrow>
        rbind (rfold (router_if_step r) iftypes ([], [], [])) (\<lambda>(ifs, devs, macs).
        Inr \<lparr>routerifs = ifs, routerifdevs = devs, routerifmacs = Some macs\<rparr>))"

text \<open>
  Whether an outer interface is enabled and the address it is visible at: \<open>nat_ip\<close> over \<open>ip\<close>.
  The text of both is stripped without asking whether there is one.
\<close>

definition nonempty :: "string \<Rightarrow> string option" where
  "nonempty s = (if s = [] then None else Some s)"

definition outer_address :: "elem option \<Rightarrow> string \<Rightarrow> (bool \<times> string option) result" where
  "outer_address router interface = (case Option.bind router (\<lambda>r. find_elem r interface) of
      None \<Rightarrow> Inr (False, None)
    | Some t \<Rightarrow>
        rbind (case find_elem t ''ip'' of None \<Rightarrow> Inr (False, None)
           | Some ip \<Rightarrow> rbind (strip_text (etext ip)) (\<lambda>s. Inr (True, nonempty s))) (\<lambda>(enabled, addr).
        case find_elem t ''nat_ip'' of None \<Rightarrow> Inr (enabled, addr)
           | Some ip \<Rightarrow> rbind (strip_text (etext ip)) (\<lambda>s. Inr (enabled, nonempty s))))"

subsection \<open>Interfaces of the function hosts and of the host itself\<close>

definition server_if_step :: "elem \<Rightarrow> string \<Rightarrow> (string, ipv4) dict \<times> (string, string) dict
    \<Rightarrow> ((string, ipv4) dict \<times> (string, string) dict) result" where
  "server_if_step server interface x = (case x of (srvifs, srvmacs) \<Rightarrow>
     let tif = find_elem server interface in
     rbind (filled_address (Option.bind tif (\<lambda>t. find_elem t ''ip''))) (\<lambda>a.
     Inr (dput_some interface a srvifs,
          dput_some interface (Option.bind (Option.bind tif (\<lambda>t. find_elem t ''mac'')) (filled \<circ> etext)) srvmacs)))"

definition func_if_step :: "elem \<Rightarrow> (string option, ipv4) dict \<times> (string option, string) dict
    \<Rightarrow> ((string option, ipv4) dict \<times> (string option, string) dict) result" where
  "func_if_step server x = (case x of (fifs, fmacs) \<Rightarrow>
     rbind (find_text server ''name'') (\<lambda>srvname.
     rbind (find_text server ''function'') (\<lambda>srvfunc.
     rbind (rfold (server_if_step server) iftypes ([], [])) (\<lambda>(srvifs, srvmacs).
     let main = (text_is srvfunc ''router'' \<or> text_is srvfunc ''vmhost'' \<or> text_is srvfunc ''backdoor'') in
     rbind (if main then dict_item srvifs ''pubif''
            else (case dvalues srvifs of [] \<Rightarrow> Inl IndexError | a # _ \<Rightarrow> Inr a)) (\<lambda>ifaddr.
     rbind (if main then dict_item srvmacs ''pubif''
            else (case dvalues srvmacs of [] \<Rightarrow> Inl IndexError | m # _ \<Rightarrow> Inr m)) (\<lambda>ifmac.
     Inr (dput srvfunc ifaddr fifs, dput srvfunc ifmac fmacs)))))))"

definition function_interfaces :: "elem \<Rightarrow> ((string option, ipv4) dict \<times> (string option, string) dict) result" where
  "function_interfaces umbrella = rfold func_if_step (findall umbrella ''server'') ([], [])"

definition host_if_step :: "elem \<Rightarrow> string \<Rightarrow> (string, ipv4) dict \<times> (string, string) dict
    \<Rightarrow> ((string, ipv4) dict \<times> (string, string) dict) result" where
  "host_if_step entry interface x = (case x of (ifs, devs) \<Rightarrow>
     let e = find_elem entry interface in
     rbind (filled_address (Option.bind e (\<lambda>e. find_elem e ''ip''))) (\<lambda>a.
     Inr (dput_some interface a ifs,
          dput_some interface (Option.bind (Option.bind e (\<lambda>e. find_elem e ''dev'')) (filled \<circ> etext)) devs)))"

subsection \<open>The canonical name\<close>

record canonical =
  CANONICAL_hostname :: string
  CANONICAL_domain :: string
  revDNSseen :: bool
  secondaryNameservers :: "(string, string set) dict"
  hostname_aliases :: "(string, string set) dict"

definition discard_function ::
  "(string option, string) dict \<Rightarrow> (string option, string) dict \<Rightarrow> string \<Rightarrow> string set \<Rightarrow> string set result" where
  "discard_function fh fhshort func aliases =
    (if din (Some func) fh then rbind (dict_item fhshort (Some func)) (\<lambda>n. Inr (aliases - {n}))
     else Inr aliases)"

definition revDNS_step :: "elem \<Rightarrow> string \<Rightarrow> canonical \<Rightarrow> canonical result" where
  "revDNS_step domain d_name c = (case find_elem domain ''revDNS'' of None \<Rightarrow> Inr c
    | Some revDNS \<Rightarrow>
        if revDNSseen c
        then Inl (TemplateError (''\"revDNS\" is specified for multiple domain names, ''
               @ ''can only be specified for one.''))
        else Inr (c\<lparr>revDNSseen := True,
                    CANONICAL_hostname := (case etext revDNS of None \<Rightarrow> [] | Some t \<Rightarrow> py_strip t),
                    CANONICAL_domain := d_name\<rparr>))"

definition canonical_step ::
  "(string option, string) dict \<Rightarrow> (string option, string) dict \<Rightarrow> elem \<Rightarrow> canonical \<Rightarrow> canonical result" where
  "canonical_step fh fhshort domain c =
    (if has_elem domain ''master'' then Inr c
     else rbind (find_stripped domain ''name'') (\<lambda>d_name.
       rbind (stripped_texts (findall domain ''alias'')) (\<lambda>aliases.
       rbind (discard_function fh fhshort ''DMZwww'' (set aliases)) (\<lambda>aliases_set.
       rbind (discard_function fh fhshort ''mail'' aliases_set) (\<lambda>aliases_set.
       rbind (stripped_texts (findall domain ''slave'')) (\<lambda>slaves.
       revDNS_step domain d_name
         (c\<lparr>hostname_aliases := dput d_name aliases_set (hostname_aliases c),
            secondaryNameservers := dput d_name (set slaves) (secondaryNameservers c)\<rparr>)))))))"

definition canonical_of ::
  "string \<Rightarrow> (string option, string) dict \<Rightarrow> (string option, string) dict \<Rightarrow> elem \<Rightarrow> canonical result" where
  "canonical_of dn fh fhshort umbrella =
    rfold (canonical_step fh fhshort) (findall umbrella ''domain'')
      \<lparr>CANONICAL_hostname = (case dget fhshort (Some ''DMZsmtp'') of Some h \<Rightarrow> h | None \<Rightarrow> []),
       CANONICAL_domain = dn, revDNSseen = False,
       secondaryNameservers = [], hostname_aliases = []\<rparr>"

definition CANONICAL_FQHN :: "canonical \<Rightarrow> string" where
  "CANONICAL_FQHN c = (if CANONICAL_hostname c \<noteq> [] then CANONICAL_hostname c @ ''.'' @ CANONICAL_domain c
     else CANONICAL_domain c)"

subsection \<open>The script\<close>

text \<open>What depends on whether the host has an entry: its interfaces, or its workstation settings.\<close>

datatype host_role =
    Server "(string, ipv4) dict" "(string, string) dict"
  | Workstation ws_params

record networking =
  entry :: "elem option"
  router :: "elem option"
  rtables :: router_tables
  extif :: "bool \<times> string option"
  intif :: "bool \<times> string option"
  funcifs :: "(string option, ipv4) dict"
  funcmacs :: "(string option, string) dict"
  role :: host_role
  canon :: canonical

definition short_hostname :: "client_metadata \<Rightarrow> string" where
  "short_hostname metadata = hd (py_split CHR ''.'' (hostname metadata))"

definition networking_script ::
  "client_metadata \<Rightarrow> string \<Rightarrow> host_tables \<Rightarrow> ipv4 option \<Rightarrow> elem \<Rightarrow> elem \<Rightarrow> networking result" where
  "networking_script metadata dn t ip umbrella organization =
    rbind (find_hosts (short_hostname metadata) umbrella) (\<lambda>(entry, router).
    rbind (router_tables_of organization router) (\<lambda>rt.
    rbind (outer_address router ''extif'') (\<lambda>ext.
    rbind (outer_address router ''intif'') (\<lambda>int.
    rbind (function_interfaces umbrella) (\<lambda>(fifs, fmacs).
    rbind (case entry of
        Some e \<Rightarrow> rbind (rfold (host_if_step e) iftypes ([], [])) (\<lambda>(ifs, devs). Inr (Server ifs devs))
      | None \<Rightarrow> rbind (workstation_params organization ip) (\<lambda>ws. Inr (Workstation ws))) (\<lambda>r.
    rbind (canonical_of dn (funchosts t) (funchostsshort t) umbrella) (\<lambda>c.
    Inr \<lparr>entry = entry, router = router, rtables = rt, extif = ext, intif = int,
         funcifs = fifs, funcmacs = fmacs, role = r, canon = c\<rparr>)))))))"

section \<open>The place of an address in the organization\<close>

text \<open>The paths from a unit down to each unit below it, in document order.\<close>

function ou_paths :: "elem \<Rightarrow> elem list list" where
  "ou_paths e = [e] # map (\<lambda>p. e # p) (concat (map ou_paths (findall e ''ou'')))"
  by pat_completeness auto
termination
  by (relation "measure size") (auto dest: findall_size)

declare ou_paths.simps [simp del]

lemma ou_paths_not_Nil: "p \<in> set (ou_paths e) \<Longrightarrow> p \<noteq> []"
  by (subst (asm) ou_paths.simps) auto

definition tag_values :: "string \<Rightarrow> elem list \<Rightarrow> string list" where
  "tag_values name p = List.map_filter (tag_value name) (rev p)"

lemma tag_values_Cons: "tag_values name (e # p)
    = tag_values name p @ (case tag_value name e of Some v \<Rightarrow> [v] | None \<Rightarrow> [])"
  by (simp add: tag_values_def List.map_filter_def split: option.splits)

lemma find_extend:
  "(\<And>p. p \<in> set ps \<Longrightarrow> p \<noteq> []) \<Longrightarrow>
     find (\<lambda>p. P (last p)) (map (\<lambda>p. e # p) ps) = map_option (\<lambda>p. e # p) (find (\<lambda>p. P (last p)) ps)"
  by (induction ps) auto

lemma find_concat: "find P (concat xss) = (case filter (\<lambda>x. x \<noteq> None) (map (find P) xss) of [] \<Rightarrow> None | x # _ \<Rightarrow> x)"
proof (induction xss)
  case (Cons xs xss)
  have "find P (xs @ ys) = (case find P xs of None \<Rightarrow> find P ys | Some x \<Rightarrow> Some x)" for ys
    by (induction xs) auto
  then show ?case using Cons.IH by (auto split: option.splits list.splits)
qed simp

text \<open>
  C2: the settings of an address are those along the path to the first matching unit in
  document order, the unit's own setting first and the outermost last; no setting is found
  only when no unit matches.
\<close>

theorem accumulate_tags_first:
  assumes "\<And>p. p \<in> set (ou_paths e) \<Longrightarrow> unit_matches ip (last p) = Inr (matches (last p))"
  shows "accumulate_tags e ip name =
    Inr (case find (\<lambda>p. matches (last p)) (ou_paths e) of None \<Rightarrow> ([], False) | Some p \<Rightarrow> (tag_values name p, True))"
  using assms
proof (induction e ip name rule: accumulate_tags.induct)
  case (1 e ip name)
  let ?sub = "\<lambda>c. find (\<lambda>p. matches (last p)) (ou_paths c)"
  have self: "unit_matches ip e = Inr (matches e)"
    using "1.prems" [of "[e]"] by (simp add: ou_paths.simps [of e])
  have sub: "accumulate_tags c ip name =
      Inr (case ?sub c of None \<Rightarrow> ([], False) | Some p \<Rightarrow> (tag_values name p, True))"
    if "\<not> matches e" "c \<in> set (findall e ''ou'')" for c
  proof (rule "1.IH" [OF refl self that(1) that(2)])
    fix p assume p: "p \<in> set (ou_paths c)"
    then have "e # p \<in> set (ou_paths e)"
      using that(2) by (subst ou_paths.simps) auto
    from "1.prems" [OF this] show "unit_matches ip (last p) = Inr (matches (last p))"
      using ou_paths_not_Nil [OF p] by simp
  qed
  show ?case
  proof (cases "matches e")
    case True
    then show ?thesis
      by (simp add: accumulate_tags.simps [of e] self ou_paths.simps [of e] tag_values_def
          List.map_filter_def Let_def split: option.splits)
  next
    case False
    let ?ous = "findall e ''ou''"
    have "rfirst (\<lambda>sub. rbind (accumulate_tags sub ip name) (\<lambda>(vs, found).
        Inr (if found then Some vs else None))) ?ous
      = Inr (map_option (tag_values name) (find (\<lambda>p. matches (last p)) (concat (map ou_paths ?ous))))"
      by (subst rfirst_pure [where g = "\<lambda>c. map_option (tag_values name) (?sub c)"])
        (auto simp: sub [OF False] find_concat filter_map o_def split: option.splits list.splits)
    moreover have "find (\<lambda>p. matches (last p)) (ou_paths e)
      = map_option (\<lambda>p. e # p) (find (\<lambda>p. matches (last p)) (concat (map ou_paths ?ous)))"
      using False
      by (subst ou_paths.simps, simp) (rule find_extend, auto dest: ou_paths_not_Nil)
    ultimately show ?thesis
      using False
      by (simp add: accumulate_tags.simps [of e] self Let_def tag_values_Cons split: option.splits)
  qed
qed

definition sample_organization :: elem where
  "sample_organization = node ''Properties'' [node ''ou''
     [leaf ''admin_group'' ''admins'', leaf ''gateway'' ''10.1.0.1'', leaf ''bcfg2_profile'' ''base'',
      node ''ou'' [leaf ''name'' ''library'', leaf ''network'' ''10.1.64.0/24'',
                   leaf ''users_group'' ''readers'', leaf ''admin_group'' ''libadmins''],
      node ''ou'' [leaf ''name'' ''offices'', node ''ou'' [leaf ''network'' ''10.1.65.0/24'']]]]"

lemma sample_units:
  "ip_network ''10.1.64.0/24'' = Inr (IPNet 167854080 24)"
  "ip_network ''10.1.65.0/24'' = Inr (IPNet 167854336 24)"
  by (simp_all add: parse_eval)

theorem accumulate_tags_first_witness:
  "accumulate_tags (the (find_elem sample_organization ''ou'')) (Some 167854085) ''admin_group''
     = Inr ([''libadmins'', ''admins''], True)"
proof -
  let ?e = "the (find_elem sample_organization ''ou'')"
  let ?m = "\<lambda>e. case unit_network e of Inr (Some n) \<Rightarrow> in_net 167854085 n | _ \<Rightarrow> False"
  have nets: "in_net 167854085 (IPNet 167854080 24)" "\<not> in_net 167854085 (IPNet 167854336 24)"
    by (simp_all add: net_eval)
  note ev = sample_organization_def xml_eval unit_network_def ip_network_opt_def sample_units nets
  have m: "unit_matches (Some 167854085) (last p) = Inr (?m (last p))" if "p \<in> set (ou_paths ?e)" for p
    using that by (auto simp: ou_paths.simps unit_matches_def ev)
  have "find (\<lambda>p. ?m (last p)) (ou_paths ?e) = Some [?e, hd (findall ?e ''ou'')]"
    by (simp add: ou_paths.simps ev)
  moreover have "tag_values ''admin_group'' [?e, hd (findall ?e ''ou'')] = [''libadmins'', ''admins'']"
    by (simp add: tag_values_def tag_value_def List.map_filter_def ev)
  ultimately show ?thesis using accumulate_tags_first [OF m] by simp
qed

section \<open>The entries of the host and of the router\<close>

text \<open>At most one element has the property, and it becomes the value of the variable.\<close>

definition one_of :: "('a \<Rightarrow> bool) \<Rightarrow> 'a list \<Rightarrow> 'a option \<Rightarrow> 'a option \<Rightarrow> bool" where
  "one_of P xs old new \<longleftrightarrow> (case filter P xs of [] \<Rightarrow> new = old
     | [x] \<Rightarrow> old = None \<and> new = Some x | _ \<Rightarrow> False)"

definition claim :: "bool \<Rightarrow> 'a \<Rightarrow> 'a option \<Rightarrow> 'a option \<Rightarrow> bool" where
  "claim b x old new \<longleftrightarrow> (if b then old = None \<and> new = Some x else new = old)"

lemma one_of_Nil [simp]: "one_of P [] old new \<longleftrightarrow> new = old"
  by (simp add: one_of_def)

lemma one_of_Cons: "one_of P (x # xs) old new \<longleftrightarrow> (\<exists>mid. claim (P x) x old mid \<and> one_of P xs mid new)"
  by (auto simp: one_of_def claim_def split: list.splits)

definition is_host :: "string \<Rightarrow> elem \<Rightarrow> bool" where
  "is_host host s \<longleftrightarrow> find_text s ''name'' = Inr (Some host)"

definition is_router :: "elem \<Rightarrow> bool" where
  "is_router s \<longleftrightarrow> find_text s ''function'' = Inr (Some ''router'')"

lemma find_hosts_step_Inr:
  "find_hosts_step host s (e0, r0) = Inr (e, r) \<longleftrightarrow> has_elem s ''name'' \<and> has_elem s ''function''
     \<and> claim (is_host host s) s e0 e \<and> claim (is_router s) s r0 r"
proof (cases "has_elem s ''name'' \<and> has_elem s ''function''")
  case True
  then obtain n f where "find_elem s ''name'' = Some n" "find_elem s ''function'' = Some f" by auto
  then show ?thesis by (auto simp: find_hosts_step_def is_host_def is_router_def claim_def text_is_def)
next
  case False
  then show ?thesis
    by (cases "find_elem s ''name''"; cases "find_elem s ''function''") (auto simp: find_hosts_step_def)
qed

lemma find_hosts_loop:
  "rfold (find_hosts_step host) servers (e0, r0) = Inr (e, r) \<longleftrightarrow>
     (\<forall>s \<in> set servers. has_elem s ''name'' \<and> has_elem s ''function'')
     \<and> one_of (is_host host) servers e0 e \<and> one_of is_router servers r0 r"
proof (induction servers arbitrary: e0 r0)
  case Nil
  then show ?case by auto
next
  case (Cons s servers)
  have "rfold (find_hosts_step host) (s # servers) (e0, r0) = Inr (e, r) \<longleftrightarrow>
    (\<exists>e1 r1. find_hosts_step host s (e0, r0) = Inr (e1, r1) \<and> rfold (find_hosts_step host) servers (e1, r1) = Inr (e, r))"
    by (simp add: rbind_Inr_iff split_paired_Ex)
  then show ?case
    unfolding find_hosts_step_Inr Cons.IH one_of_Cons by auto
qed

text \<open>
  C26: the scan of the servers succeeds exactly when every server has a name and a function, at
  most one server bears the host's name and at most one is the router; it then finds those
  servers.
\<close>

theorem find_hosts_unique:
  "find_hosts host umbrella = Inr (e, r) \<longleftrightarrow>
     (\<forall>s \<in> set (findall umbrella ''server''). has_elem s ''name'' \<and> has_elem s ''function'')
     \<and> filter (is_host host) (findall umbrella ''server'') = (case e of None \<Rightarrow> [] | Some s \<Rightarrow> [s])
     \<and> filter is_router (findall umbrella ''server'') = (case r of None \<Rightarrow> [] | Some s \<Rightarrow> [s])"
proof -
  have o: "one_of P xs None x \<longleftrightarrow> filter P xs = (case x of None \<Rightarrow> [] | Some s \<Rightarrow> [s])" for P and xs :: "elem list" and x
    by (auto simp: one_of_def split: list.splits option.splits)
  show ?thesis by (simp only: find_hosts_def find_hosts_loop o)
qed

theorem find_hosts_unique_witness:
  "find_hosts ''prx'' (node ''Properties'' [sample_server ''gw'' ''router'' ''10.1.0.1'' ''m1'',
      sample_server ''prx'' ''proxy'' ''10.1.0.3'' ''m3''])
   = Inr (Some (sample_server ''prx'' ''proxy'' ''10.1.0.3'' ''m3''),
          Some (sample_server ''gw'' ''router'' ''10.1.0.1'' ''m1''))"
  by (subst find_hosts_unique) (simp add: is_host_def is_router_def xml_eval)

section \<open>Stanzas that are printed\<close>

lemma static_lines_raise: "static_lines nets dn metadata rifs interface dev ip \<noteq> Inr r"
  by (cases "dget nets (etag interface)") (simp_all add: static_lines_def call_address_def)

lemma inet_lines_Inr:
  "(\<exists>r. inet_lines nets dn metadata rifs interface dev = Inr r) \<longleftrightarrow>
     (\<forall>ip. find_elem interface ''ip'' = Some ip \<longrightarrow> filled (etext ip) = None)"
  by (auto simp: inet_lines_def static_lines_raise split: option.splits)

text \<open>
  When a stanza is printed: the device has a name, the names of the bridged and of the VLAN device
  are given where the elements are, and the interface has no static address.
\<close>

lemma interface_stanza_returns:
  "(\<exists>r. interface_stanza interface nets dn metadata rifs fifs routes = Inr r) \<longleftrightarrow>
     (\<exists>d. find_elem interface ''dev'' = Some d \<and> etext d \<noteq> None)
   \<and> (\<forall>b. find_elem interface ''bridged'' = Some b \<longrightarrow> etext b \<noteq> None)
   \<and> (\<forall>v. find_elem interface ''vlandev'' = Some v \<longrightarrow> etext v \<noteq> None)
   \<and> (\<forall>ip. find_elem interface ''ip'' = Some ip \<longrightarrow> filled (etext ip) = None)"
proof -
  have head: "(\<exists>r. (case x of None \<Rightarrow> Inr [] | Some b \<Rightarrow> bridge_head tag (etext b)) = Inr r)
      \<longleftrightarrow> (\<forall>b. x = Some b \<longrightarrow> etext b \<noteq> None)" for x tag
    by (auto simp: bridge_head_def result_simps split: option.splits)
  have vlan: "(\<exists>r. (case x of None \<Rightarrow> Inr []
        | Some v \<Rightarrow> rbind (need TypeError (etext v)) (\<lambda>v. Inr (''    vlan-raw-device '' @ v @ nl))) = Inr r)
      \<longleftrightarrow> (\<forall>v. x = Some v \<longrightarrow> etext v \<noteq> None)" for x
    by (auto simp: result_simps split: option.splits)
  have dev: "(\<exists>t. find_text interface ''dev'' = Inr (Some t)) \<longleftrightarrow>
      (\<exists>d. find_elem interface ''dev'' = Some d \<and> etext d \<noteq> None)"
    by (auto simp: find_text_Inr_iff) (metis option.exhaust)
  have chain: "(\<exists>r. rbind h (\<lambda>a. rbind d (\<lambda>x. rbind (need e x) (\<lambda>t. rbind (i t) (\<lambda>b. rbind v (\<lambda>c.
        Inr (g a t b c)))))) = Inr r)
      \<longleftrightarrow> (\<exists>a. h = Inr a) \<and> (\<exists>t. d = Inr (Some t) \<and> (\<exists>b. i t = Inr b)) \<and> (\<exists>c. v = Inr c)"
    for h :: "string result" and d e and i :: "string \<Rightarrow> string result" and v :: "string result"
      and g :: "string \<Rightarrow> string \<Rightarrow> string \<Rightarrow> string \<Rightarrow> string"
    by (auto simp: result_simps)
  show ?thesis
    unfolding interface_stanza_def Let_def chain head vlan inet_lines_Inr dev [symmetric] by blast
qed

section \<open>Main interfaces\<close>

text \<open>What the loop over the interface types collects, in their order.\<close>

definition server_ip :: "elem \<Rightarrow> string \<Rightarrow> ipv4 option result" where
  "server_ip server interface =
     filled_address (Option.bind (find_elem server interface) (\<lambda>t. find_elem t ''ip''))"

definition server_mac :: "elem \<Rightarrow> string \<Rightarrow> string option" where
  "server_mac server interface =
     Option.bind (Option.bind (find_elem server interface) (\<lambda>t. find_elem t ''mac'')) (filled \<circ> etext)"

definition collect :: "(string \<Rightarrow> 'a option) \<Rightarrow> string list \<Rightarrow> (string, 'a) dict" where
  "collect f ts = List.map_filter (\<lambda>t. map_option (Pair t) (f t)) ts"

lemma collect_simps [simp]:
  "collect f [] = []"
  "collect f (t # ts) = (case f t of None \<Rightarrow> collect f ts | Some x \<Rightarrow> (t, x) # collect f ts)"
  by (simp_all add: collect_def List.map_filter_simps split: option.splits)

lemma collect_cong: "(\<And>t. t \<in> set ts \<Longrightarrow> f t = g t) \<Longrightarrow> collect f ts = collect g ts"
proof (induction ts)
  case (Cons t ts)
  then have "f t = g t" "collect f ts = collect g ts" by auto
  then show ?case by (simp split: option.splits)
qed simp

lemma dput_some_append:
  "t \<notin> set (dkeys d) \<Longrightarrow> dput_some t x d = d @ (case x of None \<Rightarrow> [] | Some y \<Rightarrow> [(t, y)])"
  by (auto simp: dput_some_def dput_new split: option.splits)

lemma server_if_step_eq:
  "server_if_step server t (ifs, macs) = rbind (server_ip server t) (\<lambda>a.
     Inr (dput_some t a ifs, dput_some t (server_mac server t) macs))"
  by (simp add: server_if_step_def server_ip_def server_mac_def Let_def)

lemma server_ifs_loop:
  assumes "rfold (server_if_step server) ts (ifs, macs) = Inr (ifs', macs')"
    and "distinct ts" and "set ts \<inter> set (dkeys ifs) = {}" and "set ts \<inter> set (dkeys macs) = {}"
  shows "\<exists>ip. (\<forall>t \<in> set ts. server_ip server t = Inr (ip t))
     \<and> ifs' = ifs @ collect ip ts \<and> macs' = macs @ collect (server_mac server) ts"
  using assms
proof (induction ts arbitrary: ifs macs)
  case Nil
  then show ?case by simp
next
  case (Cons t ts)
  from Cons.prems(1) obtain a where a: "server_ip server t = Inr a"
      "rfold (server_if_step server) ts (dput_some t a ifs, dput_some t (server_mac server t) macs) = Inr (ifs', macs')"
    by (auto simp: server_if_step_eq [of _ t] rbind_Inr_iff)
  have app: "dput_some t a ifs = ifs @ (case a of None \<Rightarrow> [] | Some y \<Rightarrow> [(t, y)])"
      "dput_some t (server_mac server t) macs
        = macs @ (case server_mac server t of None \<Rightarrow> [] | Some y \<Rightarrow> [(t, y)])"
    using Cons.prems(3,4) by (auto intro!: dput_some_append)
  have dis: "set ts \<inter> set (dkeys (dput_some t a ifs)) = {}"
      "set ts \<inter> set (dkeys (dput_some t (server_mac server t) macs)) = {}"
    using Cons.prems(2,3,4) unfolding app by (auto split: option.splits)
  obtain ip where ip: "\<forall>t \<in> set ts. server_ip server t = Inr (ip t)"
      "ifs' = dput_some t a ifs @ collect ip ts"
      "macs' = dput_some t (server_mac server t) macs @ collect (server_mac server) ts"
    using Cons.IH [OF a(2) _ dis] Cons.prems(2) by auto
  define ip' where "ip' = ip(t := a)"
  have upd: "ip' t = a" "\<And>u. u \<in> set ts \<Longrightarrow> ip' u = ip u"
    using Cons.prems(2) by (auto simp: ip'_def)
  then have "collect ip' ts = collect ip ts" by (intro collect_cong) auto
  then show ?case
    using ip a(1) upd by (intro exI [of _ ip']) (auto simp: app split: option.splits)
qed

definition main_functions :: "string option set" where
  "main_functions = {Some ''router'', Some ''vmhost'', Some ''backdoor''}"

definition main_interface :: "elem \<Rightarrow> (string option \<times> ipv4 \<times> string) result" where
  "main_interface server =
    rbind (find_text server ''name'') (\<lambda>srvname.
    rbind (find_text server ''function'') (\<lambda>srvfunc.
    rbind (rfold (server_if_step server) iftypes ([], [])) (\<lambda>(srvifs, srvmacs).
    rbind (if srvfunc \<in> main_functions then dict_item srvifs ''pubif''
           else (case dvalues srvifs of [] \<Rightarrow> Inl IndexError | a # _ \<Rightarrow> Inr a)) (\<lambda>ifaddr.
    rbind (if srvfunc \<in> main_functions then dict_item srvmacs ''pubif''
           else (case dvalues srvmacs of [] \<Rightarrow> Inl IndexError | m # _ \<Rightarrow> Inr m)) (\<lambda>ifmac.
    Inr (srvfunc, ifaddr, ifmac))))))"

lemma func_if_step_eq:
  "func_if_step server (fifs, fmacs) = rbind (main_interface server) (\<lambda>(f, a, m).
     Inr (dput f a fifs, dput f m fmacs))"
  by (simp add: func_if_step_def main_interface_def rbind_assoc Let_def text_is_def main_functions_def
      disj_assoc split_beta cong: rbind_cong)

lemma func_ifs_loop:
  "rfold func_if_step servers (fifs, fmacs) = rbind (rmap main_interface servers) (\<lambda>ms.
     Inr (fold (\<lambda>(k, v). dput k v) (map (\<lambda>(f, a, m). (f, a)) ms) fifs,
          fold (\<lambda>(k, v). dput k v) (map (\<lambda>(f, a, m). (f, m)) ms) fmacs))"
proof (induction servers arbitrary: fifs fmacs)
  case (Cons s servers)
  then show ?case
    by (cases "main_interface s"; cases "rmap main_interface servers") (auto simp: func_if_step_eq [of s])
qed simp

definition first_of :: "(string \<Rightarrow> 'a option) \<Rightarrow> 'a \<Rightarrow> bool" where
  "first_of f x \<longleftrightarrow> (\<exists>pre t post. iftypes = pre @ t # post \<and> f t = Some x \<and> (\<forall>u \<in> set pre. f u = None))"

lemma collect_hd: "dvalues (collect f ts) = x # xs \<Longrightarrow>
    \<exists>pre t post. ts = pre @ t # post \<and> f t = Some x \<and> (\<forall>u \<in> set pre. f u = None)"
proof (induction ts)
  case (Cons t ts)
  show ?case
  proof (cases "f t")
    case None
    then obtain pre u post where "ts = pre @ u # post \<and> f u = Some x \<and> (\<forall>u \<in> set pre. f u = None)"
      using Cons by auto
    with None show ?thesis by (intro exI [of _ "t # pre"]) auto
  next
    case (Some y)
    then show ?thesis using Cons.prems by (intro exI [of _ "[]"] exI [of _ t] exI [of _ ts]) auto
  qed
qed simp

lemma dget_collect: "dget (collect f ts) t = (if t \<in> set ts then f t else None)"
  by (induction ts) (auto split: option.splits)

lemma main_interface_cases:
  assumes "main_interface s = Inr (f, a, m)"
  shows "find_text s ''function'' = Inr f"
    and "\<exists>ip. (\<forall>t \<in> set iftypes. server_ip s t = Inr (ip t)) \<and>
      (if f \<in> main_functions then ip ''pubif'' = Some a \<and> server_mac s ''pubif'' = Some m
       else first_of ip a \<and> first_of (server_mac s) m)"
proof -
  show "find_text s ''function'' = Inr f"
    using assms by (auto simp: main_interface_def rbind_Inr_iff)
  obtain ifs macs where loop: "rfold (server_if_step s) iftypes ([], []) = Inr (ifs, macs)"
    and a: "(if f \<in> main_functions then dict_item ifs ''pubif''
           else (case dvalues ifs of [] \<Rightarrow> Inl IndexError | a # _ \<Rightarrow> Inr a)) = Inr a"
    and m: "(if f \<in> main_functions then dict_item macs ''pubif''
           else (case dvalues macs of [] \<Rightarrow> Inl IndexError | m # _ \<Rightarrow> Inr m)) = Inr m"
    using assms by (auto simp: main_interface_def rbind_Inr_iff)
  obtain ip where ip: "\<forall>t \<in> set iftypes. server_ip s t = Inr (ip t)"
      "ifs = collect ip iftypes" "macs = collect (server_mac s) iftypes"
    using server_ifs_loop [OF loop] by (auto simp: iftypes_def)
  have pub: "''pubif'' \<in> set iftypes" by (simp add: iftypes_def)
  have "if f \<in> main_functions then ip ''pubif'' = Some a \<and> server_mac s ''pubif'' = Some m
       else first_of ip a \<and> first_of (server_mac s) m"
    using a m unfolding ip(2,3) first_of_def
    by (auto simp: dict_item_Inr_iff dget_collect pub
        dest!: collect_hd split: if_splits list.splits)
  with ip(1) show "\<exists>ip. (\<forall>t \<in> set iftypes. server_ip s t = Inr (ip t)) \<and>
      (if f \<in> main_functions then ip ''pubif'' = Some a \<and> server_mac s ''pubif'' = Some m
       else first_of ip a \<and> first_of (server_mac s) m)" by blast
qed

text \<open>
  C13: when the tables of the main interfaces are built, the entry of a function is that of the
  last server that has the function. For the router, the VM host and the backdoor server it is
  the public interface; for any other server the first interface, in the fixed order of the
  interface types, that has an address, and likewise the first that has a MAC address.
\<close>

theorem function_interfaces_main:
  assumes "function_interfaces umbrella = Inr (fifs, fmacs)"
    and "findall umbrella ''server'' = pre @ s # post"
    and "find_text s ''function'' = Inr f" and "\<forall>s' \<in> set post. find_text s' ''function'' \<noteq> Inr f"
  shows "\<exists>ip a m. (\<forall>t \<in> set iftypes. server_ip s t = Inr (ip t))
    \<and> dget fifs f = Some a \<and> dget fmacs f = Some m
    \<and> (if f \<in> main_functions then ip ''pubif'' = Some a \<and> server_mac s ''pubif'' = Some m
       else first_of ip a \<and> first_of (server_mac s) m)"
proof -
  obtain ms where ms: "rmap main_interface (pre @ s # post) = Inr ms"
      "fifs = dict_of (map (\<lambda>(f, a, m). (f, a)) ms)" "fmacs = dict_of (map (\<lambda>(f, a, m). (f, m)) ms)"
    using assms(1) unfolding function_interfaces_def func_ifs_loop assms(2)
    by (auto simp only: rbind_Inr_iff dict_of_def sum.inject prod.inject)
  then have "list_all2 (\<lambda>s x. main_interface s = Inr x) (pre @ s # post) ms"
    by (simp only: rmap_Inr_list_all2)
  then obtain xs f' a m ys where split: "ms = xs @ (f', a, m) # ys" "main_interface s = Inr (f', a, m)"
      "list_all2 (\<lambda>s x. main_interface s = Inr x) post ys"
    by (auto simp: list_all2_append1 list_all2_Cons1)
  have f: "f' = f" using main_interface_cases(1) [OF split(2)] assms(3) by simp
  have "fst y \<noteq> f" if y: "y \<in> set ys" for y
  proof -
    obtain s' where "s' \<in> set post" "main_interface s' = Inr y"
      using list_all2_source [OF split(3) y] by blast
    then show ?thesis using assms(4) main_interface_cases(1) [of s' "fst y" "fst (snd y)" "snd (snd y)"] by auto
  qed
  then have "f \<notin> fst ` set (map (\<lambda>(f, a, m). (f, a)) ys)" "f \<notin> fst ` set (map (\<lambda>(f, a, m). (f, m)) ys)"
    by force+
  then have "map_of (rev (map (\<lambda>(f, a, m). (f, a)) ys)) f = None" "map_of (rev (map (\<lambda>(f, a, m). (f, m)) ys)) f = None"
    by (simp_all add: map_of_eq_None_iff del: set_map)
  then have "dget fifs f = Some a" "dget fmacs f = Some m"
    unfolding ms(2,3) dget_dict_of split(1) by (simp_all add: f map_add_def)
  with main_interface_cases(2) [OF split(2)] f show ?thesis by blast
qed

definition sample_hosts :: elem where
  "sample_hosts = node ''Properties'' [sample_server ''gw'' ''router'' ''10.1.0.1'' ''m1'',
     sample_server ''prx'' ''proxy'' ''10.1.0.3'' ''m3'']"

theorem function_interfaces_main_witness:
  "\<exists>fifs fmacs. function_interfaces sample_hosts = Inr (fifs, fmacs) \<and> din (Some ''router'') fifs"
proof -
  let ?r = "sample_server ''gw'' ''router'' ''10.1.0.1'' ''m1''"
  let ?p = "sample_server ''prx'' ''proxy'' ''10.1.0.3'' ''m3''"
  have ips: "ip_address ''10.1.0.1'' = Inr 167837697" "ip_address ''10.1.0.3'' = Inr 167837699"
    by (simp_all add: parse_eval)
  have st: "filled (Some s) = Some s" if "s \<in> {''10.1.0.1'', ''10.1.0.3'', ''m1'', ''m3''}" for s
    using that by (auto simp: filled_def strip_eval)
  have "function_interfaces sample_hosts = Inr ([(Some ''router'', 167837697), (Some ''proxy'', 167837699)],
      [(Some ''router'', ''m1''), (Some ''proxy'', ''m3'')])"
    by (simp add: function_interfaces_def sample_hosts_def func_if_step_def server_if_step_def iftypes_def
        filled_address_def dput_some_def text_is_def xml_eval st ips Let_def)
  from function_interfaces_main [OF this, of "[]" ?r "[?p]" "Some ''router''"] this
  show ?thesis by (auto simp: sample_hosts_def xml_eval)
qed

section \<open>The canonical domain\<close>

definition own_domain :: "elem \<Rightarrow> bool" where
  "own_domain d \<longleftrightarrow> \<not> has_elem d ''master''"

definition reverse_domain :: "elem \<Rightarrow> bool" where
  "reverse_domain d \<longleftrightarrow> own_domain d \<and> has_elem d ''revDNS''"

lemma canonical_step_cases:
  assumes "canonical_step fh fhshort d c = Inr c'"
  shows "\<not> reverse_domain d \<Longrightarrow> revDNSseen c' = revDNSseen c \<and> CANONICAL_domain c' = CANONICAL_domain c
      \<and> CANONICAL_hostname c' = CANONICAL_hostname c"
    and "reverse_domain d \<Longrightarrow> \<not> revDNSseen c \<and> revDNSseen c'
      \<and> find_stripped d ''name'' = Inr (CANONICAL_domain c')
      \<and> (\<exists>r. find_elem d ''revDNS'' = Some r
           \<and> CANONICAL_hostname c' = (case etext r of None \<Rightarrow> [] | Some t \<Rightarrow> py_strip t))"
  using assms unfolding canonical_step_def revDNS_step_def reverse_domain_def own_domain_def
  by (auto simp: rbind_Inr_iff split: if_splits option.splits)

lemma canonical_loop:
  assumes "rfold (canonical_step fh fhshort) ds c = Inr c'"
  shows "(case filter reverse_domain ds of
      [] \<Rightarrow> revDNSseen c' = revDNSseen c \<and> CANONICAL_domain c' = CANONICAL_domain c
            \<and> CANONICAL_hostname c' = CANONICAL_hostname c
    | [d] \<Rightarrow> \<not> revDNSseen c \<and> revDNSseen c' \<and> find_stripped d ''name'' = Inr (CANONICAL_domain c')
            \<and> (\<exists>r. find_elem d ''revDNS'' = Some r
                 \<and> CANONICAL_hostname c' = (case etext r of None \<Rightarrow> [] | Some t \<Rightarrow> py_strip t))
    | _ \<Rightarrow> False)"
  using assms
proof (induction ds arbitrary: c)
  case (Cons d ds)
  then obtain c1 where c1: "canonical_step fh fhshort d c = Inr c1"
      "rfold (canonical_step fh fhshort) ds c1 = Inr c'"
    by (auto simp: rbind_Inr_iff)
  show ?case
    using Cons.IH [OF c1(2)] canonical_step_cases [OF c1(1)]
    by (cases "reverse_domain d") (auto split: list.splits)
qed simp

text \<open>
  C27: at most one of the domains the installation is master of carries \<open>revDNS\<close> (the script
  raises otherwise), and the canonical name is built from it; without one it is the SMTP host,
  if any, at the primary domain.
\<close>

theorem canonical_name:
  assumes "canonical_of dn fh fhshort umbrella = Inr c"
  shows "(case filter reverse_domain (findall umbrella ''domain'') of
      [] \<Rightarrow> CANONICAL_FQHN c = (case dget fhshort (Some ''DMZsmtp'') of
              Some h \<Rightarrow> if h = [] then dn else h @ ''.'' @ dn | None \<Rightarrow> dn)
    | [d] \<Rightarrow> \<exists>r n. find_elem d ''revDNS'' = Some r \<and> find_stripped d ''name'' = Inr n
        \<and> CANONICAL_FQHN c = (case filled (etext r) of Some h \<Rightarrow> h @ ''.'' @ n | None \<Rightarrow> n)
    | _ \<Rightarrow> False)"
  using canonical_loop [OF assms [unfolded canonical_of_def]]
  by (auto simp: CANONICAL_FQHN_def filled_def split: list.splits option.splits)

definition sample_domains :: elem where
  "sample_domains = node ''Properties''
     [node ''domain'' [leaf ''name'' ''example.org'', leaf ''alias'' ''ftp''],
      node ''domain'' [leaf ''name'' ''another.org'', leaf ''revDNS'' ''gate'']]"

theorem canonical_name_witness:
  "\<exists>c. canonical_of ''example.org'' [] [] sample_domains = Inr c \<and> CANONICAL_FQHN c = ''gate.another.org''"
proof -
  have st: "py_strip ''example.org'' = ''example.org''" "py_strip ''another.org'' = ''another.org''"
    "py_strip ''ftp'' = ''ftp''" "py_strip ''gate'' = ''gate''"
    by (simp_all add: strip_eval)
  obtain c where run: "canonical_of ''example.org'' [] [] sample_domains = Inr c"
    by (simp add: canonical_of_def sample_domains_def canonical_step_def discard_function_def
        revDNS_step_def stripped_texts_def xml_eval st)
  from canonical_name [OF run] run show ?thesis
    by (auto simp: sample_domains_def xml_eval reverse_domain_def own_domain_def filled_def st)
qed

end
