(* ===== verification/ZoneTimestamp.thy ===== *)
theory ZoneTimestamp
  imports FileStore
begin

text \<open>
  \<open>Python/32_zone_timestamp.py\<close>: the serial number of the DNS zones, the day of the last change
  of \<open>umbrella.xml\<close> followed by a two-digit sequence number, which is kept in a file whose
  modification time records which change it was made for. The calendar (the local time zone)
  is an argument: \<open>day t\<close> is \<open>fromtimestamp(t).strftime("%Y%m%d")\<close>.
\<close>

section \<open>Model\<close>

text \<open>\<open>int(x)\<close> of a float cuts towards zero; \<open>'{0:02d}'.format(n)\<close> pads to two places.\<close>

definition int_of_time :: "rat \<Rightarrow> int" where
  "int_of_time x = (if 0 \<le> x then \<lfloor>x\<rfloor> else \<lceil>x\<rceil>)"

definition format02 :: "int \<Rightarrow> string" where
  "format02 n = (if n < 0 then string_of_int n
     else if n < 10 then ''0'' @ string_of_int n else string_of_int n)"

text \<open>The number in the sequence file; any failure to read it leaves the 0.\<close>

definition read_sequence :: "filesystem \<Rightarrow> string \<Rightarrow> int" where
  "read_sequence fs f = (case read_file fs f of Inl _ \<Rightarrow> 0
     | Inr c \<Rightarrow> (case py_int (readline c) of None \<Rightarrow> 0 | Some n \<Rightarrow> n))"

text \<open>Writing the number and setting the time; a failure at either step is passed over.\<close>

definition store_sequence :: "rat \<Rightarrow> string \<Rightarrow> int \<Rightarrow> int \<Rightarrow> filesystem \<Rightarrow> filesystem" where
  "store_sequence now f n timestamp fs =
     (case write_file now f (string_of_int n) fs of Inl _ \<Rightarrow> fs
      | Inr fs1 \<Rightarrow> (case utime f (of_int timestamp) fs1 of Inl _ \<Rightarrow> fs1 | Inr fs2 \<Rightarrow> fs2))"

definition seq_fname_of :: "string \<Rightarrow> string" where
  "seq_fname_of repo = repo @ ''/Cfg/etc/bind/zones/zone/zone.H_dummy.sequence''"

definition umbrella_xml_of :: "string \<Rightarrow> string" where
  "umbrella_xml_of repo = repo @ ''/Properties/umbrella.xml''"

definition zone_timestamp ::
  "(int \<Rightarrow> string) \<Rightarrow> rat \<Rightarrow> string \<Rightarrow> filesystem \<Rightarrow> (string \<times> filesystem) result" where
  "zone_timestamp day now repo fs =
    rbind (getmtime fs (umbrella_xml_of repo)) (\<lambda>m.
    let timestamp = int_of_time m;
        timestamp_days = day timestamp;
        seq_fname = seq_fname_of repo
    in rbind (if isfile fs seq_fname
              then rbind (getmtime fs seq_fname) (\<lambda>sm. Inr (int_of_time sm, read_sequence fs seq_fname))
              else Inr (timestamp - 1, 0)) (\<lambda>(seq_timestamp, seq_number).
       if seq_timestamp < timestamp
       then let seq_timestamp_days = day seq_timestamp;
                seq_number = (if timestamp_days = seq_timestamp_days then seq_number + 1 else 0) mod 100
            in Inr (timestamp_days @ format02 seq_number,
                    store_sequence now seq_fname seq_number timestamp fs)
       else Inr (timestamp_days @ format02 seq_number, fs)))"

section \<open>Facts\<close>

lemma int_of_time_of_int [simp]: "int_of_time (of_int n) = n"
  by (simp add: int_of_time_def)

lemma int_of_time_numeral [simp]: "int_of_time (numeral k) = numeral k"
  using int_of_time_of_int [of "numeral k"] by simp

text \<open>A serial is compared as a number.\<close>

definition serial_number :: "string \<Rightarrow> nat" where
  "serial_number s = nat_of_digits s"

lemma nat_of_digits_append:
  "nat_of_digits (s @ t) = nat_of_digits s * 10 ^ length t + nat_of_digits t"
proof (induction t rule: rev_induct)
  case Nil
  then show ?case by (simp add: nat_of_digits_def)
next
  case (snoc c t)
  then show ?case by (simp flip: append_assoc add: algebra_simps)
qed

lemma format02_props:
  assumes "0 \<le> n" "n < 100"
  shows "length (format02 n) = 2 \<and> nat_of_digits (format02 n) = nat n"
proof (cases "n < 10")
  case True
  with assms(1) have "nat n < 10" by simp
  then show ?thesis using assms True
    by (simp add: format02_def string_of_int_def string_of_nat.simps [of "nat n"]
        nat_of_digits_def digit_val_def of_char_digit_char)
next
  case False
  with assms have "10 \<le> nat n" "nat n div 10 < 10" by linarith+
  then have "length (string_of_nat (nat n)) = 2"
    by (simp add: string_of_nat.simps [of "nat n"] string_of_nat.simps [of "nat n div 10"])
  then show ?thesis using assms False by (simp add: format02_def string_of_int_def)
qed

lemma serial_number_split:
  "0 \<le> n \<Longrightarrow> n < 100 \<Longrightarrow> serial_number (d @ format02 n) = 100 * nat_of_digits d + nat n"
  using format02_props [of n] by (simp add: serial_number_def nat_of_digits_append)

text \<open>
  The invariant between runs: the sequence file can be read, written and given a time, holds a
  number below 100 in its decimal form, and its time is that of a change of \<open>umbrella.xml\<close>.
\<close>

definition seq_inv :: "string \<Rightarrow> int \<Rightarrow> int \<Rightarrow> filesystem \<Rightarrow> bool" where
  "seq_inv repo t n fs \<longleftrightarrow>
     files fs (seq_fname_of repo) = Some (string_of_int n, of_int t) \<and> 0 \<le> n \<and> n < 100 \<and>
     readable fs (seq_fname_of repo) \<and> writable fs (seq_fname_of repo) \<and> owned fs (seq_fname_of repo)"

lemma string_of_int_no_newline: "CHR 0x0A \<notin> set (string_of_int n)"
proof -
  have "\<not> is_digit CHR 0x0A" by (simp add: is_digit_def)
  then show ?thesis by (auto simp: string_of_int_def dest: string_of_nat_digits)
qed

lemma seq_inv_read: "seq_inv repo t n fs \<Longrightarrow> read_sequence fs (seq_fname_of repo) = n"
  by (simp add: seq_inv_def read_sequence_def read_file_def readline_no_newline string_of_int_no_newline)

lemma names_differ: "umbrella_xml_of repo \<noteq> seq_fname_of repo"
  by (simp add: umbrella_xml_of_def seq_fname_of_def)

lemma store_sequence_inv:
  assumes "readable fs (seq_fname_of repo)" "writable fs (seq_fname_of repo)" "owned fs (seq_fname_of repo)"
    and "0 \<le> n" "n < 100"
  shows "seq_inv repo t n (store_sequence now (seq_fname_of repo) n t fs)"
    and "files (store_sequence now (seq_fname_of repo) n t fs) (umbrella_xml_of repo) = files fs (umbrella_xml_of repo)"
  using assms names_differ [of repo]
  by (simp_all add: store_sequence_def write_file_def utime_def seq_inv_def)

lemma zone_timestamp_step:
  assumes inv: "seq_inv repo t n fs" and xml: "files fs (umbrella_xml_of repo) = Some (c, m)"
  shows "zone_timestamp day now repo fs =
    (let t' = int_of_time m; n' = (if day t' = day t then (n + 1) mod 100 else 0) in
     if t < t' then Inr (day t' @ format02 n', store_sequence now (seq_fname_of repo) n' t' fs)
     else Inr (day t' @ format02 n, fs))"
  using inv seq_inv_read [OF inv] xml
  by (auto simp: zone_timestamp_def getmtime_def isfile_def seq_inv_def Let_def)

lemma zone_timestamp_returns:
  assumes "seq_inv repo t n fs" and "files fs (umbrella_xml_of repo) = Some (c, m)"
  obtains serial fs' where "zone_timestamp day now repo fs = Inr (serial, fs')"
proof -
  have "\<exists>r. zone_timestamp day now repo fs = Inr r"
    by (simp add: zone_timestamp_step [OF assms] Let_def)
  then show ?thesis using that by (metis surj_pair)
qed

text \<open>One run, from the invariant to the invariant: which number the serial carries.\<close>

lemma zone_timestamp_run:
  assumes inv: "seq_inv repo t n fs" and xml: "files fs (umbrella_xml_of repo) = Some (c, m)"
    and t': "t' = int_of_time m" and run: "zone_timestamp day now repo fs = Inr (serial, fs')"
  obtains n' where "serial = day t' @ format02 n'" and "0 \<le> n'" and "n' < 100"
    and "n' = (if t < t' then if day t' = day t then (n + 1) mod 100 else 0 else n)"
    and "seq_inv repo (max t t') n' fs'" and "files fs' (umbrella_xml_of repo) = Some (c, m)"
proof -
  let ?n' = "if t < t' then if day t' = day t then (n + 1) mod 100 else 0 else n"
  have b: "0 \<le> ?n'" "?n' < 100" using inv by (auto simp: seq_inv_def)
  have rw: "readable fs (seq_fname_of repo)" "writable fs (seq_fname_of repo)" "owned fs (seq_fname_of repo)"
    using inv by (auto simp: seq_inv_def)
  show ?thesis
  proof (rule that [of ?n'])
    show "seq_inv repo (max t t') ?n' fs'"
      using run store_sequence_inv(1) [OF rw b, of t' now] inv
      by (auto simp: zone_timestamp_step [OF inv xml] t' Let_def max_def split: if_splits)
    show "files fs' (umbrella_xml_of repo) = Some (c, m)"
      using run store_sequence_inv(2) [OF rw b, of now t'] xml
      by (auto simp: zone_timestamp_step [OF inv xml] t' Let_def split: if_splits)
    show "serial = day t' @ format02 ?n'"
      using run by (auto simp: zone_timestamp_step [OF inv xml] t' Let_def split: if_splits)
  qed (use b in auto)
qed

text \<open>A calendar of days numbered from the epoch, and a repository after one change at time 5.\<close>

definition sample_day :: "int \<Rightarrow> string" where
  "sample_day t = string_of_nat (20000000 + nat (t div 86400))"

definition sample_repo_fs :: "int \<Rightarrow> int \<Rightarrow> filesystem" where
  "sample_repo_fs n m = \<lparr>files = Map.empty(umbrella_xml_of ''/r'' \<mapsto> (''<Properties/>'', of_int m),
       seq_fname_of ''/r'' \<mapsto> (string_of_int n, 5)),
     readable = (\<lambda>_. True), writable = (\<lambda>_. True), owned = (\<lambda>_. True)\<rparr>"

lemma sample_repo_fs_inv:
  assumes "0 \<le> n" "n < 100"
  shows "seq_inv ''/r'' 5 n (sample_repo_fs n m)"
    and "files (sample_repo_fs n m) (umbrella_xml_of ''/r'') = Some (''<Properties/>'', of_int m)"
  using assms names_differ [of "''/r''"] by (simp_all add: seq_inv_def sample_repo_fs_def)

text \<open>
  With \<open>umbrella.xml\<close> unchanged, generating the zones again gives the same serial and changes
  no file, whenever the second run happens.
\<close>

lemma zone_timestamp_stable:
  assumes inv: "seq_inv repo t n fs" and xml: "files fs (umbrella_xml_of repo) = Some (c, m)"
    and run: "zone_timestamp day now repo fs = Inr (serial, fs')"
  shows "zone_timestamp day now' repo fs' = Inr (serial, fs')"
proof -
  obtain n' where n': "serial = day (int_of_time m) @ format02 n'"
    "seq_inv repo (max t (int_of_time m)) n' fs'" "files fs' (umbrella_xml_of repo) = Some (c, m)"
    using zone_timestamp_run [OF inv xml refl run] by metis
  show ?thesis by (simp add: zone_timestamp_step [OF n'(2,3)] n'(1) Let_def)
qed

lemma zone_timestamp_stable_applied:
  "\<exists>serial fs'. zone_timestamp sample_day 10 ''/r'' (sample_repo_fs 3 7) = Inr (serial, fs')
    \<and> zone_timestamp sample_day 400000 ''/r'' fs' = Inr (serial, fs')"
proof -
  note inv = sample_repo_fs_inv [of 3 7, simplified]
  obtain serial fs' where run: "zone_timestamp sample_day 10 ''/r'' (sample_repo_fs 3 7) = Inr (serial, fs')"
    by (rule zone_timestamp_returns [OF inv])
  with zone_timestamp_stable [OF inv run] show ?thesis by blast
qed

text \<open>
  Before a run: the sequence file can be used, and either it is not there yet or it satisfies the
  invariant with a time not after \<open>t\<close>, the time of \<open>umbrella.xml\<close>.
\<close>

definition in_step :: "string \<Rightarrow> int \<Rightarrow> filesystem \<Rightarrow> bool" where
  "in_step repo t fs \<longleftrightarrow>
     readable fs (seq_fname_of repo) \<and> writable fs (seq_fname_of repo) \<and> owned fs (seq_fname_of repo) \<and>
     (files fs (seq_fname_of repo) = None \<or> (\<exists>t0 n0. t0 \<le> t \<and> seq_inv repo t0 n0 fs))"

lemma zone_timestamp_in_step:
  assumes step: "in_step repo t fs" and xml: "files fs (umbrella_xml_of repo) = Some (c, m)"
    and t: "t = int_of_time m" and run: "zone_timestamp day now repo fs = Inr (serial, fs')"
  obtains n where "serial = day t @ format02 n" and "0 \<le> n" and "n < 100" and "seq_inv repo t n fs'"
proof (cases "files fs (seq_fname_of repo)")
  case None
  let ?n = "(if day t = day (t - 1) then 1 else 0) :: int"
  have "zone_timestamp day now repo fs =
      Inr (day t @ format02 ?n, store_sequence now (seq_fname_of repo) ?n t fs)"
    using None xml by (simp add: zone_timestamp_def getmtime_def isfile_def t Let_def)
  moreover have "seq_inv repo t ?n (store_sequence now (seq_fname_of repo) ?n t fs)"
    using step by (intro store_sequence_inv(1)) (auto simp: in_step_def)
  ultimately show ?thesis using run that [of ?n] by auto
next
  case (Some f)
  then obtain t0 n0 where s: "t0 \<le> t" "seq_inv repo t0 n0 fs" using step by (auto simp: in_step_def)
  obtain n where "serial = day t @ format02 n" "0 \<le> n" "n < 100" "seq_inv repo (max t0 t) n fs'"
    using zone_timestamp_run [OF s(2) xml t run] by metis
  then show ?thesis using that s(1) by (simp add: max_def)
qed

text \<open>
  C9: let the zones be generated, then \<open>umbrella.xml\<close> be changed at least a second of its clock
  later, then the zones be generated again, where the sequence file can be used and is not newer
  than the first \<open>umbrella.xml\<close>. The second serial is larger as a number, as DNS requires, exactly
  when the local date of the change, as a number, is later than that of the first \<open>umbrella.xml\<close>, or
  the date is the same and the first serial did not end in 99. Nothing is assumed of the calendar.
\<close>

theorem zone_timestamp_increases:
  assumes step: "in_step repo (int_of_time m) fs" and xml: "files fs (umbrella_xml_of repo) = Some (c, m)"
    and run: "zone_timestamp day now repo fs = Inr (serial, fs')"
    and changed: "fs'' = fs'\<lparr>files := (files fs')(umbrella_xml_of repo \<mapsto> (c', m'))\<rparr>"
    and later: "int_of_time m < int_of_time m'"
    and run': "zone_timestamp day now' repo fs'' = Inr (serial', fs3)"
  shows "\<exists>n. serial = day (int_of_time m) @ format02 n \<and> 0 \<le> n \<and> n < 100
    \<and> (serial_number serial < serial_number serial' \<longleftrightarrow>
        (if day (int_of_time m') = day (int_of_time m) then n \<noteq> 99
         else nat_of_digits (day (int_of_time m)) < nat_of_digits (day (int_of_time m'))))"
proof -
  let ?t = "int_of_time m" and ?t' = "int_of_time m'"
  obtain n where n: "serial = day ?t @ format02 n" "0 \<le> n" "n < 100" "seq_inv repo ?t n fs'"
    by (rule zone_timestamp_in_step [OF step xml HOL.refl run])
  have inv': "seq_inv repo ?t n fs''"
    using n(4) names_differ [of repo] by (simp add: changed seq_inv_def)
  have xml': "files fs'' (umbrella_xml_of repo) = Some (c', m')"
    by (simp add: changed)
  obtain n2 where n2: "serial' = day ?t' @ format02 n2" "0 \<le> n2" "n2 < 100"
    "n2 = (if day ?t' = day ?t then (n + 1) mod 100 else 0)"
    using zone_timestamp_run [OF inv' xml' HOL.refl run'] later by auto
  have "serial_number serial < serial_number serial' \<longleftrightarrow>
      100 * nat_of_digits (day ?t) + nat n < 100 * nat_of_digits (day ?t') + nat n2"
    using n n2(1-3) by (simp add: serial_number_split)
  moreover have "nat n < 100" using n(2,3) by simp
  moreover have "n = 99 \<or> (n + 1) mod 100 = n + 1"
    using n(2,3) by (cases "n = 99") (auto intro!: mod_pos_pos_trivial)
  ultimately have "serial_number serial < serial_number serial' \<longleftrightarrow>
      (if day ?t' = day ?t then n \<noteq> 99 else nat_of_digits (day ?t) < nat_of_digits (day ?t'))"
    using n(2) n2(4) by (auto simp: nat_less_iff)
  with n(1-3) show ?thesis by blast
qed

theorem zone_timestamp_increases_witness:
  "\<exists>serial fs' serial' fs3. zone_timestamp sample_day 10 ''/r'' (sample_repo_fs 98 5) = Inr (serial, fs')
    \<and> zone_timestamp sample_day 70 ''/r''
        (fs'\<lparr>files := (files fs')(umbrella_xml_of ''/r'' \<mapsto> (''<Properties />'', of_int 60))\<rparr>) = Inr (serial', fs3)
    \<and> serial_number serial < serial_number serial'"
proof -
  note inv = sample_repo_fs_inv [of 98 5, simplified]
  have xml5: "files (sample_repo_fs 98 5) (umbrella_xml_of ''/r'') = Some (''<Properties/>'', of_int 5)"
    using inv by simp
  have step: "in_step ''/r'' (int_of_time (of_int 5)) (sample_repo_fs 98 5)"
    unfolding in_step_def int_of_time_of_int
  proof (intro conjI disjI2 exI)
    show "seq_inv ''/r'' 5 98 (sample_repo_fs 98 5)" by (rule inv(1))
  qed (simp_all add: sample_repo_fs_def)
  obtain serial fs' where run: "zone_timestamp sample_day 10 ''/r'' (sample_repo_fs 98 5) = Inr (serial, fs')"
    by (rule zone_timestamp_returns [OF inv])
  have r: "serial = sample_day 5 @ format02 98" "fs' = sample_repo_fs 98 5"
    using run zone_timestamp_step [OF inv(1) xml5, of sample_day 10] by (simp_all add: Let_def)
  let ?fs'' = "fs'\<lparr>files := (files fs')(umbrella_xml_of ''/r'' \<mapsto> (''<Properties />'', of_int 60))\<rparr>"
  have inv': "seq_inv ''/r'' 5 98 ?fs''"
    using inv(1) names_differ [of "''/r''"] by (simp add: r(2) seq_inv_def)
  obtain serial' fs3 where run': "zone_timestamp sample_day 70 ''/r'' ?fs'' = Inr (serial', fs3)"
    by (rule zone_timestamp_returns [OF inv', of "''<Properties />''" "of_int 60"]) simp
  have d: "sample_day 60 = sample_day 5" by (simp add: sample_day_def)
  obtain n where n: "serial = sample_day 5 @ format02 n" "0 \<le> n" "n < 100"
      "serial_number serial < serial_number serial' \<longleftrightarrow> n \<noteq> 99"
    using zone_timestamp_increases [OF step xml5 run HOL.refl _ run'] d by auto
  have "n \<noteq> 99"
    using n(1-3) r(1) serial_number_split [of n "sample_day 5"] serial_number_split [of 98 "sample_day 5"] by auto
  with n(4) run run' show ?thesis by blast
qed

text \<open>
  C36: the change of a day that follows number 99 makes the serial go backwards: the sequence
  number wraps from 99 to 0 while the day stays, so secondary servers do not see the new zone.
\<close>

theorem zone_timestamp_wraps:
  assumes inv: "seq_inv repo t 99 fs" and xml: "files fs (umbrella_xml_of repo) = Some (c, of_int t')"
    and later: "t < t'" and same_day: "day t' = day t"
    and run: "zone_timestamp day now repo fs = Inr (serial, fs')"
  shows "serial_number serial < serial_number (day t @ format02 99)"
proof -
  have "serial = day t @ format02 0"
    using run later same_day by (simp add: zone_timestamp_step [OF inv xml] Let_def)
  then show ?thesis by (simp add: serial_number_split)
qed

theorem zone_timestamp_wraps_witness:
  "\<exists>serial fs'. zone_timestamp sample_day 100 ''/r'' (sample_repo_fs 99 90) = Inr (serial, fs')
    \<and> serial_number serial < serial_number (sample_day 5 @ format02 99)"
proof -
  note inv = sample_repo_fs_inv [of 99 90, simplified]
  have inv90: "seq_inv ''/r'' 5 99 (sample_repo_fs 99 90)"
    "files (sample_repo_fs 99 90) (umbrella_xml_of ''/r'') = Some (''<Properties/>'', of_int 90)"
    using inv by simp_all
  obtain serial fs' where run: "zone_timestamp sample_day 100 ''/r'' (sample_repo_fs 99 90) = Inr (serial, fs')"
    by (rule zone_timestamp_returns [OF inv90])
  have "sample_day 90 = sample_day 5" by (simp add: sample_day_def)
  with zone_timestamp_wraps [OF inv90 _ _ run] run show ?thesis by auto
qed

end
