(* ===== verification/Organization.thy ===== *)
theory Organization
  imports Networking
begin

text \<open>
  \<open>Python/35_organization.py\<close>: the profile of the hosts of every network of the organization,
  inherited down the tree of its units. A network given twice has the profile of its last unit
  in document order.
\<close>

section \<open>Model\<close>

function fill_netclasses ::
  "elem \<Rightarrow> string \<Rightarrow> (ipnet, string) dict \<Rightarrow> (ipnet, string) dict result" where
  "fill_netclasses element profile netclasses =
    (let profile' = (case tag_value ''bcfg2_profile'' element of Some val \<Rightarrow> val | None \<Rightarrow> profile) in
     rbind (unit_network element) (\<lambda>network.
     rfold (\<lambda>sub nc. fill_netclasses sub profile' nc) (findall element ''ou'')
       (case network of None \<Rightarrow> netclasses | Some n \<Rightarrow> dput n profile' netclasses)))"
  by pat_completeness auto
termination
  by (relation "measure (\<lambda>(e, _, _). size e)") (auto dest: findall_size)

declare fill_netclasses.simps [simp del]

definition netclasses_of :: "elem \<Rightarrow> (ipnet, string) dict result" where
  "netclasses_of organization =
     rbind (need AttributeError (find_elem organization ''ou'')) (\<lambda>ou.
     fill_netclasses ou ''workstation'' [])"

section \<open>Profiles by path\<close>

text \<open>The profile along a path of units: the innermost that is given.\<close>

definition path_profile :: "string \<Rightarrow> elem list \<Rightarrow> string" where
  "path_profile profile p = (case tag_values ''bcfg2_profile'' p of [] \<Rightarrow> profile | v # _ \<Rightarrow> v)"

lemma path_profile_Cons: "path_profile profile (e # p)
    = path_profile (case tag_value ''bcfg2_profile'' e of Some v \<Rightarrow> v | None \<Rightarrow> profile) p"
  by (auto simp: path_profile_def tag_values_Cons split: option.splits list.splits)

definition path_entry :: "(elem \<Rightarrow> ipnet option) \<Rightarrow> string \<Rightarrow> elem list \<Rightarrow> (ipnet \<times> string) option" where
  "path_entry net profile p = map_option (\<lambda>n. (n, path_profile profile p)) (net (last p))"

lemma path_entry_Cons: "p \<noteq> [] \<Longrightarrow> path_entry net profile (e # p)
    = path_entry net (case tag_value ''bcfg2_profile'' e of Some v \<Rightarrow> v | None \<Rightarrow> profile) p"
  by (simp add: path_entry_def path_profile_Cons)

lemma map_filter_paths:
  "List.map_filter (path_entry net profile) (ou_paths e)
    = (case net e of None \<Rightarrow> [] | Some n \<Rightarrow> [(n, case tag_value ''bcfg2_profile'' e of Some v \<Rightarrow> v | None \<Rightarrow> profile)])
      @ concat (map (\<lambda>c. List.map_filter
          (path_entry net (case tag_value ''bcfg2_profile'' e of Some v \<Rightarrow> v | None \<Rightarrow> profile)) (ou_paths c))
        (findall e ''ou''))"
proof -
  let ?prof = "case tag_value ''bcfg2_profile'' e of Some v \<Rightarrow> v | None \<Rightarrow> profile"
  have ne: "List.map_filter (path_entry net profile) (map ((#) e) ps) = List.map_filter (path_entry net ?prof) ps"
    if "\<And>p. p \<in> set ps \<Longrightarrow> p \<noteq> []" for ps
    using that by (induction ps) (simp_all add: List.map_filter_simps path_entry_Cons split: option.splits)
  have ext: "List.map_filter (path_entry net profile) (map ((#) e) (concat (map ou_paths (findall e ''ou''))))
      = List.map_filter (path_entry net ?prof) (concat (map ou_paths (findall e ''ou'')))"
    by (rule ne) (auto dest: ou_paths_not_Nil)
  have cat: "List.map_filter f (concat xss) = concat (map (List.map_filter f) xss)"
    for f :: "elem list \<Rightarrow> (ipnet \<times> string) option" and xss
    by (induction xss) (simp_all add: List.map_filter_def)
  have "path_entry net profile [e] = map_option (\<lambda>n. (n, ?prof)) (net e)"
    by (simp add: path_entry_def path_profile_Cons) (simp add: path_profile_def tag_values_def List.map_filter_def)
  then show ?thesis
    by (subst ou_paths.simps) (simp add: List.map_filter_simps ext cat o_def split: option.splits)
qed

text \<open>
  C10: every unit with a network contributes the network with the profile of the nearest unit
  above it (itself included) that has one, else the default, in document order; a later entry
  for the same network replaces an earlier one.
\<close>

theorem netclasses_by_path:
  assumes "\<And>p. p \<in> set (ou_paths e) \<Longrightarrow> unit_network (last p) = Inr (net (last p))"
  shows "fill_netclasses e profile netclasses =
    Inr (fold (\<lambda>(n, prof). dput n prof) (List.map_filter (path_entry net profile) (ou_paths e)) netclasses)"
  using assms
proof (induction e profile netclasses rule: fill_netclasses.induct)
  case (1 e profile netclasses)
  let ?prof = "case tag_value ''bcfg2_profile'' e of Some v \<Rightarrow> v | None \<Rightarrow> profile"
  let ?upd = "\<lambda>c. fold (\<lambda>(n, prof). dput n prof) (List.map_filter (path_entry net ?prof) (ou_paths c))"
  have self: "unit_network e = Inr (net e)"
    using "1.prems" [of "[e]"] by (simp add: ou_paths.simps [of e])
  have sub: "fill_netclasses c ?prof nc = Inr (?upd c nc)" if "c \<in> set (findall e ''ou'')" for c nc
  proof (rule "1.IH" [OF refl self that])
    fix p assume p: "p \<in> set (ou_paths c)"
    then have "e # p \<in> set (ou_paths e)"
      using that by (subst ou_paths.simps) auto
    from "1.prems" [OF this] show "unit_network (last p) = Inr (net (last p))"
      using ou_paths_not_Nil [OF p] by simp
  qed
  have concat_upd: "fold (\<lambda>(n, prof). dput n prof) (concat (map g cs)) nc
      = fold (\<lambda>c. fold (\<lambda>(n, prof). dput n prof) (g c)) cs nc"
    for g :: "elem \<Rightarrow> (ipnet \<times> string) list" and cs nc
    by (induction cs arbitrary: nc) simp_all
  have loop: "rfold (\<lambda>c nc. fill_netclasses c ?prof nc) (findall e ''ou'') nc
      = Inr (fold ?upd (findall e ''ou'') nc)" for nc
    by (rule rfold_pure) (rule sub)
  show ?case
    by (subst fill_netclasses.simps)
      (simp add: self Let_def loop map_filter_paths [of net profile e] concat_upd split: option.splits)
qed

theorem netclasses_by_path_witness:
  "netclasses_of sample_organization = Inr [(IPNet 167854080 24, ''base''), (IPNet 167854336 24, ''base'')]"
proof -
  let ?e = "the (find_elem sample_organization ''ou'')"
  let ?net = "\<lambda>e. case unit_network e of Inr n \<Rightarrow> n | _ \<Rightarrow> None"
  note ev = sample_organization_def xml_eval unit_network_def ip_network_opt_def sample_units
  have net: "unit_network (last p) = Inr (?net (last p))" if "p \<in> set (ou_paths ?e)" for p
    using that by (auto simp: ou_paths.simps ev)
  have "List.map_filter (path_entry ?net ''workstation'') (ou_paths ?e)
      = [(IPNet 167854080 24, ''base''), (IPNet 167854336 24, ''base'')]"
    by (simp add: ou_paths.simps path_entry_def path_profile_def tag_values_def tag_value_def List.map_filter_def ev)
  then show ?thesis
    using netclasses_by_path [OF net, where profile = "''workstation''" and netclasses = "[]"]
    by (simp add: netclasses_of_def sample_organization_def xml_eval)
qed

end
