(* ===== verification/UsbDev.thy ===== *)
theory UsbDev
  imports Networks
begin

text \<open>
  \<open>Python/40_usbdev.py\<close>: the USB devices that are blocked and admitted on the host. An entry
  applies to every host, to one host, or to a group; an entry without devices is a wildcard.
  The two loops of the script differ only in their names.
\<close>

section \<open>Model\<close>

definition entry_applies :: "client_metadata \<Rightarrow> elem \<Rightarrow> bool" where
  "entry_applies metadata e =
    (let host = find_elem e ''host''; group = find_elem e ''group'' in
     (host = None \<and> group = None)
     \<or> (case host of Some h \<Rightarrow> etext h = Some (hostname metadata) | None \<Rightarrow> False)
     \<or> (case group of Some g \<Rightarrow> (case etext g of Some t \<Rightarrow> t \<in> set (groups metadata) | None \<Rightarrow> False)
        | None \<Rightarrow> False))"

record usb_list =
  devices :: "elem list"
  has_list :: bool
  wildcard :: bool

definition usb_step :: "client_metadata \<Rightarrow> elem \<Rightarrow> usb_list \<Rightarrow> usb_list" where
  "usb_step metadata e l =
    (if entry_applies metadata e
     then \<lparr>devices = devices l @ iter_elem e ''device'', has_list = True,
           wildcard = (wildcard l \<or> iter_elem e ''device'' = [])\<rparr>
     else l)"

definition usb_list_of :: "client_metadata \<Rightarrow> elem \<Rightarrow> string \<Rightarrow> usb_list" where
  "usb_list_of metadata xdata tag =
    (let l = fold (usb_step metadata) (findall xdata tag) \<lparr>devices = [], has_list = False, wildcard = False\<rparr>
     in if wildcard l then l\<lparr>devices := []\<rparr> else l)"

definition blacklist :: "client_metadata \<Rightarrow> elem \<Rightarrow> usb_list" where
  "blacklist metadata xdata = usb_list_of metadata xdata ''blacklist''"

definition whitelist :: "client_metadata \<Rightarrow> elem \<Rightarrow> usb_list" where
  "whitelist metadata xdata = usb_list_of metadata xdata ''whitelist''"

section \<open>Facts\<close>

lemma usb_loop:
  "fold (usb_step metadata) es l =
    \<lparr>devices = devices l @ concat (map (\<lambda>e. iter_elem e ''device'') (filter (entry_applies metadata) es)),
     has_list = (has_list l \<or> (\<exists>e \<in> set es. entry_applies metadata e)),
     wildcard = (wildcard l \<or> (\<exists>e \<in> set es. entry_applies metadata e \<and> iter_elem e ''device'' = []))\<rparr>"
  by (induction es arbitrary: l) (auto simp: usb_step_def)

lemma usb_list_of_eq:
  "usb_list_of metadata xdata tag =
    (let es = filter (entry_applies metadata) (findall xdata tag);
         wild = (\<exists>e \<in> set es. iter_elem e ''device'' = [])
     in \<lparr>devices = (if wild then [] else concat (map (\<lambda>e. iter_elem e ''device'') es)),
         has_list = (es \<noteq> []), wildcard = wild\<rparr>)"
  by (auto simp: usb_list_of_def usb_loop Let_def filter_empty_conv)

text \<open>
  C33: a list that is present but empty means exactly that some entry that applies to the host is
  a wildcard; otherwise the list has the devices of all entries that apply, in document order,
  and a list that is absent has no devices. This holds of both lists.
\<close>

theorem usb_lists_meaning:
  "\<forall>(l, tag) \<in> {(blacklist metadata xdata, ''blacklist''), (whitelist metadata xdata, ''whitelist'')}.
     ((has_list l \<and> devices l = [])
        = (\<exists>e \<in> set (findall xdata tag). entry_applies metadata e \<and> iter_elem e ''device'' = []))
   \<and> (devices l \<noteq> [] \<longrightarrow> has_list l \<and> devices l =
        concat (map (\<lambda>e. iter_elem e ''device'') (filter (entry_applies metadata) (findall xdata tag))))
   \<and> (has_list l = (\<exists>e \<in> set (findall xdata tag). entry_applies metadata e))"
  by (auto simp: blacklist_def whitelist_def usb_list_of_eq Let_def filter_empty_conv)

definition sample_usb :: elem where
  "sample_usb = node ''Properties''
     [node ''blacklist'' [],
      node ''whitelist'' [leaf ''host'' ''ws1'', node ''device'' [leaf ''idVendor'' ''0951'']],
      node ''whitelist'' [leaf ''group'' ''secure'', node ''device'' [leaf ''idVendor'' ''abcd'']]]"

theorem usb_lists_meaning_witness:
  "let m = \<lparr>hostname = ''ws1'', groups = [''base''], addresses = None\<rparr> in
     devices (whitelist m sample_usb) = [node ''device'' [leaf ''idVendor'' ''0951'']]
   \<and> has_list (blacklist m sample_usb) \<and> devices (blacklist m sample_usb) = []
   \<and> (\<exists>e \<in> set (findall sample_usb ''blacklist''). entry_applies m e \<and> iter_elem e ''device'' = [])"
proof -
  let ?m = "\<lparr>hostname = ''ws1'', groups = [''base''], addresses = None\<rparr>"
  have "devices (whitelist ?m sample_usb) = [node ''device'' [leaf ''idVendor'' ''0951'']]"
    "has_list (blacklist ?m sample_usb) \<and> devices (blacklist ?m sample_usb) = []"
    by (simp_all add: whitelist_def blacklist_def usb_list_of_eq sample_usb_def entry_applies_def
        iter_elem_def node_def leaf_def findall_def find_elem_def Let_def)
  then show ?thesis using usb_lists_meaning [of ?m sample_usb] by simp
qed

end
