(* ===== verification/Ossec.thy ===== *)
theory Ossec
  imports XmlTree Samples "HOL-Library.Multiset"
begin

text \<open>
  \<open>Python/45_ossec.py\<close>: the files the intrusion detection must ignore because the configuration
  server manages them. The script looks for a variable \<open>structures\<close> in the frames of its
  callers; a frame is the dictionary of its local variables, the frames are given from the
  caller outwards, and walking past the last one raises, which the script catches.
\<close>

section \<open>Model\<close>

type_synonym frame = "(string, elem list option) dict"

fun find_structures :: "frame list \<Rightarrow> elem list option" where
  "find_structures [] = None"
| "find_structures (caller # callers) = (case dget caller ''structures'' of
     Some (Some structures) \<Rightarrow> Some structures
   | _ \<Rightarrow> find_structures callers)"

definition dir_list :: "string list" where
  "dir_list = [''/etc'']"

definition initial_path_list :: "string list" where
  "initial_path_list = [''/etc/mtab'', ''/etc/hosts.deny'', ''/etc/adjtime'',
     ''/var/ossec/etc/ossec.conf'', ''/var/ossec/etc/internal_options.conf'']"

definition path_step :: "elem \<Rightarrow> string list \<Rightarrow> string list result" where
  "path_step path path_list =
    rbind (need AttributeError (get_attr path ''name'')) (\<lambda>pathname.
    Inr (path_list @ map (\<lambda>_. pathname) (filter (\<lambda>dir. prefix dir pathname) dir_list)))"

definition struct_step :: "elem \<Rightarrow> string list \<Rightarrow> string list result" where
  "struct_step struct path_list = rfold path_step (iter_elem struct ''Path'') path_list"

definition ossec_paths :: "frame list \<Rightarrow> string list result" where
  "ossec_paths frames =
    rbind (case find_structures frames of None \<Rightarrow> Inr initial_path_list
       | Some structures \<Rightarrow> rfold struct_step structures initial_path_list) (\<lambda>path_list.
    Inr (sort path_list))"

section \<open>Facts\<close>

definition monitored :: "elem list \<Rightarrow> string list" where
  "monitored structures = filter (prefix ''/etc'')
     (map (\<lambda>p. the (get_attr p ''name'')) (concat (map (\<lambda>s. iter_elem s ''Path'') structures)))"

lemma path_loop:
  "rfold path_step ps acc = Inr acc' \<longleftrightarrow> (\<forall>p \<in> set ps. get_attr p ''name'' \<noteq> None)
     \<and> acc' = acc @ filter (prefix ''/etc'') (map (\<lambda>p. the (get_attr p ''name'')) ps)"
proof (induction ps arbitrary: acc)
  case (Cons p ps)
  then show ?case by (cases "get_attr p ''name''") (auto simp: path_step_def [of p] dir_list_def)
qed auto

lemma struct_loop:
  "rfold struct_step ss acc = Inr acc' \<longleftrightarrow>
     (\<forall>s \<in> set ss. \<forall>p \<in> set (iter_elem s ''Path''). get_attr p ''name'' \<noteq> None)
     \<and> acc' = acc @ monitored ss"
proof (induction ss arbitrary: acc)
  case (Cons s ss)
  then show ?case
    by (auto simp: struct_step_def [of s] rbind_Inr_iff path_loop monitored_def)
qed (auto simp: monitored_def)

text \<open>
  C34: the list is sorted and is, with multiplicities, the fixed files together with the names of
  all managed paths that start with \<open>/etc\<close>; it is computed unless a managed path has no name,
  and it is the fixed list when no caller has the structures.
\<close>

theorem ossec_paths_sorted:
  "ossec_paths frames = Inr path_list \<longleftrightarrow>
     sorted path_list
     \<and> (let structures = (case find_structures frames of None \<Rightarrow> [] | Some ss \<Rightarrow> ss) in
         (\<forall>s \<in> set structures. \<forall>p \<in> set (iter_elem s ''Path''). get_attr p ''name'' \<noteq> None)
         \<and> mset path_list = mset initial_path_list + mset (monitored structures))"
proof -
  have sorted: "ys = sort xs \<longleftrightarrow> sorted ys \<and> mset ys = mset xs" for xs ys :: "string list"
    by (metis mset_sort properties_for_sort sorted_sort)
  have m0: "monitored [] = []" by (simp add: monitored_def)
  show ?thesis
    by (auto simp: ossec_paths_def rbind_Inr_iff struct_loop sorted m0 eq_commute [of _ path_list] split: option.splits)
qed

definition sample_structures :: "elem list" where
  "sample_structures = [Elem ''Bundle'' None [(''name'', ''network'')]
     [Elem ''Path'' None [(''name'', ''/etc/hosts'')] [], Elem ''Path'' None [(''name'', ''/usr/bin/x'')] []]]"

theorem ossec_paths_sorted_witness:
  "ossec_paths [[(''metadata'', None)], [(''structures'', Some sample_structures)]]
     = Inr [''/etc/adjtime'', ''/etc/hosts'', ''/etc/hosts.deny'', ''/etc/mtab'',
            ''/var/ossec/etc/internal_options.conf'', ''/var/ossec/etc/ossec.conf'']"
proof -
  let ?frames = "[[(''metadata'', None)], [(''structures'', Some sample_structures)]]"
  have "find_structures ?frames = Some sample_structures" by simp
  moreover have "monitored sample_structures = [''/etc/hosts'']"
    by (simp add: monitored_def sample_structures_def iter_elem_def get_attr_def)
  moreover have "\<forall>s \<in> set sample_structures. \<forall>p \<in> set (iter_elem s ''Path''). get_attr p ''name'' \<noteq> None"
    by (simp add: sample_structures_def iter_elem_def get_attr_def)
  moreover have "sorted [''/etc/adjtime'', ''/etc/hosts'', ''/etc/hosts.deny'', ''/etc/mtab'',
            ''/var/ossec/etc/internal_options.conf'', ''/var/ossec/etc/ossec.conf'']"
    by code_simp
  ultimately show ?thesis
    using ossec_paths_sorted [of ?frames] by (simp add: initial_path_list_def)
qed

end
