(* ===== verification/PosixPath.thy ===== *)
theory PosixPath
  imports Prelude
begin

text \<open>
  The functions of Python's \<open>posixpath\<close> that the website's plugins use: \<open>split\<close>, \<open>dirname\<close>,
  \<open>join\<close>, \<open>normpath\<close>, \<open>abspath\<close> and \<open>relpath\<close>; the current directory, which only matters for
  relative arguments of the last two, is an argument.
\<close>

section \<open>Model\<close>

definition path_split :: "string \<Rightarrow> string \<times> string" where
  "path_split p =
    (let tail = rev (takeWhile (\<lambda>c. c \<noteq> CHR ''/'') (rev p));
         head = rev (dropWhile (\<lambda>c. c \<noteq> CHR ''/'') (rev p))
     in (if list_all (\<lambda>c. c = CHR ''/'') head then head
         else rev (dropWhile (\<lambda>c. c = CHR ''/'') (rev head)), tail))"

definition dirname :: "string \<Rightarrow> string" where
  "dirname p = fst (path_split p)"

definition path_join :: "string \<Rightarrow> string \<Rightarrow> string" where
  "path_join a b =
    (if prefix ''/'' b then b
     else if a = [] \<or> last a = CHR ''/'' then a @ b
     else a @ ''/'' @ b)"

definition path_joins :: "string list \<Rightarrow> string" where
  "path_joins ps = (case ps of [] \<Rightarrow> [] | p # qs \<Rightarrow> foldl path_join p qs)"

text \<open>One component in \<open>normpath\<close>; the components kept so far are a stack, the last one on top.\<close>

definition norm_step :: "bool \<Rightarrow> string \<Rightarrow> string list \<Rightarrow> string list" where
  "norm_step absolute part st =
    (if part = [] \<or> part = ''.'' then st
     else if part \<noteq> ''..'' \<or> (\<not> absolute \<and> st = []) \<or> (st \<noteq> [] \<and> hd st = ''..'') then part # st
     else tl st)"

definition initial_slashes :: "string \<Rightarrow> string" where
  "initial_slashes p =
    (if prefix ''//'' p \<and> \<not> prefix ''///'' p then ''//'' else if prefix ''/'' p then ''/'' else [])"

definition normpath :: "string \<Rightarrow> string" where
  "normpath p =
    (let r = initial_slashes p
           @ py_join ''/'' (rev (fold (norm_step (prefix ''/'' p)) (py_split CHR ''/'' p) []))
     in if r = [] then ''.'' else r)"

definition abspath :: "string \<Rightarrow> string \<Rightarrow> string" where
  "abspath cwd p = normpath (if prefix ''/'' p then p else path_join cwd p)"

definition nonempty_parts :: "string \<Rightarrow> string list" where
  "nonempty_parts p = filter (\<lambda>x. x \<noteq> []) (py_split CHR ''/'' p)"

definition relpath :: "string \<Rightarrow> string \<Rightarrow> string \<Rightarrow> string result" where
  "relpath cwd path start =
    (if path = [] then Inl ValueError
     else let start_list = nonempty_parts (abspath cwd start);
              path_list = nonempty_parts (abspath cwd path);
              i = length (longest_common_prefix start_list path_list);
              rel_list = replicate (length start_list - i) ''..'' @ drop i path_list
          in Inr (if rel_list = [] then ''.'' else path_joins rel_list))"

section \<open>Splitting and joining\<close>

lemma py_split_append_any: "py_split c (s @ c # t) = py_split c s @ py_split c t"
proof (induction s)
  case (Cons x s)
  then show ?case by (cases "py_split c s") auto
qed simp

lemma py_split_parts_no_sep: "x \<in> set (py_split c s) \<Longrightarrow> c \<notin> set x"
proof (induction s arbitrary: x)
  case (Cons y s)
  obtain p ps where "py_split c s = p # ps" by (cases "py_split c s") auto
  then show ?case using Cons by (auto split: if_splits)
qed auto

lemma dirname_snoc:
  assumes "CHR ''/'' \<notin> set s" and "d \<noteq> []" and "last d \<noteq> CHR ''/''"
  shows "dirname (d @ ''/'' @ s) = d"
proof -
  obtain d' x where d: "d = d' @ [x]" "x \<noteq> CHR ''/''"
    using assms(2,3) by (metis append_butlast_last_id)
  have t: "dropWhile (\<lambda>c. c \<noteq> CHR ''/'') (rev s @ CHR ''/'' # ys) = CHR ''/'' # ys" for ys
    using assms(1) by (subst dropWhile_append) (auto simp: dropWhile_eq_Nil_conv)
  show ?thesis using d(2) by (simp add: dirname_def path_split_def Let_def t d(1))
qed

lemma dirname_plain: "CHR ''/'' \<notin> set s \<Longrightarrow> dirname s = []"
proof -
  assume "CHR ''/'' \<notin> set s"
  then have d: "dropWhile (\<lambda>c. c \<noteq> CHR ''/'') (rev s) = []" by (auto simp: dropWhile_eq_Nil_conv)
  show ?thesis unfolding dirname_def path_split_def Let_def d by simp
qed

section \<open>Components\<close>

definition plain :: "string \<Rightarrow> bool" where
  "plain x \<longleftrightarrow> x \<noteq> [] \<and> x \<noteq> ''.'' \<and> x \<noteq> ''..'' \<and> CHR ''/'' \<notin> set x"

definition norm_stack :: "string \<Rightarrow> string list" where
  "norm_stack p = fold (norm_step True) (py_split CHR ''/'' p) []"

lemma norm_step_plain:
  "list_all plain st \<Longrightarrow> CHR ''/'' \<notin> set c \<Longrightarrow> list_all plain (norm_step True c st)"
  by (cases st) (auto simp: norm_step_def plain_def)

lemma norm_fold_plain:
  "list_all plain st \<Longrightarrow> (\<And>c. c \<in> set cs \<Longrightarrow> CHR ''/'' \<notin> set c) \<Longrightarrow>
     list_all plain (fold (norm_step True) cs st)"
  by (induction cs arbitrary: st) (auto intro: norm_step_plain)

lemma norm_stack_plain: "list_all plain (norm_stack p)"
  unfolding norm_stack_def by (rule norm_fold_plain) (auto dest: py_split_parts_no_sep)

lemma norm_fold_push: "list_all plain xs \<Longrightarrow> fold (norm_step True) xs st = rev xs @ st"
  by (induction xs arbitrary: st) (auto simp: norm_step_def plain_def)

lemma norm_fold_pop:
  "list_all plain st \<Longrightarrow> k \<le> length st \<Longrightarrow> fold (norm_step True) (replicate k ''..'') st = drop k st"
proof (induction k arbitrary: st)
  case (Suc k)
  then obtain x xs where "st = x # xs" by (cases st) auto
  with Suc show ?case by (auto simp: norm_step_def plain_def)
qed simp

lemma normpath_absolute:
  "prefix ''/'' p \<Longrightarrow> \<not> prefix ''//'' p \<Longrightarrow> normpath p = ''/'' @ py_join ''/'' (rev (norm_stack p))"
  by (simp add: normpath_def initial_slashes_def norm_stack_def Let_def)

lemma nonempty_parts_join:
  assumes "list_all plain xs"
  shows "nonempty_parts (''/'' @ py_join ''/'' xs) = xs"
proof (cases "xs = []")
  case False
  have "py_split CHR ''/'' (py_join ''/'' xs) = xs"
    using False assms by (intro py_split_join) (auto simp: list_all_iff plain_def)
  then show ?thesis
    using assms by (simp add: nonempty_parts_def list_all_iff plain_def)
qed (simp add: nonempty_parts_def)

lemma nonempty_parts_abspath:
  assumes "prefix ''/'' p" "\<not> prefix ''//'' p"
  shows "nonempty_parts (abspath cwd p) = rev (norm_stack p)"
proof -
  have "abspath cwd p = ''/'' @ py_join ''/'' (rev (norm_stack p))"
    using assms by (simp add: abspath_def normpath_absolute)
  moreover have "list_all plain (rev (norm_stack p))" by (simp add: norm_stack_plain list_all_rev)
  ultimately show ?thesis by (simp only: nonempty_parts_join)
qed

lemma norm_stack_join:
  assumes "\<not> prefix ''/'' r" and "a \<noteq> []"
  shows "norm_stack (path_join a r) = fold (norm_step True) (py_split CHR ''/'' r) (norm_stack a)"
proof (cases "last a = CHR ''/''")
  case True
  then obtain a' where "a = a' @ ''/''" using assms(2) by (metis append_butlast_last_id)
  then show ?thesis
    using assms by (simp add: path_join_def norm_stack_def py_split_append_any norm_step_def)
next
  case False
  then show ?thesis
    using assms by (simp add: path_join_def norm_stack_def py_split_append_any)
qed

lemma path_joins_plain:
  "xs \<noteq> [] \<Longrightarrow> (\<And>x. x \<in> set xs \<Longrightarrow> x \<noteq> [] \<and> CHR ''/'' \<notin> set x) \<Longrightarrow> path_joins xs = py_join ''/'' xs"
proof (induction xs rule: rev_induct)
  case (snoc x xs)
  show ?case
  proof (cases "xs = []")
    case False
    have nn: "py_join ''/'' ys \<noteq> [] \<and> last (py_join ''/'' ys) \<noteq> CHR ''/''"
      if "ys \<noteq> []" "\<And>y. y \<in> set ys \<Longrightarrow> y \<noteq> [] \<and> CHR ''/'' \<notin> set y" for ys
      using that
    proof (induction ys)
      case (Cons y ys)
      then show ?case by (cases "ys = []") (auto simp: py_join_Cons dest: last_in_set)
    qed simp
    have "path_joins (xs @ [x]) = path_join (path_joins xs) x"
      using False by (cases xs) (simp_all add: path_joins_def)
    also have "path_joins xs = py_join ''/'' xs" using snoc False by auto
    also have "path_join (py_join ''/'' xs) x = py_join ''/'' (xs @ [x])"
      using nn [OF False] snoc.prems(2) False
      by (auto simp: path_join_def py_join_append prefix_Cons) (metis in_set_conv_decomp list.set_intros(1) prefixE append_Cons)
    finally show ?thesis .
  qed (simp add: path_joins_def)
qed simp

text \<open>
  The relative path leads from the start to the target: joined to the start and normalised it
  names the target, for absolute paths.
\<close>

lemma relpath_leads:
  assumes "prefix ''/'' path" "\<not> prefix ''//'' path" "prefix ''/'' start" "\<not> prefix ''//'' start"
  shows "\<exists>r. relpath cwd path start = Inr r \<and> normpath (path_join start r) = normpath path"
proof -
  define ss ps where "ss = rev (norm_stack start)" and "ps = rev (norm_stack path)"
  define c where "c = longest_common_prefix ss ps"
  have pl: "list_all plain ss" "list_all plain ps"
    by (simp_all add: ss_def ps_def list_all_rev norm_stack_plain)
  have "prefix c ss" "prefix c ps"
    unfolding c_def by (rule longest_common_prefix_prefix1, rule longest_common_prefix_prefix2)
  then obtain s2 p2 where sp: "ss = c @ s2" "ps = c @ p2" by (auto simp: prefix_def)
  define rel where "rel = replicate (length s2) ''..'' @ p2"
  define r where "r = (if rel = [] then ''.'' else path_joins rel)"
  have ne: "path \<noteq> []" "start \<noteq> []" using assms by auto
  have run: "relpath cwd path start = Inr r"
    unfolding relpath_def nonempty_parts_abspath [OF assms(1,2)] nonempty_parts_abspath [OF assms(3,4)]
      ss_def [symmetric] ps_def [symmetric] c_def [symmetric] Let_def
    by (simp add: sp r_def rel_def ne)
  have p2: "list_all plain p2" using pl(2) unfolding sp by simp
  have parts: "x \<noteq> [] \<and> CHR ''/'' \<notin> set x" if x: "x \<in> set rel" for x
  proof (cases "x \<in> set p2")
    case True
    then have "plain x" using p2 by (simp add: list_all_iff)
    then show ?thesis by (simp add: plain_def)
  next
    case False
    then have "x = ''..''" using x unfolding rel_def by (auto dest: in_set_replicate [THEN iffD1])
    then show ?thesis by simp
  qed
  have split: "fold (norm_step True) (py_split CHR ''/'' r) st = fold (norm_step True) rel st"
    and rnp: "\<not> prefix ''/'' r" for st
  proof -
    show "fold (norm_step True) (py_split CHR ''/'' r) st = fold (norm_step True) rel st"
    proof (cases "rel = []")
      case False
      have "py_split CHR ''/'' (py_join ''/'' rel) = rel"
        using False parts by (intro py_split_join) auto
      then show ?thesis using False by (simp add: r_def path_joins_plain [OF False parts])
    qed (simp add: r_def norm_step_def)
    show "\<not> prefix ''/'' r"
    proof (cases rel)
      case (Cons x xs)
      then have "x \<noteq> []" "hd x \<noteq> CHR ''/''" using parts [of x] by (auto dest: hd_in_set)
      then show ?thesis
        using path_joins_plain [of rel] parts Cons
        by (cases x; cases xs) (auto simp: r_def)
    qed (simp add: r_def)
  qed
  have st: "norm_stack start = rev s2 @ rev c" "norm_stack path = rev p2 @ rev c"
  proof -
    have "norm_stack start = rev ss" "norm_stack path = rev ps" by (simp_all add: ss_def ps_def)
    then show "norm_stack start = rev s2 @ rev c" "norm_stack path = rev p2 @ rev c"
      unfolding sp by simp_all
  qed
  have "fold (norm_step True) (replicate (length s2) ''..'') (rev s2 @ rev c) = rev c"
    using pl(1) by (subst norm_fold_pop) (auto simp: sp list_all_rev)
  with p2 have "fold (norm_step True) rel (norm_stack start) = norm_stack path"
    by (simp add: rel_def st norm_fold_push)
  then have stack: "norm_stack (path_join start r) = norm_stack path"
    using norm_stack_join [OF rnp ne(2)] by (simp only: split)
  have j: "path_join start r = (if last start = CHR ''/'' then start @ r else start @ ''/'' @ r)"
    using rnp ne by (simp add: path_join_def)
  obtain a where a: "start = CHR ''/'' # a" using assms(3) by (auto simp: prefix_def)
  have na: "\<not> prefix ''/'' a" using assms(4) by (simp add: a)
  have "prefix ''/'' (path_join start r)" unfolding j unfolding a by simp
  moreover have "\<not> prefix ''//'' (path_join start r)"
  proof (cases a)
    case Nil
    then show ?thesis using rnp unfolding j unfolding a by simp
  next
    case (Cons x xs)
    then show ?thesis using na unfolding j unfolding a by simp
  qed
  ultimately show ?thesis
    using run assms by (simp add: normpath_absolute stack)
qed

end
