(* ===== verification/PageHierarchy.thy ===== *)
theory PageHierarchy
  imports PosixPath
begin

text \<open>
  \<open>plugins/pelican-page-hierarchy/page_hierarchy.py\<close>, a plugin of the website's generator that
  gives pages the hierarchy of their sources: the directory of a page relative to the configured
  page directories, the URL made of it, and the parents, children and ancestors of the pages.

  The generator's page objects are records of what the plugin reads and sets; in the second part
  a page is its position in the list of all pages, so that two pages are the same object exactly
  when their positions are equal.
\<close>

section \<open>Model\<close>

record page_settings =
  DEFAULT_LANG :: string
  PAGE_PATHS :: "string list"
  templates :: "(string, string) dict"

record page =
  is_page :: bool
  rel_source_path :: string
  source_path :: string
  slug :: string
  lang :: string
  meta :: "(string, string) dict"
  settings :: page_settings
  override_save_as :: "string option"
  override_url :: "string option"

subsection \<open>Paths and URLs\<close>

definition with_slash :: "string \<Rightarrow> string" where
  "with_slash p = (if suffix ''/'' p then p else p @ ''/'')"

text \<open>A sort by descending length that keeps the order of equals.\<close>

definition by_length_desc :: "string list \<Rightarrow> string list" where
  "by_length_desc ps = sort_key (\<lambda>p. - int (length p)) ps"

fun find_prefix :: "string \<Rightarrow> string list \<Rightarrow> string result" where
  "find_prefix path [] = Inl (UnexpectedException ''Page outside of PAGE_PATHS ?!?'')"
| "find_prefix path (p # ps) =
     (if prefix (with_slash p) path
      then Inr (butlast (drop (length (with_slash p)) path))
      else find_prefix path ps)"

definition get_path :: "page \<Rightarrow> string result" where
  "get_path p = find_prefix (dirname (rel_source_path p) @ ''/'') (by_length_desc (PAGE_PATHS (settings p)))"

definition in_default_lang :: "page \<Rightarrow> bool" where
  "in_default_lang p \<longleftrightarrow> lang p = DEFAULT_LANG (settings p)"

text \<open>
  \<open>template.format(**metadata)\<close> for templates whose fields are plain names; a field with an
  attribute, an index, a conversion or a format specification is outside the model.
\<close>

function py_format :: "string \<Rightarrow> (string, string) dict \<Rightarrow> string result" where
  "py_format t md = (case t of
      [] \<Rightarrow> Inr []
    | c # cs \<Rightarrow>
        if c = CHR ''{'' then
          (if prefix ''{'' cs then rbind (py_format (tl cs) md) (\<lambda>r. Inr (c # r))
           else let name = takeWhile (\<lambda>x. x \<noteq> CHR ''}'') cs; rest = dropWhile (\<lambda>x. x \<noteq> CHR ''}'') cs
             in if rest = [] then Inl ValueError
                else if name = [] then Inl IndexError
                else if set name \<inter> set ''.[!:'' \<noteq> {} then Inl (UnexpectedException ''not modelled'')
                else rbind (dict_item md name) (\<lambda>v. rbind (py_format (tl rest) md) (\<lambda>r. Inr (v @ r))))
        else if c = CHR ''}'' then
          (if prefix ''}'' cs then rbind (py_format (tl cs) md) (\<lambda>r. Inr (c # r)) else Inl ValueError)
        else rbind (py_format cs md) (\<lambda>r. Inr (c # r)))"
  by pat_completeness auto
termination
proof (relation "measure (\<lambda>(t, _). length t)")
  fix t cs :: string and md :: "(string, string) dict" and c rest
  assume "t = c # cs" "rest = dropWhile (\<lambda>x. x \<noteq> CHR ''}'') cs"
  then show "((tl rest, md), (t, md)) \<in> measure (\<lambda>(t, _). length t)"
    using length_dropWhile_le [of "\<lambda>x. x \<noteq> CHR ''}''" cs] by simp
qed (auto simp: le_imp_less_Suc)

declare py_format.simps [simp del]

definition override_value :: "page \<Rightarrow> string \<Rightarrow> string \<Rightarrow> string result" where
  "override_value p path key =
    (let metadata = dput ''slug'' (path_join path (slug p)) (meta p);
         infix_lang = (if in_default_lang p then [] else ''LANG_'')
     in rbind (dict_item (templates (settings p)) (''PAGE_'' @ infix_lang @ py_upper key)) (\<lambda>t.
        py_format t metadata))"

definition override_metadata :: "page \<Rightarrow> page result" where
  "override_metadata p =
    (if \<not> is_page p then Inr p
     else rbind (get_path p) (\<lambda>path.
       rbind (case override_save_as p of Some _ \<Rightarrow> Inr p
          | None \<Rightarrow> rbind (override_value p path ''save_as'') (\<lambda>v. Inr (p\<lparr>override_save_as := Some v\<rparr>))) (\<lambda>p.
       case override_url p of Some _ \<Rightarrow> Inr p
          | None \<Rightarrow> rbind (override_value p path ''url'') (\<lambda>v. Inr (p\<lparr>override_url := Some v\<rparr>)))))"

subsection \<open>Relationships\<close>

text \<open>\<open>page.url\<close> is the generator's; it is given with the page.\<close>

record relations =
  parent :: "nat \<Rightarrow> nat option"
  children :: "nat \<Rightarrow> nat list"

definition parent_url :: "string \<Rightarrow> string" where
  "parent_url url = (let d = dirname (butlast url) in if d = [] then [] else d @ ''/'')"

definition link_step :: "(page \<times> string) list \<Rightarrow> nat \<Rightarrow> nat \<Rightarrow> relations \<Rightarrow> relations" where
  "link_step ps i j r =
    (if snd (ps ! j) = parent_url (snd (ps ! i)) \<and> j \<noteq> i
     then r\<lparr>parent := (parent r)(i := Some j), children := (children r)(j := children r j @ [i])\<rparr>
     else r)"

definition same_page :: "page \<Rightarrow> page \<Rightarrow> bool" where
  "same_page p q \<longleftrightarrow> slug p = slug q \<and> dirname (source_path p) = dirname (source_path q)"

definition fallback_step :: "(page \<times> string) list \<Rightarrow> nat \<Rightarrow> nat \<Rightarrow> relations \<Rightarrow> relations" where
  "fallback_step ps i j r =
    (if same_page (fst (ps ! i)) (fst (ps ! j)) then r\<lparr>parent := (parent r)(i := parent r j)\<rparr> else r)"

text \<open>The first \<open>np\<close> of the pages are \<open>generator.pages\<close>, the others the translations.\<close>

definition page_step :: "(page \<times> string) list \<Rightarrow> nat \<Rightarrow> nat \<Rightarrow> relations \<Rightarrow> relations" where
  "page_step ps np i r =
    (let r = fold (link_step ps i) [0..<length ps] r
     in if parent r i = None \<and> \<not> in_default_lang (fst (ps ! i))
        then fold (fallback_step ps i) [0..<np] r else r)"

definition relationships :: "(page \<times> string) list \<Rightarrow> nat \<Rightarrow> relations" where
  "relationships ps np =
     fold (page_step ps np) [0..<length ps] \<lparr>parent = (\<lambda>_. None), children = (\<lambda>_. [])\<rparr>"

text \<open>The loop over the ancestors; \<open>None\<close> when it does not end.\<close>

partial_function (option) ancestors :: "(nat \<Rightarrow> nat option) \<Rightarrow> nat \<Rightarrow> nat list \<Rightarrow> nat list option" where
  "ancestors par p parents =
    (case par p of None \<Rightarrow> Some parents | Some q \<Rightarrow> ancestors par q (q # parents))"

definition set_relationships :: "page list \<Rightarrow> page list \<Rightarrow> (page \<Rightarrow> string) \<Rightarrow> relations \<times> nat list option list" where
  "set_relationships pages translations url =
    (let ps = map (\<lambda>p. (p, url p)) (pages @ translations);
         r = relationships ps (length pages)
     in (r, map (\<lambda>i. ancestors (parent r) i []) [0..<length ps]))"

section \<open>The longest prefix\<close>

lemma find_prefix_first:
  "find_prefix path ps = (case find (\<lambda>p. prefix (with_slash p) path) ps of
     None \<Rightarrow> Inl (UnexpectedException ''Page outside of PAGE_PATHS ?!?'')
   | Some p \<Rightarrow> Inr (butlast (drop (length (with_slash p)) path)))"
  by (induction ps) auto

lemma by_length_desc_first:
  assumes "find P (by_length_desc ps) = Some p"
  shows "p \<in> set ps \<and> P p \<and> (\<forall>q \<in> set ps. P q \<longrightarrow> length q \<le> length p)"
proof -
  let ?s = "by_length_desc ps"
  obtain i where i: "i < length ?s" "P (?s ! i)" "p = ?s ! i" "\<forall>j<i. \<not> P (?s ! j)"
    using assms by (auto simp: find_Some_iff)
  have sorted: "sorted (map (\<lambda>p. - int (length p)) ?s)" by (simp add: by_length_desc_def)
  have members: "set ?s = set ps" by (simp add: by_length_desc_def)
  have "length q \<le> length p" if "q \<in> set ps" "P q" for q
  proof -
    have "q \<in> set ?s" using that(1) by (simp add: members)
    then obtain j where j: "j < length ?s" "q = ?s ! j" by (auto simp: in_set_conv_nth)
    have "i \<le> j" using i(4) that(2) j(2) by (meson not_le)
    then have "- int (length (?s ! i)) \<le> - int (length (?s ! j))"
      using sorted_nth_mono [OF sorted, of i j] i(1) j(1) by simp
    then show ?thesis using i(3) j(2) by simp
  qed
  then show ?thesis using i members by auto
qed

text \<open>
  C22: the path of a page is its directory below the longest of the page directories that
  contain it; the plugin raises exactly when none does.
\<close>

theorem get_path_longest:
  "case get_path p of
     Inr path \<Rightarrow> \<exists>q \<in> set (PAGE_PATHS (settings p)).
        dirname (rel_source_path p) @ ''/'' = with_slash q @ path @ (if with_slash q = dirname (rel_source_path p) @ ''/'' then [] else ''/'')
      \<and> (\<forall>q' \<in> set (PAGE_PATHS (settings p)).
           prefix (with_slash q') (dirname (rel_source_path p) @ ''/'') \<longrightarrow> length q' \<le> length q)
   | Inl e \<Rightarrow> e = UnexpectedException ''Page outside of PAGE_PATHS ?!?''
      \<and> (\<forall>q' \<in> set (PAGE_PATHS (settings p)). \<not> prefix (with_slash q') (dirname (rel_source_path p) @ ''/''))"
proof -
  let ?d = "dirname (rel_source_path p) @ ''/''" and ?ps = "PAGE_PATHS (settings p)"
  show ?thesis
  proof (cases "find (\<lambda>q. prefix (with_slash q) ?d) (by_length_desc ?ps)")
    case None
    then have "\<forall>q' \<in> set ?ps. \<not> prefix (with_slash q') ?d"
      by (auto simp: find_None_iff by_length_desc_def)
    with None show ?thesis by (simp add: get_path_def find_prefix_first)
  next
    case (Some q)
    from by_length_desc_first [OF this] have q: "q \<in> set ?ps" "prefix (with_slash q) ?d"
      "\<forall>q' \<in> set ?ps. prefix (with_slash q') ?d \<longrightarrow> length q' \<le> length q" by auto
    from q(2) obtain r where r: "?d = with_slash q @ r" by (auto simp: prefix_def)
    have "?d = with_slash q @ butlast r @ (if with_slash q = ?d then [] else ''/'')"
    proof (cases "r = []")
      case False
      then have "last r = CHR ''/''" using arg_cong [OF r, of last] by simp
      then show ?thesis using r False by (metis append_butlast_last_id append_self_conv)
    qed (use r in simp)
    then show ?thesis using Some q(1,3) r by (auto simp: get_path_def find_prefix_first)
  qed
qed

section \<open>URLs mirror directories\<close>

lemma py_format_slug: "dget md ''slug'' = Some v \<Longrightarrow> py_format ''{slug}/'' md = Inr (v @ ''/'')"
  by (simp add: py_format.simps [of "''{slug}/''"] py_format.simps [of "''/''"] py_format.simps [of "[]"])

lemma parent_url_page:
  assumes "s \<noteq> []" "CHR ''/'' \<notin> set s" "d = [] \<or> last d \<noteq> CHR ''/''"
  shows "parent_url (path_join d s @ ''/'') = (if d = [] then [] else d @ ''/'')"
proof (cases "d = []")
  case True
  then show ?thesis using assms(1,2)
    by (simp add: path_join_def parent_url_def butlast_append dirname_plain)
next
  case False
  have "\<not> prefix ''/'' s" using assms(1,2) by (cases s) auto
  then have j: "path_join d s = d @ ''/'' @ s" using False assms(3) by (simp add: path_join_def)
  have "dirname (d @ ''/'' @ s) = d" using False assms by (intro dirname_snoc) auto
  moreover have "butlast ((d @ ''/'' @ s) @ ''/'') = d @ ''/'' @ s" by (simp only: butlast_snoc)
  ultimately show ?thesis
    unfolding j parent_url_def using False by (simp only: Let_def if_False)
qed

lemma py_format_plain: "CHR ''{'' \<notin> set t \<Longrightarrow> CHR ''}'' \<notin> set t \<Longrightarrow> py_format t md = Inr t"
  by (induction t) (auto simp: py_format.simps [of "_ # _"] py_format.simps [of "[]"])

lemma py_format_slug_index:
  assumes "dget md ''slug'' = Some v"
  shows "py_format ''{slug}/index.html'' md = Inr (v @ ''/index.html'')"
proof -
  have "py_format ''/index.html'' md = Inr ''/index.html''" by (rule py_format_plain) simp_all
  then show ?thesis using assms by (simp add: py_format.simps [of "''{slug}/index.html''"])
qed

text \<open>
  A page for which the plugin makes the URL, and its directory; the templates of the page's
  language are those of the website's settings. Whether \<open>override_save_as\<close> is set already does not
  matter: the plugin keeps a value that it finds.
\<close>

definition template_of :: "page \<Rightarrow> string \<Rightarrow> string option" where
  "template_of p key = dget (templates (settings p)) ((if in_default_lang p then ''PAGE_'' else ''PAGE_LANG_'') @ key)"

definition hierarchy_page :: "page \<Rightarrow> string \<Rightarrow> bool" where
  "hierarchy_page p path \<longleftrightarrow> is_page p \<and> override_url p = None \<and> get_path p = Inr path
     \<and> template_of p ''URL'' = Some ''{slug}/'' \<and> template_of p ''SAVE_AS'' = Some ''{slug}/index.html''
     \<and> slug p \<noteq> [] \<and> CHR ''/'' \<notin> set (slug p)"

lemma override_hierarchy_page:
  assumes "hierarchy_page p path"
  shows "override_metadata p = Inr (p\<lparr>
      override_save_as := Some (case override_save_as p of Some f \<Rightarrow> f | None \<Rightarrow> path_join path (slug p) @ ''/index.html''),
      override_url := Some (path_join path (slug p) @ ''/'')\<rparr>)"
proof -
  have up: "py_upper ''url'' = ''URL''" "py_upper ''save_as'' = ''SAVE_AS''" by code_simp+
  have v: "override_value p path ''url'' = Inr (path_join path (slug p) @ ''/'')"
    "override_value p path ''save_as'' = Inr (path_join path (slug p) @ ''/index.html'')"
    using assms by (simp_all add: hierarchy_page_def template_of_def override_value_def Let_def up
        py_format_slug py_format_slug_index pyd.get_put split: if_splits)
  have frame: "override_value (p\<lparr>override_save_as := f\<rparr>) path key = override_value p path key" for f key
    by (simp add: override_value_def in_default_lang_def)
  have "p = p\<lparr>override_save_as := Some f\<rparr>" if "override_save_as p = Some f" for f
    using that by (cases p) simp
  with assms v frame show ?thesis
    by (auto simp: hierarchy_page_def override_metadata_def split: option.splits)
qed

text \<open>
  C15: the URLs mirror the directories: with the templates of the website's settings,
  \<open>{slug}/\<close> and \<open>{slug}/index.html\<close>, for the languages of two pages whose URLs are not overridden
  yet and whose slugs are single path components, if the directory of the first page is the path
  and slug of the second, then the URL under which the parent of the first is looked for is the
  URL that the second gets. Either page is saved as the \<open>index.html\<close> of its URL, unless the place
  where to save it was overridden before, which is kept.
\<close>

theorem urls_mirror_directories:
  assumes "hierarchy_page p path" and "hierarchy_page q up" and "path = path_join up (slug q)"
  shows "\<exists>p' q' u v. override_metadata p = Inr p' \<and> override_metadata q = Inr q'
    \<and> override_url p' = Some u \<and> override_url q' = Some v
    \<and> u = path_join path (slug p) @ ''/'' \<and> parent_url u = v
    \<and> override_save_as p' = Some (case override_save_as p of Some f \<Rightarrow> f | None \<Rightarrow> u @ ''index.html'')
    \<and> override_save_as q' = Some (case override_save_as q of Some f \<Rightarrow> f | None \<Rightarrow> v @ ''index.html'')"
proof -
  have q: "slug q \<noteq> []" "CHR ''/'' \<notin> set (slug q)" using assms(2) by (simp_all add: hierarchy_page_def)
  then have "path \<noteq> []" "last path = last (slug q)"
    by (auto simp: assms(3) path_join_def)
  moreover from this q have "last path \<noteq> CHR ''/''" by (metis last_in_set)
  moreover from this have "parent_url (path_join path (slug p) @ ''/'') = (if path = [] then [] else path @ ''/'')"
    using assms(1) by (intro parent_url_page) (auto simp: hierarchy_page_def)
  ultimately show ?thesis
    using override_hierarchy_page [OF assms(1)] override_hierarchy_page [OF assms(2)] assms(3)
    by (auto split: option.splits)
qed

section \<open>Children\<close>

lemma link_fold_children:
  "children (fold (link_step ps i) js r) k =
     children r k @ concat (map (\<lambda>j. if j = k \<and> snd (ps ! j) = parent_url (snd (ps ! i)) \<and> j \<noteq> i then [i] else []) js)"
  by (induction js arbitrary: r) (auto simp: link_step_def)

lemma fallback_fold_children: "children (fold (fallback_step ps i) js r) = children r"
  by (induction js arbitrary: r) (auto simp: fallback_step_def)

lemma concat_single:
  "distinct js \<Longrightarrow> concat (map (\<lambda>j. if j = k \<and> Q j then [x] else []) js) = (if k \<in> set js \<and> Q k then [x] else [])"
  by (induction js) auto

lemma page_step_children:
  assumes "k < length ps"
  shows "children (page_step ps np i r) k =
    children r k @ (if snd (ps ! k) = parent_url (snd (ps ! i)) \<and> k \<noteq> i then [i] else [])"
  using assms by (simp add: page_step_def Let_def fallback_fold_children link_fold_children concat_single)

lemma link_fold_parent:
  "parent (fold (link_step ps i) js r) k =
     (if k = i then (case rev (filter (\<lambda>j. snd (ps ! j) = parent_url (snd (ps ! i)) \<and> j \<noteq> i) js) of
        [] \<Rightarrow> parent r i | j # _ \<Rightarrow> Some j) else parent r k)"
  by (induction js rule: rev_induct) (auto simp: link_step_def)

lemma fallback_fold_parent_other: "k \<noteq> i \<Longrightarrow> parent (fold (fallback_step ps i) js r) k = parent r k"
  by (induction js arbitrary: r) (auto simp: fallback_step_def)

text \<open>
  C21: the children of a page are exactly the other pages whose URL lies directly below its URL,
  in the order of the generator; and a page whose parent URL belongs to exactly one other page
  has that page as parent.
\<close>

theorem relationships_by_url:
  assumes "j < length ps"
  shows "children (relationships ps np) j
      = filter (\<lambda>i. snd (ps ! j) = parent_url (snd (ps ! i)) \<and> j \<noteq> i) [0..<length ps]
    \<and> (\<forall>i \<in> set (children (relationships ps np) j).
         (\<forall>k < length ps. snd (ps ! k) = snd (ps ! j) \<and> k \<noteq> i \<longrightarrow> k = j) \<longrightarrow>
           parent (relationships ps np) i = Some j)"
proof -
  let ?R = "\<lambda>i j. snd (ps ! j) = parent_url (snd (ps ! i)) \<and> j \<noteq> i"
  let ?run = "\<lambda>m. fold (page_step ps np) [0..<m] \<lparr>parent = (\<lambda>_. None), children = (\<lambda>_. [])\<rparr>"
  have ch: "children (?run m) j = filter (\<lambda>i. ?R i j) [0..<m]" for m
    by (induction m) (auto simp: page_step_children [OF assms])
  have par: "parent (?run m) i = Some j"
    if i: "?R i j" "\<And>k. k < length ps \<Longrightarrow> ?R i k \<Longrightarrow> k = j" "i < m" for i m
    using i(3)
  proof (induction m)
    case (Suc m)
    show ?case
    proof (cases "i = m")
      case True
      have "filter (?R i) [0..<length ps] \<noteq> []" using i(1) assms by (auto simp: filter_empty_conv)
      then obtain k ks where k: "rev (filter (?R i) [0..<length ps]) = k # ks" by (cases "rev (filter (?R i) [0..<length ps])") auto
      then have "k \<in> set (filter (?R i) [0..<length ps])" by (metis list.set_intros(1) set_rev)
      then have "k = j" using i(2) by auto
      then show ?thesis using k True by (simp add: page_step_def Let_def link_fold_parent)
    next
      case False
      then show ?thesis using Suc by (simp add: page_step_def Let_def link_fold_parent fallback_fold_parent_other)
    qed
  qed simp
  show ?thesis
    unfolding relationships_def using ch [of "length ps"] par [where m = "length ps"] by auto
qed

section \<open>Ancestors\<close>

declare ancestors.simps [code, simp del]

text \<open>A parent that is found has a shorter URL.\<close>

lemma length_dirname: "length (dirname s) \<le> length s"
  using length_dropWhile_le [of "\<lambda>c. c \<noteq> CHR ''/''" "rev s"]
    length_dropWhile_le [of "\<lambda>c. c = CHR ''/''" "dropWhile (\<lambda>c. c \<noteq> CHR ''/'') (rev s)"]
  by (auto simp: dirname_def path_split_def Let_def)

lemma length_dirname_less:
  assumes "s \<noteq> []" "hd s \<noteq> CHR ''/''"
  shows "length (dirname s) < length s"
proof (cases "dropWhile (\<lambda>c. c \<noteq> CHR ''/'') (rev s)")
  case Nil
  then show ?thesis using assms(1) unfolding dirname_def path_split_def Let_def Nil by simp
next
  case (Cons x xs)
  then have x: "x = CHR ''/''" by (auto simp: dropWhile_eq_Cons_conv)
  have "length (x # xs) \<le> length (rev s)" unfolding Cons [symmetric] by (rule length_dropWhile_le)
  moreover have "\<not> list_all (\<lambda>c. c = CHR ''/'') (rev (x # xs))"
  proof
    assume all: "list_all (\<lambda>c. c = CHR ''/'') (rev (x # xs))"
    have "rev s = takeWhile (\<lambda>c. c \<noteq> CHR ''/'') (rev s) @ x # xs"
      unfolding Cons [symmetric] by simp
    then have "s = rev (takeWhile (\<lambda>c. c \<noteq> CHR ''/'') (rev s) @ x # xs)" by (subst rev_swap [symmetric])
    then obtain zs where "s = rev (x # xs) @ zs" by (simp only: rev_append)
    then have "hd s = hd (rev (x # xs))" by (simp add: hd_append)
    moreover have "hd (rev (x # xs)) \<in> set (rev (x # xs))" by (intro hd_in_set) simp
    ultimately show False using all assms(2) by (simp only: list_all_iff)
  qed
  ultimately show ?thesis
    using length_dropWhile_le [of "\<lambda>c. c = CHR ''/''" xs] x
    unfolding dirname_def path_split_def Let_def Cons by simp
qed

lemma length_parent_url:
  assumes "u \<noteq> []" "hd u \<noteq> CHR ''/''"
  shows "length (parent_url u) < length u"
proof (cases "dirname (butlast u) = []")
  case False
  then have "butlast u \<noteq> []" by (auto simp: dirname_plain)
  moreover from this have "hd (butlast u) = hd u" by (cases u) auto
  ultimately have "length (dirname (butlast u)) < length (butlast u)"
    using assms(2) by (intro length_dirname_less) auto
  then show ?thesis using False by (simp add: parent_url_def)
qed (use assms(1) in \<open>simp add: parent_url_def\<close>)

definition shorter_parents :: "(page \<times> string) list \<Rightarrow> relations \<Rightarrow> bool" where
  "shorter_parents ps r \<longleftrightarrow> (\<forall>i k. parent r i = Some k \<longrightarrow>
     k < length ps \<and> length (snd (ps ! k)) < length (snd (ps ! i)))"

text \<open>
  What makes the loop end: every URL is relative and not empty, and a translation's URL is not
  shorter than that of the page it translates.
\<close>

definition regular_urls :: "(page \<times> string) list \<Rightarrow> nat \<Rightarrow> bool" where
  "regular_urls ps np \<longleftrightarrow> np \<le> length ps
     \<and> (\<forall>i < length ps. snd (ps ! i) \<noteq> [] \<and> hd (snd (ps ! i)) \<noteq> CHR ''/'')
     \<and> (\<forall>i < length ps. \<forall>j < np. \<not> in_default_lang (fst (ps ! i)) \<and> same_page (fst (ps ! i)) (fst (ps ! j)) \<longrightarrow>
          length (snd (ps ! j)) \<le> length (snd (ps ! i)))"

lemma link_fold_shorter:
  assumes "regular_urls ps np" "i < length ps" "\<forall>j \<in> set js. j < length ps" "shorter_parents ps r"
  shows "shorter_parents ps (fold (link_step ps i) js r)"
  using assms(3,4)
proof (induction js arbitrary: r)
  case (Cons j js)
  have "length (parent_url (snd (ps ! i))) < length (snd (ps ! i))"
    using assms(1,2) by (intro length_parent_url) (auto simp: regular_urls_def)
  then have "shorter_parents ps (link_step ps i j r)"
    using Cons.prems by (auto simp: shorter_parents_def link_step_def)
  then show ?case using Cons by simp
qed simp

lemma fallback_fold_shorter:
  assumes "regular_urls ps np" "i < length ps" "\<not> in_default_lang (fst (ps ! i))"
    and "\<forall>j \<in> set js. j < np" "shorter_parents ps r"
  shows "shorter_parents ps (fold (fallback_step ps i) js r)"
  using assms(4,5)
proof (induction js arbitrary: r)
  case (Cons j js)
  have "length (snd (ps ! j)) \<le> length (snd (ps ! i))" if "same_page (fst (ps ! i)) (fst (ps ! j))"
    using assms(1,2,3) Cons.prems(1) that by (auto simp: regular_urls_def)
  then have "shorter_parents ps (fallback_step ps i j r)"
    using Cons.prems(2) unfolding shorter_parents_def fallback_step_def by (auto intro: less_le_trans)
  then show ?case using Cons by simp
qed simp

lemma relationships_shorter:
  assumes "regular_urls ps np"
  shows "shorter_parents ps (relationships ps np)"
proof -
  have "shorter_parents ps (fold (page_step ps np) [0..<m] \<lparr>parent = (\<lambda>_. None), children = (\<lambda>_. [])\<rparr>)"
    if "m \<le> length ps" for m
    using that
  proof (induction m)
    case 0
    then show ?case by (simp add: shorter_parents_def)
  next
    case (Suc m)
    then show ?case
      using link_fold_shorter [OF assms, of m "[0..<length ps]"] fallback_fold_shorter [OF assms, of m "[0..<np]"]
      by (simp add: page_step_def Let_def)
  qed
  then show ?thesis by (simp add: relationships_def)
qed

text \<open>A chain of parents, from the page upwards, that ends at a page without parent.\<close>

fun parent_chain :: "(nat \<Rightarrow> nat option) \<Rightarrow> nat \<Rightarrow> nat list \<Rightarrow> bool" where
  "parent_chain par p [] \<longleftrightarrow> par p = None"
| "parent_chain par p (q # qs) \<longleftrightarrow> par p = Some q \<and> parent_chain par q qs"

lemma ancestors_chain: "parent_chain par p qs \<Longrightarrow> ancestors par p acc = Some (rev qs @ acc)"
  by (induction qs arbitrary: p acc) (auto simp: ancestors.simps [of par])

lemma chain_exists:
  assumes "shorter_parents ps r"
  shows "\<exists>qs. parent_chain (parent r) i qs"
proof (induction "length (snd (ps ! i))" arbitrary: i rule: less_induct)
  case less
  show ?case
  proof (cases "parent r i")
    case None
    then show ?thesis by (intro exI [of _ "[]"]) simp
  next
    case (Some k)
    then have "length (snd (ps ! k)) < length (snd (ps ! i))" using assms by (simp add: shorter_parents_def)
    from less [OF this] obtain qs where "parent_chain (parent r) k qs" by blast
    then show ?thesis using Some by (intro exI [of _ "k # qs"]) simp
  qed
qed

text \<open>
  C14: when every URL is relative and not empty, and the URL of every page that is not in the
  default language is at least as long as that of each page of \<open>generator.pages\<close> with its slug and
  directory, the loop over the ancestors ends for every page and collects its chain of parents, the
  outermost first. The last condition is needed: lemma \<open>ancestors_short_translation\<close>.
\<close>

theorem ancestors_terminate:
  assumes "regular_urls ps np"
  shows "\<exists>qs. parent_chain (parent (relationships ps np)) i qs
    \<and> ancestors (parent (relationships ps np)) i [] = Some (rev qs)"
  using chain_exists [OF relationships_shorter [OF assms], of i] ancestors_chain by fastforce

lemma ancestors_Some_chain:
  assumes "ancestors par p acc = Some res"
  shows "\<exists>qs. parent_chain par p qs"
proof (rule ancestors.raw_induct [where P = "\<lambda>par p _ _. \<exists>qs. parent_chain par p qs", OF _ assms])
  fix anc :: "(nat \<Rightarrow> nat option) \<Rightarrow> nat \<Rightarrow> nat list \<Rightarrow> nat list option" and par p parents y
  assume IH: "\<And>par p parents y. anc par p parents = Some y \<Longrightarrow> \<exists>qs. parent_chain par p qs"
    and run: "(case par p of None \<Rightarrow> Some parents | Some q \<Rightarrow> anc par q (q # parents)) = Some y"
  show "\<exists>qs. parent_chain par p qs"
  proof (cases "par p")
    case None
    then show ?thesis by (intro exI [of _ "[]"]) simp
  next
    case (Some q)
    then obtain qs where "parent_chain par q qs" using IH [of par q "p # []"] IH run by fastforce
    then show ?thesis using Some by (intro exI [of _ "q # qs"]) simp
  qed
qed

text \<open>
  Relative and non-empty URLs do not suffice: the parent that the fallback copies to a translation
  with a short URL may be a page below that translation.
\<close>

lemma ancestors_short_translation:
  assumes "snd p = ''a/b/c/''" "snd q = ''a/b/''" "snd r = ''a/''"
    and "in_default_lang (fst p)" "in_default_lang (fst q)" "\<not> in_default_lang (fst r)"
    and "same_page (fst r) (fst p)" "\<not> same_page (fst r) (fst q)"
  shows "ancestors (parent (relationships [p, q, r] 2)) 2 [] = None"
proof -
  let ?par = "parent (relationships [p, q, r] 2)"
  have u: "parent_url ''a/b/c/'' = ''a/b/''" "parent_url ''a/b/'' = ''a/''" "parent_url ''a/'' = []"
    using parent_url_page [of "''c''" "''a/b''"] parent_url_page [of "''b''" "''a''"]
      parent_url_page [of "''a''" "[]"] by (simp_all add: path_join_def)
  have par: "?par 1 = Some 2" "?par 2 = Some 1"
    using assms by (simp_all add: relationships_def page_step_def link_step_def fallback_step_def u
        upt_rec Let_def numeral_2_eq_2)
  have "\<not> parent_chain ?par i qs" if "i = 1 \<or> i = 2" for i qs
    using that par by (induction qs arbitrary: i) auto
  then show ?thesis using ancestors_Some_chain [of ?par 2] by (metis option.exhaust)
qed

text \<open>
  C40: two pages whose URL is empty are each other's parent, and the loop over the ancestors of
  either never ends.
\<close>

theorem ancestors_empty_urls:
  assumes "snd p = []" and "snd q = []"
  shows "ancestors (parent (relationships [p, q] np)) 0 [] = None
    \<and> ancestors (parent (relationships [p, q] np)) 1 [] = None"
proof -
  let ?par = "parent (relationships [p, q] np)"
  have par: "?par 0 = Some 1" "?par 1 = Some 0"
    using assms by (simp_all add: relationships_def page_step_def link_step_def parent_url_def
        dirname_plain Let_def)
  have "\<not> parent_chain ?par i qs" if "i < 2" for i qs
    using that
  proof (induction qs arbitrary: i)
    case Nil
    then have "i = 0 \<or> i = 1" by linarith
    then show ?case using par by auto
  next
    case (Cons k qs)
    then have "i = 0 \<or> i = 1" by linarith
    then show ?case using par Cons.IH [of 0] Cons.IH [of 1] by auto
  qed
  then show ?thesis using ancestors_Some_chain [of ?par] by (metis one_less_numeral_iff option.exhaust pos2 semiring_norm(76))
qed

definition sample_page :: "string \<Rightarrow> string \<Rightarrow> page" where
  "sample_page dir s = \<lparr>is_page = True, rel_source_path = dir @ ''/'' @ s @ ''.md'', source_path = dir @ ''/'' @ s @ ''.md'',
     slug = s, lang = ''en'', meta = [],
     settings = \<lparr>DEFAULT_LANG = ''en'', PAGE_PATHS = [''pages''], 
       templates = [(''PAGE_URL'', ''{slug}/''), (''PAGE_SAVE_AS'', ''{slug}/index.html'')]\<rparr>,
     override_save_as = None, override_url = None\<rparr>"

lemma sample_page_path:
  "get_path (sample_page ''pages/projects'' ''p1'') = Inr ''projects''"
  "get_path (sample_page ''pages'' ''projects'') = Inr []"
proof -
  have d: "dirname ''pages/projects/p1.md'' = ''pages/projects''" "dirname ''pages/projects.md'' = ''pages''"
    using dirname_snoc [of "''p1.md''" "''pages/projects''"] dirname_snoc [of "''projects.md''" "''pages''"]
    by simp_all
  have w: "with_slash ''pages'' = ''pages/''" by (simp add: with_slash_def suffix_def)
  show "get_path (sample_page ''pages/projects'' ''p1'') = Inr ''projects''"
    "get_path (sample_page ''pages'' ''projects'') = Inr []"
    by (simp_all add: get_path_def sample_page_def d w by_length_desc_def)
qed

theorem get_path_longest_witness:
  "get_path (sample_page ''pages/projects'' ''p1'') = Inr ''projects''
   \<and> with_slash (hd (PAGE_PATHS (settings (sample_page ''pages/projects'' ''p1'')))) = ''pages/''"
proof -
  have "with_slash ''pages'' = ''pages/''" by (simp add: with_slash_def suffix_def)
  then show ?thesis
    using get_path_longest [of "sample_page ''pages/projects'' ''p1''"] sample_page_path(1)
    by (simp add: sample_page_def)
qed

theorem urls_mirror_directories_witness:
  "\<exists>p' u. override_metadata (sample_page ''pages/projects'' ''p1'') = Inr p'
    \<and> override_url p' = Some u \<and> parent_url u = ''projects/'' \<and> override_save_as p' = Some (u @ ''index.html'')"
proof -
  let ?p = "sample_page ''pages/projects'' ''p1''" and ?q = "sample_page ''pages'' ''projects''"
  have h: "hierarchy_page ?p ''projects''" "hierarchy_page ?q []"
    using sample_page_path
    by (simp_all add: hierarchy_page_def) (simp_all add: sample_page_def in_default_lang_def template_of_def)
  have "''projects'' = path_join [] (slug ?q)" by (simp add: path_join_def sample_page_def)
  from urls_mirror_directories [OF h this]
  obtain p' q' u v where r: "override_metadata ?p = Inr p'" "override_metadata ?q = Inr q'"
      "override_url p' = Some u" "override_url q' = Some v" "parent_url u = v"
      "override_save_as p' = Some (case override_save_as ?p of Some f \<Rightarrow> f | None \<Rightarrow> u @ ''index.html'')"
    by (elim exE conjE) (rule that)
  have "v = ''projects/''"
    using r(2,4) override_hierarchy_page [OF h(2)] by (auto simp: sample_page_def path_join_def)
  with r show ?thesis by (auto simp: sample_page_def)
qed

definition sample_pages :: "(page \<times> string) list" where
  "sample_pages = [(sample_page ''pages'' ''projects'', ''projects/''),
     (sample_page ''pages/projects'' ''p1'', ''projects/p1/'')]"

lemma sample_parent_urls: "parent_url ''projects/p1/'' = ''projects/''" "parent_url ''projects/'' = []"
  using parent_url_page [of "''p1''" "''projects''"] parent_url_page [of "''projects''" "[]"]
  by (simp_all add: path_join_def)

theorem relationships_by_url_witness:
  "children (relationships sample_pages 2) 0 = [1] \<and> parent (relationships sample_pages 2) 1 = Some 0"
proof -
  have len: "0 < length sample_pages" by (simp add: sample_pages_def)
  have "[0..<length sample_pages] = [0, 1]" by (simp add: sample_pages_def upt_rec)
  then have ch: "children (relationships sample_pages 2) 0 = [1]"
    using relationships_by_url [OF len, of 2] sample_parent_urls by (simp add: sample_pages_def)
  have "\<forall>k < length sample_pages. snd (sample_pages ! k) = snd (sample_pages ! 0) \<and> k \<noteq> 1 \<longrightarrow> k = 0"
    by (auto simp: sample_pages_def less_Suc_eq)
  then show ?thesis using relationships_by_url [OF len, of 2] ch by simp
qed

theorem ancestors_terminate_witness:
  "ancestors (parent (relationships sample_pages 2)) 1 [] = Some [0]"
proof -
  have "regular_urls sample_pages 2"
    by (auto simp: regular_urls_def sample_pages_def less_Suc_eq in_default_lang_def sample_page_def)
  then obtain qs where qs: "parent_chain (parent (relationships sample_pages 2)) 1 qs"
      "ancestors (parent (relationships sample_pages 2)) 1 [] = Some (rev qs)"
    using ancestors_terminate by blast
  have "parent (relationships sample_pages 2) 1 = Some 0" "parent (relationships sample_pages 2) 0 = None"
    using sample_parent_urls
    by (simp_all add: relationships_def page_step_def link_step_def sample_pages_def Let_def
        in_default_lang_def sample_page_def)
  then have "qs = [0]" using qs(1) by (cases qs; cases "tl qs") auto
  then show ?thesis using qs(2) by simp
qed

theorem ancestors_empty_urls_witness:
  "ancestors (parent (relationships [(sample_page ''pages'' ''a'', []), (sample_page ''pages'' ''b'', [])] 2)) 0 [] = None"
  using ancestors_empty_urls [of "(sample_page ''pages'' ''a'', [])" "(sample_page ''pages'' ''b'', [])" 2] by simp

end
