(* ===== verification/I18nSubsites.thy ===== *)
theory I18nSubsites
  imports PosixPath
begin

text \<open>
  \<open>plugins/i18n_subsites/i18n_subsites.py\<close>, the plugin of the website's generator that builds one
  subsite for each further language: a queue of subsites, the URLs of all sites, a cache of the
  relative paths between them, the contents filtered out of each site and the links between the
  translations. The module's global variables are a record; contents are mutable objects shared
  by several lists, so they are references into a heap; a generator is a reference too.

  The site generator itself is not part of the repository. What it does for a site is the list
  of signals it sends, as a function of the site's settings; its normalisation of settings is a
  function on settings. Which catalogues of template translations there are, and which classes a
  package has, are parameters.
\<close>

section \<open>Model\<close>

subsection \<open>Data\<close>

text \<open>
  A value of a setting: a string, a list of strings, a number, a truth value, Python's \<open>None\<close>, a
  dictionary, the table of the subsites with their overrides, or another object.
\<close>

datatype setting =
    Str string
  | Strs "string list"
  | Num int
  | Flag bool
  | Nothing
  | Dict "(string \<times> setting) list"
  | Sub "(string \<times> (string \<times> setting) list) list"
  | Obj string

type_synonym settings = "(string, setting) dict"
type_synonym ref = nat

definition as_str :: "setting \<Rightarrow> string result" where
  "as_str v = (case v of Str s \<Rightarrow> Inr s | _ \<Rightarrow> Inl TypeError)"

lemma as_str_Str [simp]: "as_str (Str s) = Inr s"
  by (simp add: as_str_def)

definition str_item :: "settings \<Rightarrow> string \<Rightarrow> string result" where
  "str_item d k = rbind (dict_item d k) as_str"

record content =
  c_lang :: string
  c_source_path :: string
  c_url :: string
  c_draft_url :: string
  c_status :: string
  c_translations :: "ref list"
  c_override_url :: "string option"

record static_file =
  st_source_path :: string
  st_url :: string
  st_override_url :: "string option"

datatype hiding = Article2Draft | Page2HiddenPage | Unchanged

record generator_info =
  info_translations :: "string list"
  info_contents :: "(string \<times> string) list"
  info_hiding :: hiding
  info_policy :: "string option"

datatype gettext = NullTranslations | Catalog setting string string

record generator =
  g_settings :: settings
  g_mro :: "string list"
  g_custom_info :: "(string, generator_info) dict"
  g_lists :: "(string, ref list) dict"
  g_context :: ref
  g_added_static :: "static_file list"
  g_main_siteurl :: "string option"
  g_main_lang :: "string option"
  g_lang_siteurls :: "(string, string) dict"
  g_extra_siteurls :: "(string, string) dict"
  g_theme :: string
  g_translations :: "(gettext \<times> setting) option"

record i18n =
  main_settings :: "settings option"
  main_lang :: "string option"
  main_siteurl :: "string option"
  main_static_files :: "static_file list option"
  subsite_queue :: "(string, settings) dict"
  site_db :: "(string, string) dict"
  relpath_db :: "(string \<times> string, string) dict"
  generator_db :: "(ref, ref list) dict"
  native_url_db :: "(string, string) dict"
  generators_info :: "(string, generator_info) dict"
  generators :: "ref \<Rightarrow> generator"
  static_contents :: "ref \<Rightarrow> string list"
  heap :: "ref \<Rightarrow> content"
  next_ref :: ref
  cur_locale :: string
  filter_signals :: "string list"

subsection \<open>Paths between sites\<close>

definition scheme_char :: "char \<Rightarrow> bool" where
  "scheme_char c = (let n = (of_char c :: nat) in (97 \<le> n \<and> n \<le> 122) \<or> (65 \<le> n \<and> n \<le> 90) \<or> (48 \<le> n \<and> n \<le> 57)
     \<or> c \<in> set ''+-.'')"

definition ascii_letter :: "char \<Rightarrow> bool" where
  "ascii_letter c = (let n = (of_char c :: nat) in (97 \<le> n \<and> n \<le> 122) \<or> (65 \<le> n \<and> n \<le> 90))"

definition until :: "char list \<Rightarrow> string \<Rightarrow> string" where
  "until cs s = takeWhile (\<lambda>x. x \<notin> set cs) s"

text \<open>\<open>urlparse(url).path\<close>: without scheme, network location, query, fragment and parameters.\<close>

definition uses_params :: "string list" where
  "uses_params = ['''', ''ftp'', ''hdl'', ''prospero'', ''http'', ''https'', ''shttp'', ''rtsp'', ''rtspu'',
     ''sip'', ''sips'', ''mms'', ''sftp'', ''tel'']"

definition split_scheme :: "string \<Rightarrow> string \<times> string" where
  "split_scheme url = (let s = until '':'' url in
     if s \<noteq> url \<and> s \<noteq> [] \<and> ascii_letter (hd s) \<and> list_all scheme_char s
     then (py_lower s, drop (length s + 1) url) else ([], url))"

definition url_path :: "string \<Rightarrow> string" where
  "url_path url =
    (let url = filter (\<lambda>c. c \<notin> {CHR 0x09, CHR 0x0A, CHR 0x0D}) (dropWhile (\<lambda>c. (of_char c :: nat) \<le> 32) url);
         (scheme, rest) = split_scheme url;
         rest = (if prefix ''//'' rest then dropWhile (\<lambda>x. x \<notin> set ''/?#'') (drop 2 rest) else rest);
         path = until ''?'' (until ''#'' rest);
         (head, tail) = (rev (dropWhile (\<lambda>c. c \<noteq> CHR ''/'') (rev path)), rev (takeWhile (\<lambda>c. c \<noteq> CHR ''/'') (rev path)))
     in if scheme \<in> set uses_params then head @ until '';'' tail else path)"

definition get_site_path :: "string \<Rightarrow> string" where
  "get_site_path url = (let path = url_path url in if path = [] then ''/'' else path)"

definition relpath_to_site :: "string \<Rightarrow> string \<Rightarrow> string \<Rightarrow> i18n \<Rightarrow> (string \<times> i18n) result" where
  "relpath_to_site cwd lang target_lang s = (case dget (relpath_db s) (lang, target_lang) of
      Some path \<Rightarrow> Inr (path, s)
    | None \<Rightarrow>
        rbind (need ValueError (case dget (site_db s) target_lang of Some u \<Rightarrow> Some u | None \<Rightarrow> main_siteurl s)) (\<lambda>target_siteurl.
        rbind (need TypeError (case dget (site_db s) lang of Some u \<Rightarrow> Some u | None \<Rightarrow> main_siteurl s)) (\<lambda>siteurl.
        rbind (relpath cwd (get_site_path target_siteurl) (get_site_path siteurl)) (\<lambda>path.
        Inr (path, s\<lparr>relpath_db := dput (lang, target_lang) path (relpath_db s)\<rparr>)))))"

text \<open>To compute paths.\<close>

lemmas path_eval = path_join_def path_joins_def relpath_def abspath_def normpath_def norm_step_def initial_slashes_def
  nonempty_parts_def get_site_path_def url_path_def split_scheme_def until_def uses_params_def scheme_char_def ascii_letter_def

subsection \<open>Initialisation\<close>

text \<open>The value of a missing key of the overrides; keys that are present stay.\<close>

definition set_default :: "string \<Rightarrow> setting result \<Rightarrow> settings \<Rightarrow> settings result" where
  "set_default k v overrides = (if din k overrides then Inr overrides
     else rbind v (\<lambda>x. Inr (dput k x overrides)))"

definition prepare_subsite :: "string \<Rightarrow> settings \<Rightarrow> string \<Rightarrow> string \<Rightarrow> string \<times> settings \<Rightarrow> i18n \<Rightarrow> i18n result" where
  "prepare_subsite cwd main mlang main_url x s = (case x of (lang, overrides) \<Rightarrow>
    rbind (set_default ''SITEURL'' (Inr (Str (path_join main_url lang))) overrides) (\<lambda>overrides.
    rbind (str_item overrides ''SITEURL'') (\<lambda>url.
    let s = s\<lparr>site_db := dput lang url (site_db s)\<rparr> in
    rbind (set_default ''OUTPUT_PATH'' (rbind (str_item main ''OUTPUT_PATH'') (\<lambda>p. Inr (Str (path_join p lang)))) overrides) (\<lambda>overrides.
    rbind (set_default ''CACHE_PATH'' (rbind (str_item main ''CACHE_PATH'') (\<lambda>p. Inr (Str (path_join p lang)))) overrides) (\<lambda>overrides.
    rbind (set_default ''STATIC_PATHS'' (Inr (Strs [])) overrides) (\<lambda>overrides.
    rbind (if din ''THEME'' overrides \<or> din ''THEME_STATIC_DIR'' overrides \<or> din ''THEME_STATIC_PATHS'' overrides
           then Inr (overrides, s)
           else rbind (relpath_to_site cwd lang mlang s) (\<lambda>(rel, s).
             rbind (str_item main ''THEME_STATIC_DIR'') (\<lambda>d.
             Inr (dput ''THEME_STATIC_PATHS'' (Strs []) (dput ''THEME_STATIC_DIR'' (Str (path_join rel d)) overrides), s)))) (\<lambda>(overrides, s).
    Inr (s\<lparr>subsite_queue := dput lang (dput ''DEFAULT_LANG'' (Str lang) overrides) (subsite_queue s)\<rparr>))))))))"

definition prepare_site_db_and_overrides :: "string \<Rightarrow> settings \<Rightarrow> string \<Rightarrow> string \<Rightarrow> i18n \<Rightarrow> i18n result" where
  "prepare_site_db_and_overrides cwd main mlang siteurl s =
    (let main_url = (if siteurl = [] then ''/'' else siteurl) in
     rfold (prepare_subsite cwd main mlang main_url) (subsite_queue s) (s\<lparr>site_db := [(mlang, siteurl)]\<rparr>))"

text \<open>The copy of the table of subsites is shallow: the settings share the overrides it fills in.\<close>

definition initialize_dbs :: "string \<Rightarrow> settings \<Rightarrow> i18n \<Rightarrow> i18n result" where
  "initialize_dbs cwd settings s =
    rbind (str_item settings ''DEFAULT_LANG'') (\<lambda>l.
    rbind (str_item settings ''SITEURL'') (\<lambda>u.
    rbind (case dget settings ''I18N_SUBSITES'' of None \<Rightarrow> Inr [] | Some (Sub t) \<Rightarrow> Inr t | Some _ \<Rightarrow> Inl AttributeError) (\<lambda>queue.
    rbind (prepare_site_db_and_overrides cwd settings l u
       (s\<lparr>main_settings := Some settings, main_lang := Some l, main_siteurl := Some u, subsite_queue := queue\<rparr>)) (\<lambda>s.
    Inr (s\<lparr>main_settings := Some (if din ''I18N_SUBSITES'' settings
             then dput ''I18N_SUBSITES'' (Sub (subsite_queue s)) settings else settings),
           relpath_db := [], native_url_db := [], generator_db := []\<rparr>)))))"

text \<open>
  Further signals connected to the filter; a signal of the settings is given by its name, and
  connecting it again has no effect. What is not a collection of signals raises.
\<close>

definition subscribe_filter_to_signals :: "settings \<Rightarrow> i18n \<Rightarrow> i18n result" where
  "subscribe_filter_to_signals settings s = (case dget settings ''I18N_FILTER_SIGNALS'' of
      None \<Rightarrow> Inr s
    | Some (Strs sigs) \<Rightarrow> Inr (s\<lparr>filter_signals := fold (\<lambda>x fs. if x \<in> set fs then fs else fs @ [x]) sigs (filter_signals s)\<rparr>)
    | Some v \<Rightarrow> if v \<in> {Str [], Dict [], Sub []} then Inr s
        else Inl (case v of Num _ \<Rightarrow> TypeError | Flag _ \<Rightarrow> TypeError | Nothing \<Rightarrow> TypeError | Obj _ \<Rightarrow> TypeError
          | _ \<Rightarrow> AttributeError))"

definition initialize_plugin :: "string \<Rightarrow> settings \<Rightarrow> i18n \<Rightarrow> i18n result" where
  "initialize_plugin cwd settings s = (if main_settings s = None
     then rbind (initialize_dbs cwd settings s) (subscribe_filter_to_signals settings) else Inr s)"

lemma subscribe_Inr: "subscribe_filter_to_signals settings s = Inr s' \<Longrightarrow> \<exists>fs. s' = s\<lparr>filter_signals := fs\<rparr>"
  by (auto simp: subscribe_filter_to_signals_def split: option.splits setting.splits if_splits)
    (rule exI [of _ "filter_signals s"], simp)+

subsection \<open>Filtering\<close>

definition save_generator :: "ref \<Rightarrow> i18n \<Rightarrow> i18n" where
  "save_generator g s = s\<lparr>generator_db := dput g [] (generator_db s)\<rparr>"

definition new_content :: "content \<Rightarrow> i18n \<Rightarrow> ref \<times> i18n" where
  "new_content c s = (next_ref s, s\<lparr>heap := (heap s)(next_ref s := c), next_ref := next_ref s + 1\<rparr>)"

text \<open>
  An article becomes a new draft object, whose URL the site generator forms from other settings;
  a page is changed in place.
\<close>

definition article2draft :: "ref \<Rightarrow> i18n \<Rightarrow> ref \<times> i18n" where
  "article2draft a s = new_content ((heap s a)\<lparr>c_status := ''draft'', c_url := c_draft_url (heap s a), c_translations := [], c_override_url := None\<rparr>) s"

definition page2hidden_page :: "ref \<Rightarrow> i18n \<Rightarrow> ref \<times> i18n" where
  "page2hidden_page p s = (p, s\<lparr>heap := (heap s)(p := (heap s p)\<lparr>c_status := ''hidden''\<rparr>)\<rparr>)"

definition hide :: "hiding \<Rightarrow> ref \<Rightarrow> i18n \<Rightarrow> ref \<times> i18n" where
  "hide h c s = (case h of Article2Draft \<Rightarrow> article2draft c s | Page2HiddenPage \<Rightarrow> page2hidden_page c s
     | Unchanged \<Rightarrow> (c, s))"

definition default_generators_info :: "(string, generator_info) dict" where
  "default_generators_info =
    [(''ArticlesGenerator'', \<lparr>info_translations = [''translations'', ''drafts_translations''],
        info_contents = [(''articles'', ''drafts'')], info_hiding = Article2Draft,
        info_policy = Some ''I18N_UNTRANSLATED_ARTICLES''\<rparr>),
     (''PagesGenerator'', \<lparr>info_translations = [''translations'', ''hidden_translations''],
        info_contents = [(''pages'', ''hidden_pages'')], info_hiding = Page2HiddenPage,
        info_policy = Some ''I18N_UNTRANSLATED_PAGES''\<rparr>)]"

definition no_info :: generator_info where
  "no_info = \<lparr>info_translations = [], info_contents = [], info_hiding = Unchanged, info_policy = None\<rparr>"

text \<open>The inspector: the table of classes is updated, then the first known class of the generator counts.\<close>

definition inspect :: "ref \<Rightarrow> i18n \<Rightarrow> generator_info \<times> i18n" where
  "inspect g s =
    (let infos = fold (\<lambda>(k, v). dput k v) (g_custom_info (generators s g)) (generators_info s)
     in (case find (\<lambda>cls. din cls infos) (g_mro (generators s g)) of
           None \<Rightarrow> no_info | Some cls \<Rightarrow> the (dget infos cls), s\<lparr>generators_info := infos\<rparr>))"

definition untranslated_policy :: "generator_info \<Rightarrow> settings \<Rightarrow> string \<Rightarrow> setting" where
  "untranslated_policy info sts dflt =
    (case info_policy info of None \<Rightarrow> Str dflt
     | Some k \<Rightarrow> (case dget sts k of None \<Rightarrow> Str dflt | Some v \<Rightarrow> v))"

definition get_list :: "ref \<Rightarrow> string \<Rightarrow> i18n \<Rightarrow> ref list result" where
  "get_list g name s = need AttributeError (dget (g_lists (generators s g)) name)"

definition put_list :: "ref \<Rightarrow> string \<Rightarrow> ref list \<Rightarrow> i18n \<Rightarrow> i18n" where
  "put_list g name xs s = s\<lparr>generators := (generators s)(g := (generators s g)\<lparr>g_lists :=
     dput name xs (g_lists (generators s g))\<rparr>)\<rparr>"

definition put_removed :: "ref \<Rightarrow> ref list \<Rightarrow> i18n \<Rightarrow> i18n" where
  "put_removed g xs s = s\<lparr>generator_db := dput g xs (generator_db s)\<rparr>"

text \<open>The two loops go over copies of the lists they change.\<close>

definition translation_step :: "i18n \<Rightarrow> ref \<Rightarrow> ref list \<times> ref list \<Rightarrow> ref list \<times> ref list" where
  "translation_step s t x = (case x of (translations, removed) \<Rightarrow>
     if din (c_lang (heap s t)) (site_db s) then (remove1 t translations, removed @ [t]) else (translations, removed))"

definition filter_translations :: "ref \<Rightarrow> string \<Rightarrow> i18n \<Rightarrow> i18n result" where
  "filter_translations g name s =
    rbind (get_list g name s) (\<lambda>translations.
    rbind (dict_item (generator_db s) g) (\<lambda>removed.
    let (translations', removed') = fold (translation_step s) translations (translations, removed)
    in Inr (put_removed g removed' (put_list g name translations' s))))"

definition save_native :: "ref \<Rightarrow> i18n \<Rightarrow> i18n" where
  "save_native c s = s\<lparr>native_url_db := dput (c_source_path (heap s c)) (c_url (heap s c)) (native_url_db s)\<rparr>"

definition save_native_if :: "string \<Rightarrow> ref \<Rightarrow> i18n \<Rightarrow> i18n" where
  "save_native_if current c s = (if c_lang (heap s c) = current then save_native c s else s)"

record lists =
  l_contents :: "ref list"
  l_others :: "ref list"
  l_removed :: "ref list"

definition content_step :: "string \<Rightarrow> setting \<Rightarrow> hiding \<Rightarrow> ref \<Rightarrow> lists \<times> i18n \<Rightarrow> lists \<times> i18n" where
  "content_step current policy h c x = (case x of (l, s) \<Rightarrow>
     if c_lang (heap s c) = current then (l, save_native c s)
     else if din (c_lang (heap s c)) (site_db s) \<and> policy \<noteq> Str ''keep'' then
       (let l = l\<lparr>l_contents := remove1 c (l_contents l)\<rparr> in
        if policy = Str ''hide'' then
          (let (c', s) = hide h c s in (l\<lparr>l_others := l_others l @ [c']\<rparr>, s))
        else if policy = Str ''remove'' then (l\<lparr>l_removed := l_removed l @ [c]\<rparr>, s)
        else (l, s))
     else (l, s))"

definition filter_contents :: "string \<Rightarrow> setting \<Rightarrow> hiding \<Rightarrow> ref \<Rightarrow> string \<times> string \<Rightarrow> i18n \<Rightarrow> i18n result" where
  "filter_contents current policy h g names s = (case names of (name, other_name) \<Rightarrow>
    rbind (get_list g name s) (\<lambda>contents.
    rbind (get_list g other_name s) (\<lambda>others.
    rbind (dict_item (generator_db s) g) (\<lambda>removed.
    let s = fold (save_native_if current) others s;
        (l, s) = fold (content_step current policy h) contents
          (\<lparr>l_contents = contents, l_others = others, l_removed = removed\<rparr>, s)
    in Inr (put_removed g (l_removed l) (put_list g other_name (l_others l) (put_list g name (l_contents l) s)))))))"

definition filter_contents_translations :: "ref \<Rightarrow> i18n \<Rightarrow> i18n result" where
  "filter_contents_translations g s =
    (let (info, s) = inspect g s; sts = g_settings (generators s g) in
     rbind (str_item sts ''DEFAULT_LANG'') (\<lambda>current.
     rbind (dict_item (generator_db s) g) (\<lambda>_.
     rbind (rfold (filter_translations g) (info_translations info) s) (\<lambda>s.
     rfold (filter_contents current (untranslated_policy info sts ''hide'') (info_hiding info) g)
       (info_contents info) s))))"

subsection \<open>Translations of the templates\<close>

text \<open>\<open>x in v\<close> for a string \<open>x\<close>.\<close>

definition setting_has :: "string \<Rightarrow> setting \<Rightarrow> bool result" where
  "setting_has x v = (case v of Strs xs \<Rightarrow> Inr (x \<in> set xs) | Str s \<Rightarrow> Inr (sublist x s)
     | Dict d \<Rightarrow> Inr (din x d) | Sub t \<Rightarrow> Inr (din x t) | _ \<Rightarrow> Inl TypeError)"

definition jinja_extensions :: "settings \<Rightarrow> setting result" where
  "jinja_extensions sts = (case dget sts ''JINJA_ENVIRONMENT'' of
      Some (Dict d) \<Rightarrow> Inr (case dget d ''extensions'' of Some v \<Rightarrow> v | None \<Rightarrow> Strs [])
    | Some _ \<Rightarrow> Inl AttributeError
    | None \<Rightarrow> dict_item sts ''JINJA_EXTENSIONS'')"

text \<open>\<open>cat domain localedir lang\<close> says whether there is a catalogue to load.\<close>

definition template_translations ::
    "(setting \<Rightarrow> string \<Rightarrow> string \<Rightarrow> bool) \<Rightarrow> string option \<Rightarrow> generator \<Rightarrow> (gettext \<times> setting) option result" where
  "template_translations cat mlang gen =
    (let sts = g_settings gen in
     rbind (jinja_extensions sts) (\<lambda>extensions.
     rbind (setting_has ''jinja2.ext.i18n'' extensions) (\<lambda>enabled.
     if \<not> enabled then Inr None
     else rbind (str_item sts ''DEFAULT_LANG'') (\<lambda>current.
       let domain = (case dget sts ''I18N_GETTEXT_DOMAIN'' of Some v \<Rightarrow> v | None \<Rightarrow> Str ''messages'');
           theme_dir = Str (path_join (g_theme gen) ''translations'');
           localedir = (case dget sts ''I18N_GETTEXT_LOCALEDIR'' of Some v \<Rightarrow> if v = Nothing then theme_dir else v
              | None \<Rightarrow> theme_dir);
           main_templates = (case dget sts ''I18N_TEMPLATES_LANG'' of Some v \<Rightarrow> v = Str current
              | None \<Rightarrow> mlang = Some current);
           newstyle = (case dget sts ''I18N_GETTEXT_NEWSTYLE'' of Some v \<Rightarrow> v | None \<Rightarrow> Flag True)
       in rbind (if main_templates then Inr NullTranslations
            else rbind (as_str localedir) (\<lambda>dir.
              Inr (if cat domain dir current then Catalog domain dir current else NullTranslations))) (\<lambda>catalog.
          Inr (Some (catalog, newstyle)))))))"

definition install_templates_translations ::
    "(setting \<Rightarrow> string \<Rightarrow> string \<Rightarrow> bool) \<Rightarrow> ref \<Rightarrow> i18n \<Rightarrow> i18n result" where
  "install_templates_translations cat g s =
    rbind (template_translations cat (main_lang s) (generators s g)) (\<lambda>t.
    Inr (case t of None \<Rightarrow> s
      | Some _ \<Rightarrow> s\<lparr>generators := (generators s)(g := (generators s g)\<lparr>g_translations := t\<rparr>)\<rparr>))"

subsection \<open>Links between the sites\<close>

text \<open>
  The variables of the template context; the function between sites among them is not a value.
  They are recorded for each generator: all generators of a site write the same values.
\<close>

definition add_variables_to_context :: "ref \<Rightarrow> i18n \<Rightarrow> i18n result" where
  "add_variables_to_context g s =
    rbind (str_item (g_settings (generators s g)) ''DEFAULT_LANG'') (\<lambda>current.
    rbind (dict_item (site_db s) current) (\<lambda>_.
    Inr (s\<lparr>generators := (generators s)(g := (generators s g)\<lparr>g_main_siteurl := main_siteurl s,
      g_main_lang := main_lang s, g_lang_siteurls := site_db s, g_extra_siteurls := ddel current (site_db s)\<rparr>)\<rparr>)))"

definition set_override_url :: "ref \<Rightarrow> string \<Rightarrow> i18n \<Rightarrow> i18n" where
  "set_override_url c u s = s\<lparr>heap := (heap s)(c := (heap s c)\<lparr>c_override_url := Some u\<rparr>)\<rparr>"

text \<open>The link from a site to a content that is native to another site.\<close>

definition interlink_native :: "string \<Rightarrow> string \<Rightarrow> ref \<Rightarrow> i18n \<Rightarrow> i18n result" where
  "interlink_native cwd lang c s =
    rbind (relpath_to_site cwd lang (c_lang (heap s c)) s) (\<lambda>(rel, s).
    rbind (dict_item (native_url_db s) (c_source_path (heap s c))) (\<lambda>url.
    Inr (set_override_url c (path_join rel url) s)))"

definition interlink_translations :: "string \<Rightarrow> ref \<Rightarrow> i18n \<Rightarrow> i18n result" where
  "interlink_translations cwd c s =
    (let ts = sort_key (\<lambda>t. c_lang (heap s t)) (c_translations (heap s c));
         s = s\<lparr>heap := (heap s)(c := (heap s c)\<lparr>c_translations := ts\<rparr>)\<rparr>
     in rfold (interlink_native cwd (c_lang (heap s c))) ts s)"

definition all_contents :: "generator_info \<Rightarrow> ref \<Rightarrow> i18n \<Rightarrow> ref list result" where
  "all_contents info g s =
    rbind (rmap (\<lambda>name. get_list g name s)
      (info_translations info @ concat (map (\<lambda>(a, b). [a, b]) (info_contents info)))) (\<lambda>ls. Inr (concat ls))"

definition interlink_translated_content :: "string \<Rightarrow> ref \<Rightarrow> i18n \<Rightarrow> i18n result" where
  "interlink_translated_content cwd g s =
    (let (info, s) = inspect g s in
     rbind (all_contents info g s) (\<lambda>cs. rfold (interlink_translations cwd) cs s))"

definition interlink_removed :: "string \<Rightarrow> string \<Rightarrow> ref \<Rightarrow> i18n \<Rightarrow> i18n result" where
  "interlink_removed cwd current c s =
    rbind (dict_item (native_url_db s) (c_source_path (heap s c))) (\<lambda>url.
    rbind (relpath_to_site cwd current (c_lang (heap s c)) s) (\<lambda>(rel, s).
    Inr (set_override_url c (path_join rel url) s)))"

definition interlink_removed_content :: "string \<Rightarrow> ref \<Rightarrow> i18n \<Rightarrow> i18n result" where
  "interlink_removed_content cwd g s =
    rbind (str_item (g_settings (generators s g)) ''DEFAULT_LANG'') (\<lambda>current.
    rbind (dict_item (generator_db s) g) (\<lambda>removed.
    rfold (interlink_removed cwd current) removed s))"

text \<open>
  The paths of the static content are kept in the generator's context, an object that generators
  may share: a file that one of them adds is not added again by another with the same context.
\<close>

definition static_step :: "string \<Rightarrow> ref \<Rightarrow> static_file \<Rightarrow> i18n \<Rightarrow> i18n" where
  "static_step rel g f s =
    (let gen = generators s g; ctx = g_context gen; paths = static_contents s ctx in
     if st_source_path f \<in> set paths then s
     else s\<lparr>generators := (generators s)(g := gen\<lparr>
              g_added_static := g_added_static gen @ [f\<lparr>st_override_url := Some (path_join rel (st_url f))\<rparr>]\<rparr>),
            static_contents := (static_contents s)(ctx := paths @ [st_source_path f])\<rparr>)"

definition interlink_static_files :: "string \<Rightarrow> ref \<Rightarrow> i18n \<Rightarrow> i18n result" where
  "interlink_static_files cwd g s =
    (let sts = g_settings (generators s g) in
     rbind (dict_item sts ''STATIC_PATHS'') (\<lambda>paths.
     if paths \<noteq> Strs [] then Inr s
     else rbind (str_item sts ''DEFAULT_LANG'') (\<lambda>current.
       rbind (need AttributeError (main_lang s)) (\<lambda>mlang.
       rbind (relpath_to_site cwd current mlang s) (\<lambda>(rel, s).
       rbind (need TypeError (main_static_files s)) (\<lambda>files.
       Inr (fold (static_step rel g) files s)))))))"

definition save_main_static_files :: "settings \<Rightarrow> static_file list \<Rightarrow> i18n \<Rightarrow> i18n result" where
  "save_main_static_files sts files s =
    rbind (str_item sts ''DEFAULT_LANG'') (\<lambda>l.
    Inr (if Some l = main_lang s then s\<lparr>main_static_files := Some files\<rparr> else s))"

definition update_generator :: "(setting \<Rightarrow> string \<Rightarrow> string \<Rightarrow> bool) \<Rightarrow> string \<Rightarrow> ref \<Rightarrow> i18n \<Rightarrow> i18n result" where
  "update_generator cat cwd g s =
    rbind (install_templates_translations cat g s) (\<lambda>s.
    rbind (add_variables_to_context g s) (\<lambda>s.
    rbind (interlink_static_files cwd g s) (\<lambda>s.
    rbind (interlink_removed_content cwd g s) (\<lambda>s.
    interlink_translated_content cwd g s))))"

definition update_generators :: "(setting \<Rightarrow> string \<Rightarrow> string \<Rightarrow> bool) \<Rightarrow> string \<Rightarrow> i18n \<Rightarrow> i18n result" where
  "update_generators cat cwd s = rfold (update_generator cat cwd) (dkeys (generator_db s)) s"

subsection \<open>The class of a site and the signals\<close>

text \<open>
  The class named in the settings: the import of the module \<open>a.b\<close> gives the package \<open>a\<close>, and the
  class is looked up there. \<open>importable\<close> and \<open>attr\<close> are the modules that can be imported and the
  attributes of a package.
\<close>

definition get_pelican_cls :: "(string \<Rightarrow> bool) \<Rightarrow> (string \<Rightarrow> string \<Rightarrow> setting option) \<Rightarrow> settings \<Rightarrow> setting result" where
  "get_pelican_cls importable attr sts =
    rbind (dict_item sts ''PELICAN_CLASS'') (\<lambda>cls. case cls of
      Str name \<Rightarrow>
        if CHR ''.'' \<notin> set name then Inl ValueError
        else let cls_name = rev (takeWhile (\<lambda>c. c \<noteq> CHR ''.'') (rev name));
                 module = rev (drop 1 (dropWhile (\<lambda>c. c \<noteq> CHR ''.'') (rev name)))
             in if \<not> importable module then Inl ImportError
                else need AttributeError (attr (until ''.'' module) cls_name)
    | _ \<Rightarrow> Inr cls)"

definition signal_handlers :: "(string \<times> string) list" where
  "signal_handlers =
    [(''get_generators'', ''initialize_plugin''),
     (''article_generator_pretaxonomy'', ''filter_contents_translations''),
     (''page_generator_finalized'', ''filter_contents_translations''),
     (''get_writer'', ''create_next_subsite''),
     (''static_generator_finalized'', ''save_main_static_files''),
     (''generator_init'', ''save_generator'')]"

text \<open>The connections made: none when a signal is missing.\<close>

definition register :: "(string \<Rightarrow> bool) \<Rightarrow> (string \<times> string) list \<Rightarrow> (string \<times> string) list" where
  "register available conns =
    (case find (\<lambda>sig. \<not> available sig) (dkeys signal_handlers) of
       Some _ \<Rightarrow> conns | None \<Rightarrow> conns @ signal_handlers)"

section \<open>What the handlers leave alone\<close>

text \<open>
  Only the initialisation and the start of a subsite change the queue, the main site's settings and
  the table of the sites' URLs; the cache of relative paths only ever holds what would be computed.
\<close>

definition site_url :: "i18n \<Rightarrow> string \<Rightarrow> string option" where
  "site_url s lang = (case dget (site_db s) lang of Some u \<Rightarrow> Some u | None \<Rightarrow> main_siteurl s)"

definition cache_ok :: "string \<Rightarrow> i18n \<Rightarrow> bool" where
  "cache_ok cwd s \<longleftrightarrow> (\<forall>l t path. dget (relpath_db s) (l, t) = Some path \<longrightarrow>
     (\<exists>u v. site_url s l = Some u \<and> site_url s t = Some v
        \<and> relpath cwd (get_site_path v) (get_site_path u) = Inr path))"

definition keeps :: "string \<Rightarrow> i18n \<Rightarrow> i18n \<Rightarrow> bool" where
  "keeps cwd s s' \<longleftrightarrow> subsite_queue s' = subsite_queue s \<and> main_settings s' = main_settings s
     \<and> site_db s' = site_db s \<and> main_lang s' = main_lang s \<and> main_siteurl s' = main_siteurl s
     \<and> cur_locale s' = cur_locale s \<and> (cache_ok cwd s \<longrightarrow> cache_ok cwd s')"

named_theorems keep_intros \<open>operations that keep the queue, the sites and the cache\<close>

lemma keeps_refl [simp, keep_intros]: "keeps cwd s s"
  by (simp add: keeps_def)

lemma keeps_trans [trans]: "keeps cwd s t \<Longrightarrow> keeps cwd t u \<Longrightarrow> keeps cwd s u"
  by (simp add: keeps_def)

interpretation keeping: step_relation "keeps cwd" for cwd
  by unfold_locales (simp, rule keeps_trans)

text \<open>Updates of the other fields.\<close>

lemma keeps_fields [keep_intros]:
  "keeps cwd s (s\<lparr>heap := h\<rparr>)" "keeps cwd s (s\<lparr>generators := gs\<rparr>)" "keeps cwd s (s\<lparr>generator_db := db\<rparr>)"
  "keeps cwd s (s\<lparr>native_url_db := n\<rparr>)" "keeps cwd s (s\<lparr>generators_info := i\<rparr>)"
  "keeps cwd s (s\<lparr>generators := gs, static_contents := c\<rparr>)"
  "keeps cwd s (s\<lparr>heap := h, next_ref := r\<rparr>)" "keeps cwd s (s\<lparr>main_static_files := m\<rparr>)"
  by (simp_all add: keeps_def cache_ok_def site_url_def cong: option.case_cong)

lemma keeps_relpath_to_site [keep_intros]:
  assumes "relpath_to_site cwd l t s = Inr (path, s')"
  shows "keeps cwd s s'"
proof (cases "dget (relpath_db s) (l, t)")
  case None
  then obtain u v where u: "site_url s l = Some u" "site_url s t = Some v"
      "relpath cwd (get_site_path v) (get_site_path u) = Inr path"
      "s' = s\<lparr>relpath_db := dput (l, t) path (relpath_db s)\<rparr>"
    using assms by (auto simp: relpath_to_site_def site_url_def result_simps)
  have "site_url s' = site_url s" by (rule ext) (simp add: u(4) site_url_def cong: option.case_cong)
  then show ?thesis using u by (auto simp: keeps_def cache_ok_def pyd.get_put)
next
  case (Some p)
  then show ?thesis using assms by (simp add: relpath_to_site_def)
qed

lemma keeps_hide [keep_intros]: "hide h c s = (c', s') \<Longrightarrow> keeps cwd s s'"
  by (cases h) (auto simp: hide_def article2draft_def new_content_def page2hidden_page_def intro: keep_intros)

lemma keeps_put [keep_intros]:
  "keeps cwd s (put_list g n xs s)" "keeps cwd s (put_removed g xs s)" "keeps cwd s (save_native c s)"
  "keeps cwd s (save_native_if cur c s)" "keeps cwd s (set_override_url c u s)" "keeps cwd s (save_generator g s)"
  by (simp_all add: put_list_def put_removed_def save_native_def save_native_if_def set_override_url_def
      save_generator_def keep_intros)

lemma keeps_content_step: "keeps cwd s (snd (content_step cur policy h c (l, s)))"
  by (auto simp: content_step_def Let_def keep_intros intro: keeps_hide split: prod.splits)

lemma keeps_content_fold: "keeps cwd s (snd (fold (content_step cur policy h) cs (l, s)))"
proof (induction cs arbitrary: l s)
  case (Cons c cs)
  obtain l' s' where "content_step cur policy h c (l, s) = (l', s')" by fastforce
  then show ?case using Cons.IH [of s' l'] keeps_content_step [of cwd s cur policy h c l]
    by (auto intro: keeps_trans)
qed simp

lemma keeps_inspect [keep_intros]: "inspect g s = (info, s') \<Longrightarrow> keeps cwd s s'"
  by (auto simp: inspect_def Let_def keep_intros)

lemma keeps_filter_translations:
  "filter_translations g n s = Inr s' \<Longrightarrow> keeps cwd s s'"
  by (auto simp: filter_translations_def rbind_Inr_iff Let_def split_beta
      intro!: keeps_trans [OF keeps_put(1) keeps_put(2)])

lemma keeps_filter_contents:
  assumes "filter_contents cur policy h g names s = Inr s'"
  shows "keeps cwd s s'"
proof -
  obtain n m where names: "names = (n, m)" by fastforce
  obtain cs os rem where s': "s' = (let x = fold (content_step cur policy h) cs
        (\<lparr>l_contents = cs, l_others = os, l_removed = rem\<rparr>, fold (save_native_if cur) os s)
      in put_removed g (l_removed (fst x)) (put_list g m (l_others (fst x)) (put_list g n (l_contents (fst x)) (snd x))))"
    using assms by (auto simp: filter_contents_def names rbind_Inr_iff Let_def split_beta)
  obtain l s1 where s1: "fold (content_step cur policy h) cs (\<lparr>l_contents = cs, l_others = os, l_removed = rem\<rparr>,
      fold (save_native_if cur) os s) = (l, s1)" by fastforce
  have "keeps cwd s (fold (save_native_if cur) os s)" by (rule keeping.pure_loop) (rule keep_intros)
  also have "keeps cwd \<dots> s1"
    using keeps_content_fold [of cwd "fold (save_native_if cur) os s"] s1 by (metis snd_conv)
  also have "keeps cwd s1 (put_list g n (l_contents l) s1)" by (rule keep_intros)
  also have "keeps cwd \<dots> (put_list g m (l_others l) (put_list g n (l_contents l) s1))" by (rule keep_intros)
  also have "keeps cwd \<dots> s'" by (simp add: s' s1 Let_def keep_intros)
  finally show ?thesis .
qed

lemma keeps_filter [keep_intros]:
  assumes "filter_contents_translations g s = Inr s'"
  shows "keeps cwd s s'"
proof -
  obtain info s1 where i: "inspect g s = (info, s1)" by fastforce
  obtain cur s2 where s2: "rfold (filter_translations g) (info_translations info) s1 = Inr s2"
    "rfold (filter_contents cur (untranslated_policy info (g_settings (generators s1 g)) ''hide'')
       (info_hiding info) g) (info_contents info) s2 = Inr s'"
    using assms by (auto simp: filter_contents_translations_def i rbind_Inr_iff Let_def)
  have "keeps cwd s s1" using i by (rule keep_intros)
  also have "keeps cwd s1 s2" by (rule keeping.raising_loop [OF keeps_filter_translations s2(1)])
  also have "keeps cwd s2 s'" by (rule keeping.raising_loop [OF keeps_filter_contents s2(2)])
  finally show ?thesis .
qed

lemma keeps_interlink_native [keep_intros]: "interlink_native cwd l c s = Inr s' \<Longrightarrow> keeps cwd s s'"
  by (auto simp: interlink_native_def rbind_Inr_iff split_beta
      intro: keeps_trans [OF keeps_relpath_to_site keeps_put(5)])

lemma keeps_interlink_removed [keep_intros]: "interlink_removed cwd l c s = Inr s' \<Longrightarrow> keeps cwd s s'"
  by (auto simp: interlink_removed_def rbind_Inr_iff split_beta
      intro: keeps_trans [OF keeps_relpath_to_site keeps_put(5)])

lemma keeps_interlink_translations:
  assumes "interlink_translations cwd c s = Inr s'"
  shows "keeps cwd s s'"
  using keeping.raising_loop [OF keeps_interlink_native assms [unfolded interlink_translations_def Let_def]]
  by (rule keeps_trans [OF keeps_fields(1)])

lemma keeps_install [keep_intros]: "install_templates_translations cat g s = Inr s' \<Longrightarrow> keeps cwd s s'"
  by (auto simp: install_templates_translations_def rbind_Inr_iff keep_intros split: option.splits)

lemma keeps_update_generator [keep_intros]:
  assumes "update_generator cat cwd g s = Inr s'"
  shows "keeps cwd s s'"
proof -
  obtain s0 s1 s2 s3 where s0: "install_templates_translations cat g s = Inr s0"
    and s: "add_variables_to_context g s0 = Inr s1" "interlink_static_files cwd g s1 = Inr s2"
      "interlink_removed_content cwd g s2 = Inr s3" "interlink_translated_content cwd g s3 = Inr s'"
    using assms by (auto simp: update_generator_def rbind_Inr_iff)
  have "keeps cwd s s0" by (rule keeps_install [OF s0])
  also have "keeps cwd s0 s1" using s(1) by (auto simp: add_variables_to_context_def rbind_Inr_iff keep_intros)
  also have "keeps cwd s1 s2"
  proof -
    have "keeps cwd t (fold (static_step r g) fs t)" for t r fs
      by (rule keeping.pure_loop) (simp add: static_step_def Let_def keep_intros)
    then show ?thesis
      using s(2) keeps_trans [OF keeps_relpath_to_site]
      by (fastforce simp: interlink_static_files_def Let_def rbind_Inr_iff split: if_splits)
  qed
  also have "keeps cwd s2 s3"
    using s(3) by (auto simp: interlink_removed_content_def rbind_Inr_iff intro: keeping.raising_loop [OF keeps_interlink_removed])
  also have "keeps cwd s3 s'"
  proof -
    obtain info t where i: "inspect g s3 = (info, t)" by fastforce
    then obtain cs where "rfold (interlink_translations cwd) cs t = Inr s'"
      using s(4) by (auto simp: interlink_translated_content_def rbind_Inr_iff)
    then have "keeps cwd t s'"
      by (rule keeping.raising_loop [where f = "interlink_translations cwd", rotated]) (rule keeps_interlink_translations)
    then show ?thesis using keeps_inspect [OF i] by (rule keeps_trans [rotated])
  qed
  finally show ?thesis .
qed

lemma keeps_update_generators: "update_generators cat cwd s = Inr s' \<Longrightarrow> keeps cwd s s'"
  unfolding update_generators_def
  by (rule keeping.raising_loop [where f = "update_generator cat cwd", rotated], assumption) (rule keeps_update_generator)

end
