(* ===== verification/I18nFilter.thy ===== *)
theory I18nFilter
  imports I18nSubsites
begin

text \<open>
  What the content filter of \<open>i18n_subsites.py\<close> does to the lists of a generator. Its loops remove
  elements from a list while they go over a copy of it, append to two other lists and change the
  contents themselves; the theorems give the lists afterwards in closed form.
\<close>

section \<open>Translations\<close>

definition has_site :: "i18n \<Rightarrow> ref \<Rightarrow> bool" where
  "has_site s c = din (c_lang (heap s c)) (site_db s)"

lemma translation_step_eq: "translation_step s t (ts, removed) =
    (if has_site s t then (remove1 t ts, removed @ [t]) else (ts, removed))"
  by (simp add: translation_step_def has_site_def)

lemma remove1_middle: "x \<notin> set ys \<Longrightarrow> remove1 x (ys @ x # xs) = ys @ xs"
  by (simp add: remove1_append)

lemma translation_fold:
  "\<forall>y \<in> set ys. \<not> has_site s y \<Longrightarrow> fold (translation_step s) xs (ys @ xs, removed)
     = (ys @ [t \<leftarrow> xs. \<not> has_site s t], removed @ [t \<leftarrow> xs. has_site s t])"
proof (induction xs arbitrary: ys removed)
  case (Cons x xs)
  show ?case
  proof (cases "has_site s x")
    case True
    then have "translation_step s x (ys @ x # xs, removed) = (ys @ xs, removed @ [x])"
      using Cons.prems remove1_middle [of x ys xs] by (auto simp: translation_step_eq)
    then show ?thesis using Cons.IH [OF Cons.prems] True by simp
  next
    case False
    then have "translation_step s x (ys @ x # xs, removed) = ((ys @ [x]) @ xs, removed)"
      by (simp add: translation_step_eq)
    then show ?thesis using Cons.IH [of "ys @ [x]"] Cons.prems False by simp
  qed
qed simp

text \<open>
  C17: filtering a list of translations moves those with a site of their own to the removed
  contents and leaves the others, both in their order, although the loop changes the list it is
  about; every occurrence is moved, also of an object that is in the list twice.
\<close>

theorem filter_translations_eq:
  "filter_translations g name s =
    rbind (get_list g name s) (\<lambda>translations.
    rbind (dict_item (generator_db s) g) (\<lambda>removed.
    Inr (put_removed g (removed @ [t \<leftarrow> translations. has_site s t])
          (put_list g name [t \<leftarrow> translations. \<not> has_site s t] s))))"
  unfolding filter_translations_def using translation_fold [of "[]" s] by simp

section \<open>Contents\<close>

text \<open>Contents in the language of another site leave the list, unless the policy keeps them.\<close>

definition moves :: "string \<Rightarrow> setting \<Rightarrow> i18n \<Rightarrow> ref \<Rightarrow> bool" where
  "moves current policy s c \<longleftrightarrow> c_lang (heap s c) \<noteq> current \<and> has_site s c \<and> policy \<noteq> Str ''keep''"

fun hidden_version :: "hiding \<Rightarrow> content \<Rightarrow> content" where
  "hidden_version Article2Draft c = c\<lparr>c_status := ''draft'', c_url := c_draft_url c, c_translations := [], c_override_url := None\<rparr>"
| "hidden_version Page2HiddenPage c = c\<lparr>c_status := ''hidden''\<rparr>"
| "hidden_version Unchanged c = c"

definition record_native :: "string \<Rightarrow> i18n \<Rightarrow> ref list \<Rightarrow> (string, string) dict \<Rightarrow> (string, string) dict" where
  "record_native current s cs =
     fold (\<lambda>c. dput (c_source_path (heap s c)) (c_url (heap s c))) [c \<leftarrow> cs. c_lang (heap s c) = current]"

lemma record_native_simps [simp]:
  "record_native current s [] db = db"
  "record_native current s (c # cs) db = record_native current s cs
     (if c_lang (heap s c) = current then dput (c_source_path (heap s c)) (c_url (heap s c)) db else db)"
  "record_native current s (cs @ ds) db = record_native current s ds (record_native current s cs db)"
  by (simp_all add: record_native_def)

lemma record_native_cong:
  "(\<And>c. c \<in> set cs \<Longrightarrow> heap s c = heap t c) \<Longrightarrow> record_native current s cs db = record_native current t cs db"
  by (induction cs arbitrary: db) auto

text \<open>A step keeps the tables of sites and generators, and the contents other than the one it moves.\<close>

definition frame :: "ref set \<Rightarrow> i18n \<Rightarrow> i18n \<Rightarrow> bool" where
  "frame cs s s' \<longleftrightarrow> site_db s' = site_db s \<and> generators s' = generators s \<and> generator_db s' = generator_db s
     \<and> next_ref s \<le> next_ref s' \<and> (\<forall>r < next_ref s. r \<notin> cs \<longrightarrow> heap s' r = heap s r)"

lemma frame_heap: "frame A s t \<Longrightarrow> r < next_ref s \<Longrightarrow> r \<notin> A \<Longrightarrow> heap t r = heap s r"
  by (simp add: frame_def)

lemma frame_trans:
  assumes "frame A s t" and "frame B t u" and "A \<subseteq> C" and "B \<subseteq> C"
  shows "frame C s u"
proof -
  have "heap u r = heap s r" if "r < next_ref s" "r \<notin> C" for r
  proof -
    have "r < next_ref t" using that(1) assms(1) by (simp add: frame_def)
    then have "heap u r = heap t r" using frame_heap [OF assms(2)] that(2) assms(4) by blast
    also have "\<dots> = heap s r" using frame_heap [OF assms(1) that(1)] that(2) assms(3) by blast
    finally show ?thesis .
  qed
  then show ?thesis using assms(1,2) by (simp add: frame_def)
qed

lemma hide_spec:
  assumes "hide h c s = (c', s1)" and "c < next_ref s"
  shows "frame {c} s s1 \<and> heap s1 c' = hidden_version h (heap s c) \<and> c' < next_ref s1
    \<and> c' \<in> {c, next_ref s} \<and> native_url_db s1 = native_url_db s"
  using assms
  by (cases h) (auto simp: hide_def article2draft_def page2hidden_page_def new_content_def frame_def)

lemma content_step_moves:
  assumes "moves cur policy s c" and "c < next_ref s"
  obtains c' s1 where
    "content_step cur policy h c (l, s) = (l\<lparr>l_contents := remove1 c (l_contents l),
        l_others := l_others l @ (if policy = Str ''hide'' then [c'] else []),
        l_removed := l_removed l @ (if policy = Str ''remove'' then [c] else [])\<rparr>, s1)"
    "frame {c} s s1" "heap s1 c' = hidden_version h (heap s c) \<or> policy \<noteq> Str ''hide''"
    "c' < next_ref s1" "c' \<in> {c, next_ref s}" "native_url_db s1 = native_url_db s"
proof (cases "policy = Str ''hide''")
  case True
  obtain c' s1 where h: "hide h c s = (c', s1)" by fastforce
  show thesis
    using assms(1) True hide_spec [OF h assms(2)]
    by (intro that [of c' s1]) (auto simp: content_step_def h moves_def has_site_def)
next
  case False
  show thesis
    by (rule that [of c s])
      (use assms False in \<open>auto simp: content_step_def moves_def has_site_def frame_def\<close>)
qed

lemma content_step_stays:
  assumes "\<not> moves cur policy s c"
  shows "content_step cur policy h c (l, s) = (l, save_native_if cur c s)"
  using assms by (auto simp: content_step_def moves_def has_site_def save_native_if_def simp del: set_map)

lemma frame_save_native_if: "frame A s (save_native_if cur c s) \<and> heap (save_native_if cur c s) = heap s"
  by (simp add: frame_def save_native_if_def save_native_def)

lemma moves_cong: "frame A s s' \<Longrightarrow> c < next_ref s \<Longrightarrow> c \<notin> A \<Longrightarrow> moves cur policy s' c = moves cur policy s c"
  by (simp add: moves_def has_site_def frame_def)

text \<open>
  The loop over the contents, from any lists in which the contents left to do are the last ones:
  what stays, what the hidden contents and the removed contents gain.
\<close>

definition filtered :: "string \<Rightarrow> setting \<Rightarrow> hiding \<Rightarrow> ref list \<Rightarrow> ref list \<Rightarrow> lists \<Rightarrow> i18n \<Rightarrow> lists \<Rightarrow> i18n \<Rightarrow> bool" where
  "filtered cur policy h ys xs l s l' s' \<longleftrightarrow> (\<exists>hs.
     l' = l\<lparr>l_contents := ys @ [c \<leftarrow> xs. \<not> moves cur policy s c],
         l_others := l_others l @ (if policy = Str ''hide'' then hs else []),
         l_removed := l_removed l @ (if policy = Str ''remove'' then [c \<leftarrow> xs. moves cur policy s c] else [])\<rparr>
     \<and> (policy = Str ''hide'' \<longrightarrow>
         list_all2 (\<lambda>c c'. heap s' c' = hidden_version h (heap s c)) [c \<leftarrow> xs. moves cur policy s c] hs)
     \<and> frame (set xs) s s' \<and> native_url_db s' = record_native cur s xs (native_url_db s))"

lemma frame_rest:
  assumes "frame {x} s s1" and "x \<notin> set xs" and "\<forall>c \<in> set xs. c < next_ref s"
  shows "\<forall>c \<in> set xs. c < next_ref s1 \<and> heap s1 c = heap s c \<and> moves cur policy s1 c = moves cur policy s c"
    and "[c \<leftarrow> xs. moves cur policy s1 c] = [c \<leftarrow> xs. moves cur policy s c]"
    and "[c \<leftarrow> xs. \<not> moves cur policy s1 c] = [c \<leftarrow> xs. \<not> moves cur policy s c]"
    and "record_native cur s1 xs db = record_native cur s xs db"
proof -
  show *: "\<forall>c \<in> set xs. c < next_ref s1 \<and> heap s1 c = heap s c \<and> moves cur policy s1 c = moves cur policy s c"
  proof
    fix c assume "c \<in> set xs"
    then have "c < next_ref s" "c \<notin> {x}" using assms(2,3) by auto
    moreover have "next_ref s \<le> next_ref s1" using assms(1) by (simp add: frame_def)
    ultimately show "c < next_ref s1 \<and> heap s1 c = heap s c \<and> moves cur policy s1 c = moves cur policy s c"
      using frame_heap [OF assms(1)] moves_cong [OF assms(1)] by simp
  qed
  show "[c \<leftarrow> xs. moves cur policy s1 c] = [c \<leftarrow> xs. moves cur policy s c]"
    "[c \<leftarrow> xs. \<not> moves cur policy s1 c] = [c \<leftarrow> xs. \<not> moves cur policy s c]"
    using * by (auto intro: filter_cong)
  show "record_native cur s1 xs db = record_native cur s xs db" using * by (intro record_native_cong) simp
qed

lemma filtered_moves:
  assumes x: "moves cur policy s x" "x \<notin> set xs" "\<forall>c \<in> set xs. c < next_ref s"
    and s1: "frame {x} s s1" "heap s1 c' = hidden_version h (heap s x) \<or> policy \<noteq> Str ''hide''"
      "c' < next_ref s1" "c' \<in> {x, next_ref s}" "native_url_db s1 = native_url_db s"
    and rest: "filtered cur policy h ys xs (l\<lparr>l_contents := cs,
        l_others := l_others l @ (if policy = Str ''hide'' then [c'] else []),
        l_removed := l_removed l @ (if policy = Str ''remove'' then [x] else [])\<rparr>) s1 l' s'"
  shows "filtered cur policy h ys (x # xs) l s l' s'"
proof -
  note same = frame_rest [OF s1(1) x(2,3)]
  obtain hs where hs: "l' = l\<lparr>l_contents := ys @ [c \<leftarrow> xs. \<not> moves cur policy s c],
         l_others := (l_others l @ (if policy = Str ''hide'' then [c'] else [])) @ (if policy = Str ''hide'' then hs else []),
         l_removed := (l_removed l @ (if policy = Str ''remove'' then [x] else []))
           @ (if policy = Str ''remove'' then [c \<leftarrow> xs. moves cur policy s c] else [])\<rparr>"
      "policy = Str ''hide'' \<longrightarrow>
         list_all2 (\<lambda>c c'. heap s' c' = hidden_version h (heap s1 c)) [c \<leftarrow> xs. moves cur policy s c] hs"
      "frame (set xs) s1 s'" "native_url_db s' = record_native cur s xs (native_url_db s)"
    using rest unfolding filtered_def same(2-4) s1(5) by (elim exE conjE) (rule that, simp_all)
  have "c' \<notin> set xs" using s1(4) x(2,3) by auto
  then have "heap s' c' = heap s1 c'" by (rule frame_heap [OF hs(3) s1(3)])
  moreover have "list_all2 (\<lambda>c c'. heap s' c' = hidden_version h (heap s c)) [c \<leftarrow> xs. moves cur policy s c] hs"
    if "policy = Str ''hide''"
    by (rule list.rel_mono_strong [OF hs(2) [rule_format, OF that]]) (use same(1) in auto)
  ultimately have "policy = Str ''hide'' \<longrightarrow>
      list_all2 (\<lambda>c c'. heap s' c' = hidden_version h (heap s c)) [c \<leftarrow> x # xs. moves cur policy s c] (c' # hs)"
    using s1(2) x(1) by auto
  moreover have "l' = l\<lparr>l_contents := ys @ [c \<leftarrow> x # xs. \<not> moves cur policy s c],
         l_others := l_others l @ (if policy = Str ''hide'' then c' # hs else []),
         l_removed := l_removed l @ (if policy = Str ''remove'' then [c \<leftarrow> x # xs. moves cur policy s c] else [])\<rparr>"
    using x(1) unfolding hs(1) by (cases "policy = Str ''hide''"; cases "policy = Str ''remove''") simp_all
  moreover have "frame (set (x # xs)) s s'" by (rule frame_trans [OF s1(1) hs(3)]) auto
  moreover have "native_url_db s' = record_native cur s (x # xs) (native_url_db s)"
    using hs(4) x(1) by (simp add: moves_def)
  ultimately show ?thesis unfolding filtered_def by blast
qed

lemma filtered_stays:
  assumes x: "\<not> moves cur policy s x" "x \<notin> set xs" "\<forall>c \<in> set xs. c < next_ref s"
    and rest: "filtered cur policy h (ys @ [x]) xs l (save_native_if cur x s) l' s'"
  shows "filtered cur policy h ys (x # xs) l s l' s'"
proof -
  have s1: "frame {x} s (save_native_if cur x s)" "heap (save_native_if cur x s) = heap s"
    using frame_save_native_if by auto
  note same = frame_rest [OF s1(1) x(2,3)]
  have "frame (set (x # xs)) s s'"
    using rest by (intro frame_trans [OF s1(1)]) (auto simp: filtered_def)
  moreover have "record_native cur s xs (native_url_db (save_native_if cur x s))
      = record_native cur s (x # xs) (native_url_db s)"
    by (simp add: save_native_if_def save_native_def)
  moreover have "filter (\<lambda>c. \<not> moves cur policy s c) (x # xs) = x # [c \<leftarrow> xs. \<not> moves cur policy s c]"
      "filter (moves cur policy s) (x # xs) = [c \<leftarrow> xs. moves cur policy s c]"
    using x(1) by simp_all
  ultimately show ?thesis
    using rest unfolding filtered_def same(2-4) s1(2) append_assoc append_Cons append_Nil
    by (elim exE conjE) (intro exI conjI, simp_all only:)
qed

lemma content_fold:
  assumes "distinct (ys @ xs)" and "\<forall>c \<in> set xs. c < next_ref s" and "l_contents l = ys @ xs"
  shows "\<exists>l' s'. fold (content_step cur policy h) xs (l, s) = (l', s') \<and> filtered cur policy h ys xs l s l' s'"
  using assms
proof (induction xs arbitrary: ys l s)
  case Nil
  then show ?case by (simp add: filtered_def frame_def)
next
  case (Cons x xs)
  have x: "x < next_ref s" "x \<notin> set ys" "x \<notin> set xs" "\<forall>c \<in> set xs. c < next_ref s"
    using Cons.prems by auto
  show ?case
  proof (cases "moves cur policy s x")
    case True
    obtain c' s1 where step: "content_step cur policy h x (l, s) = (l\<lparr>l_contents := remove1 x (l_contents l),
        l_others := l_others l @ (if policy = Str ''hide'' then [c'] else []),
        l_removed := l_removed l @ (if policy = Str ''remove'' then [x] else [])\<rparr>, s1)"
      and s1: "frame {x} s s1" "heap s1 c' = hidden_version h (heap s x) \<or> policy \<noteq> Str ''hide''"
        "c' < next_ref s1" "c' \<in> {x, next_ref s}" "native_url_db s1 = native_url_db s"
      by (rule content_step_moves [OF True x(1)])
    have "\<forall>c \<in> set xs. c < next_ref s1" using frame_rest(1) [OF s1(1) x(3,4)] by blast
    moreover have "l_contents (fst (content_step cur policy h x (l, s))) = ys @ xs" "distinct (ys @ xs)"
      using Cons.prems(1,3) remove1_middle [OF x(2)] by (simp_all add: step)
    ultimately obtain l' s' where rest:
        "fold (content_step cur policy h) xs (fst (content_step cur policy h x (l, s)), s1) = (l', s')"
        "filtered cur policy h ys xs (fst (content_step cur policy h x (l, s))) s1 l' s'"
      using Cons.IH by blast
    show ?thesis
      using rest(1) filtered_moves [OF True x(3,4) s1 rest(2) [unfolded step fst_conv]] by (simp add: step)
  next
    case False
    have "\<forall>c \<in> set xs. c < next_ref (save_native_if cur x s)"
      using frame_rest(1) [OF conjunct1 [OF frame_save_native_if] x(3,4)] by blast
    moreover have "distinct ((ys @ [x]) @ xs)" "l_contents l = (ys @ [x]) @ xs" using Cons.prems(1,3) by simp_all
    ultimately obtain l' s' where rest: "fold (content_step cur policy h) xs (l, save_native_if cur x s) = (l', s')"
        "filtered cur policy h (ys @ [x]) xs l (save_native_if cur x s) l' s'"
      using Cons.IH by blast
    show ?thesis
      using rest(1) filtered_stays [OF False x(3,4) rest(2)] by (simp add: content_step_stays [OF False])
  qed
qed

lemma fold_save_native:
  "frame {} s (fold (save_native_if cur) cs s) \<and> heap (fold (save_native_if cur) cs s) = heap s
    \<and> next_ref (fold (save_native_if cur) cs s) = next_ref s
    \<and> native_url_db (fold (save_native_if cur) cs s) = record_native cur s cs (native_url_db s)"
proof (induction cs arbitrary: s)
  case (Cons c cs)
  have "record_native cur (save_native_if cur c s) cs db = record_native cur s cs db" for db
    by (rule record_native_cong) (simp add: frame_save_native_if)
  then show ?case using Cons.IH [of "save_native_if cur c s"]
    by (auto simp: save_native_if_def save_native_def frame_def)
qed (simp add: frame_def)

text \<open>
  C6: filtering a list of contents takes out, in their order, those in the language of another
  site unless the policy keeps them; with the policy to hide, the hidden list of the generator
  gains their hidden versions, a new draft for an article and the same object for a page; with the
  policy to remove, the removed contents gain them; and the URL of every content in the site's own
  language, hidden or not, is recorded as its native one.
\<close>

theorem filter_contents_lists:
  assumes "get_list g name s = Inr contents" and "get_list g other_name s = Inr others"
    and "dict_item (generator_db s) g = Inr removed" and "name \<noteq> other_name"
    and "distinct contents" and "\<forall>c \<in> set contents. c < next_ref s"
  shows "\<exists>hs s'. filter_contents current policy h g (name, other_name) s = Inr s'
    \<and> get_list g name s' = Inr [c \<leftarrow> contents. \<not> moves current policy s c]
    \<and> get_list g other_name s' = Inr (others @ (if policy = Str ''hide'' then hs else []))
    \<and> dict_item (generator_db s') g
        = Inr (removed @ (if policy = Str ''remove'' then [c \<leftarrow> contents. moves current policy s c] else []))
    \<and> (policy = Str ''hide'' \<longrightarrow>
        list_all2 (\<lambda>c c'. heap s' c' = hidden_version h (heap s c)) [c \<leftarrow> contents. moves current policy s c] hs)
    \<and> native_url_db s' = record_native current s (others @ contents) (native_url_db s)"
proof -
  define s0 where "s0 = fold (save_native_if current) others s"
  have s0: "frame {} s s0 \<and> heap s0 = heap s \<and> next_ref s0 = next_ref s
      \<and> native_url_db s0 = record_native current s others (native_url_db s)"
    unfolding s0_def by (rule fold_save_native)
  have eq: "moves current p s0 = moves current p s" "record_native current s0 = record_native current s" for p
    using s0 by (auto simp: fun_eq_iff moves_def has_site_def frame_def record_native_def)
  let ?l = "\<lparr>l_contents = contents, l_others = others, l_removed = removed\<rparr>"
  obtain l' s1 where f: "fold (content_step current policy h) contents (?l, s0) = (l', s1)"
      "filtered current policy h [] contents ?l s0 l' s1"
    using content_fold [of "[]" contents s0 ?l current policy h] assms(5,6) s0 by auto
  then obtain hs where hs: "l' = ?l\<lparr>l_contents := [c \<leftarrow> contents. \<not> moves current policy s c],
         l_others := others @ (if policy = Str ''hide'' then hs else []),
         l_removed := removed @ (if policy = Str ''remove'' then [c \<leftarrow> contents. moves current policy s c] else [])\<rparr>"
    "policy = Str ''hide'' \<longrightarrow>
         list_all2 (\<lambda>c c'. heap s1 c' = hidden_version h (heap s c)) [c \<leftarrow> contents. moves current policy s c] hs"
    "native_url_db s1 = record_native current s contents (native_url_db s0)"
    using s0 unfolding filtered_def eq by (elim exE conjE) (rule that, simp_all)
  show ?thesis
    using f(1) hs s0 assms(1-4)
    by (intro exI [where x = hs]) (simp add: filter_contents_def eq put_list_def put_removed_def get_list_def dict_item_def
        pyd.get_put flip: s0_def)
qed

end
