(* ===== verification/I18nBuild.thy ===== *)
theory I18nBuild
  imports I18nSubsites
begin

text \<open>
  A whole build of the website with \<open>i18n_subsites.py\<close>: the handlers run on the signals of the site
  generator, the subsites are built from within the handler of the main site's writer, and all
  sites are linked at the end. The theorems are about the build as a whole: each subsite is built
  once, the build ends ready for the next one, and the links lead to the right site.
\<close>

section \<open>The build\<close>

text \<open>
  What the site generator does for a site is a list of signals: a generator is created, a content
  is loaded, a generator has its lists (a signal given by its name, to which the filter may be
  connected), the static files are known. The last signal of a site asks for the writer, and its
  handler builds the next subsite.
\<close>

datatype signal =
    Generator_init ref generator
  | Content_loaded ref content
  | Generator_signal string ref "(string, ref list) dict"
  | Static_generator_finalized settings "static_file list"

definition handle :: "signal \<Rightarrow> i18n \<Rightarrow> i18n result" where
  "handle sig s = (case sig of
      Generator_init g gen \<Rightarrow> Inr (save_generator g (s\<lparr>generators := (generators s)(g := gen)\<rparr>))
    | Content_loaded c x \<Rightarrow> Inr (s\<lparr>heap := (heap s)(c := x), next_ref := max (next_ref s) (c + 1)\<rparr>)
    | Generator_signal name g ls \<Rightarrow>
        (let s = s\<lparr>generators := (generators s)(g := (generators s g)\<lparr>g_lists := ls\<rparr>)\<rparr>
         in if (name, ''filter_contents_translations'') \<in> set signal_handlers \<or> name \<in> set (filter_signals s)
            then filter_contents_translations g s else Inr s)
    | Static_generator_finalized sts files \<Rightarrow> save_main_static_files sts files s)"

lemma keeps_handle [keep_intros]:
  assumes "handle sig s = Inr s'"
  shows "keeps cwd s s'"
proof (cases sig)
  case (Generator_init g gen)
  then show ?thesis using assms
    by (auto simp: handle_def intro: keeps_trans [OF keeps_fields(2) keeps_put(6)])
next
  case (Generator_signal name g ls)
  then show ?thesis using assms
    by (auto simp: handle_def Let_def keep_intros intro: keeps_trans [OF keeps_fields(2) keeps_filter] split: if_splits)
next
  case (Static_generator_finalized sts files)
  then show ?thesis using assms
    by (auto simp: handle_def save_main_static_files_def rbind_Inr_iff keep_intros)
qed (use assms in \<open>auto simp: handle_def keep_intros\<close>)

text \<open>
  \<open>site\<close> gives the signals for the settings of a site, \<open>configure\<close> normalises settings, \<open>set_locale\<close>
  is the locale the normalised settings switch to.
\<close>

record environment =
  site :: "settings \<Rightarrow> signal list"
  configure :: "settings \<Rightarrow> settings"
  set_locale :: "settings \<Rightarrow> string"
  cwd_of :: string
  has_catalog :: "setting \<Rightarrow> string \<Rightarrow> string \<Rightarrow> bool"
  importable_module :: "string \<Rightarrow> bool"
  package_attr :: "string \<Rightarrow> string \<Rightarrow> setting option"

definition start_subsite :: "environment \<Rightarrow> i18n \<Rightarrow> (settings \<times> i18n) result" where
  "start_subsite env s =
    rbind (need AttributeError (main_settings s)) (\<lambda>main.
    let (lang, overrides) = last (subsite_queue s);
        sts = configure env (fold (\<lambda>(k, v). dput k v) overrides main)
    in rbind (get_pelican_cls (importable_module env) (package_attr env) sts) (\<lambda>_.
    Inr (sts, s\<lparr>subsite_queue := butlast (subsite_queue s), cur_locale := set_locale env sts\<rparr>)))"

lemma start_subsite_queue:
  "subsite_queue s \<noteq> [] \<Longrightarrow> start_subsite env s = Inr (sts, s') \<Longrightarrow>
     length (subsite_queue s') < length (subsite_queue s)"
  by (auto simp: start_subsite_def rbind_Inr_iff Let_def split_beta)

lemma keeps_signals: "rfold handle sigs s = Inr s' \<Longrightarrow> keeps cwd s s'"
  by (rule keeping.raising_loop [OF keeps_handle])

function create_next_subsite :: "environment \<Rightarrow> i18n \<Rightarrow> i18n result" where
  "create_next_subsite env s =
    (if subsite_queue s = [] then
       rbind (update_generators (has_catalog env) (cwd_of env) s) (\<lambda>s. Inr (s\<lparr>main_settings := None\<rparr>))
     else rbind (start_subsite env s) (\<lambda>(sts, s1).
       rbind (initialize_plugin (cwd_of env) sts s1) (\<lambda>s2.
       rbind (rfold handle (site env sts) s2) (\<lambda>s3.
       rbind (create_next_subsite env s3) (\<lambda>s4. Inr (s4\<lparr>cur_locale := cur_locale s\<rparr>))))))"
  by pat_completeness auto
termination
proof (relation "measure (\<lambda>(env, s). length (subsite_queue s))")
  fix env :: environment and s :: i18n and x sts and s1 s2 s3 :: i18n
  assume ne: "subsite_queue s \<noteq> []" and x: "start_subsite env s = Inr x" "(sts, s1) = x"
    and init: "initialize_plugin (cwd_of env) sts s1 = Inr s2"
    and sig: "rfold handle (site env sts) s2 = Inr s3"
  have "main_settings s1 \<noteq> None"
    using x by (auto simp: start_subsite_def result_simps Let_def split_beta)
  then have "s2 = s1" using init by (cases "main_settings s1") (auto simp: initialize_plugin_def)
  then show "((env, s3), (env, s)) \<in> measure (\<lambda>(env, s). length (subsite_queue s))"
    using keeps_signals [OF sig, of "[]"] start_subsite_queue [OF ne] x by (auto simp: keeps_def)
qed simp

declare create_next_subsite.simps [simp del]

definition build :: "environment \<Rightarrow> settings \<Rightarrow> i18n \<Rightarrow> i18n result" where
  "build env settings s =
    rbind (initialize_plugin (cwd_of env) settings s) (\<lambda>s.
    rbind (rfold handle (site env settings) s) (create_next_subsite env))"

lemma start_subsite_Inr:
  "start_subsite env s = Inr (sts, s1) \<longleftrightarrow> (\<exists>main. main_settings s = Some main
     \<and> sts = configure env (fold (\<lambda>(k, v). dput k v) (snd (last (subsite_queue s))) main)
     \<and> (\<exists>cls. get_pelican_cls (importable_module env) (package_attr env) sts = Inr cls)
     \<and> s1 = s\<lparr>subsite_queue := butlast (subsite_queue s), cur_locale := set_locale env sts\<rparr>)"
  by (auto simp: start_subsite_def result_simps Let_def split_beta)

text \<open>What one subsite does, started with the last entry of the queue.\<close>

definition subsite_step :: "environment \<Rightarrow> string \<times> settings \<Rightarrow> i18n \<Rightarrow> i18n result" where
  "subsite_step env x s =
    rbind (need AttributeError (main_settings s)) (\<lambda>main.
    let sts = configure env (fold (\<lambda>(k, v). dput k v) (snd x) main)
    in rbind (get_pelican_cls (importable_module env) (package_attr env) sts) (\<lambda>_.
       rfold handle (site env sts)
         (s\<lparr>subsite_queue := butlast (subsite_queue s), cur_locale := set_locale env sts\<rparr>)))"

lemma create_next_subsite_unroll:
  assumes "subsite_queue s \<noteq> []"
  shows "create_next_subsite env s = rbind (subsite_step env (last (subsite_queue s)) s) (\<lambda>s3.
     rbind (create_next_subsite env s3) (\<lambda>s4. Inr (s4\<lparr>cur_locale := cur_locale s\<rparr>)))"
proof (cases "main_settings s")
  case None
  then show ?thesis using assms
    by (subst create_next_subsite.simps) (simp add: start_subsite_def subsite_step_def)
next
  case (Some main)
  then show ?thesis using assms
    by (subst create_next_subsite.simps)
      (simp add: start_subsite_def subsite_step_def initialize_plugin_def Let_def split_beta rbind_assoc)
qed

lemma subsite_step_keeps:
  assumes "subsite_step env x s = Inr s3"
  shows "subsite_queue s3 = butlast (subsite_queue s) \<and> main_settings s3 = main_settings s
    \<and> site_db s3 = site_db s \<and> main_siteurl s3 = main_siteurl s \<and> main_lang s3 = main_lang s
    \<and> (cache_ok cwd s \<longrightarrow> cache_ok cwd s3)"
proof -
  obtain main where "rfold handle (site env (configure env (fold (\<lambda>(k, v). dput k v) (snd x) main)))
         (s\<lparr>subsite_queue := butlast (subsite_queue s),
            cur_locale := set_locale env (configure env (fold (\<lambda>(k, v). dput k v) (snd x) main))\<rparr>) = Inr s3"
    using assms by (auto simp: subsite_step_def result_simps Let_def)
  moreover have "cache_ok cwd (s\<lparr>subsite_queue := q, cur_locale := l\<rparr>) = cache_ok cwd s" for q l
    by (simp add: cache_ok_def site_url_def cong: option.case_cong)
  ultimately show ?thesis using keeps_signals [of _ _ s3 cwd] by (fastforce simp: keeps_def)
qed

text \<open>The recursion through the handler of the writer is a loop over the queue.\<close>

lemma create_next_subsite_loop:
  "create_next_subsite env s =
    rbind (rfold (subsite_step env) (rev (subsite_queue s)) s) (\<lambda>s'.
    rbind (update_generators (has_catalog env) (cwd_of env) s') (\<lambda>s''.
    Inr (s''\<lparr>main_settings := None, cur_locale := cur_locale s\<rparr>)))"
proof (induction "length (subsite_queue s)" arbitrary: s)
  case 0
  have "rbind (update_generators (has_catalog env) (cwd_of env) s) (\<lambda>s'. Inr (s'\<lparr>main_settings := None\<rparr>))
      = rbind (update_generators (has_catalog env) (cwd_of env) s) (\<lambda>s'. Inr (s'\<lparr>main_settings := None, cur_locale := cur_locale s\<rparr>))"
  proof (rule rbind_cong [OF refl])
    fix s' assume "update_generators (has_catalog env) (cwd_of env) s = Inr s'"
    then have "keeps (cwd_of env) s s'" by (rule keeps_update_generators)
    then have "cur_locale s' = cur_locale s" by (simp add: keeps_def)
    then show "(Inr (s'\<lparr>main_settings := None\<rparr>) :: i18n result) = Inr (s'\<lparr>main_settings := None, cur_locale := cur_locale s\<rparr>)"
      by (cases s') simp
  qed
  with 0 show ?case by (subst create_next_subsite.simps) simp
next
  case (Suc n)
  then have ne: "subsite_queue s \<noteq> []" by auto
  have q: "rev (subsite_queue s) = last (subsite_queue s) # rev (butlast (subsite_queue s))"
    using ne by (metis append_butlast_last_id rev_eq_Cons_iff rev_rev_ident)
  show ?case
  proof (cases "subsite_step env (last (subsite_queue s)) s")
    case (Inl e)
    then show ?thesis using ne by (simp add: create_next_subsite_unroll q)
  next
    case (Inr s3)
    have q3: "subsite_queue s3 = butlast (subsite_queue s)" using subsite_step_keeps [OF Inr] by simp
    then have "n = length (subsite_queue s3)" using Suc.hyps(2) by simp
    from Suc.hyps(1) [OF this] show ?thesis
      using ne Inr by (simp add: create_next_subsite_unroll q q3 rbind_assoc)
  qed
qed

lemma subsite_loop_queue:
  assumes "rfold (subsite_step env) (rev (subsite_queue s)) s = Inr s'"
  shows "subsite_queue s' = []"
proof -
  have "subsite_queue s' = take (length (subsite_queue s) - length xs) (subsite_queue s)"
    if "rfold (subsite_step env) xs s = Inr s'" for xs s
    using that
  proof (induction xs arbitrary: s)
    case (Cons x xs)
    then obtain s1 where s1: "subsite_step env x s = Inr s1" "rfold (subsite_step env) xs s1 = Inr s'"
      by (auto simp: rbind_Inr_iff)
    show ?case using Cons.IH [OF s1(2)] subsite_step_keeps [OF s1(1), of "[]"]
      by (simp add: butlast_conv_take min_def)
  qed simp
  from this [OF assms] show ?thesis by simp
qed

lemma prepare_subsite_locale:
  assumes "prepare_subsite cwd main mlang main_url x s = Inr s'"
  shows "cur_locale s' = cur_locale s"
proof -
  obtain lang overrides where x: "x = (lang, overrides)" by fastforce
  have "cur_locale t = cur_locale s0" if "relpath_to_site cwd lang mlang s0 = Inr (rel, t)" for s0 t rel
    using keeps_relpath_to_site [OF that] by (simp add: keeps_def)
  then show ?thesis using assms
    by (auto simp: prepare_subsite_def x rbind_Inr_iff Let_def split: if_splits)
qed

lemma initialize_plugin_Inr:
  assumes "initialize_plugin cwd sts s = Inr s'"
  obtains "s' = s" "main_settings s \<noteq> None"
  | t fs where "main_settings s = None" "initialize_dbs cwd sts s = Inr t" "s' = t\<lparr>filter_signals := fs\<rparr>"
  using assms that by (auto simp: initialize_plugin_def rbind_Inr_iff split: if_splits dest!: subscribe_Inr)

lemma initialize_locale:
  assumes "initialize_plugin cwd sts s = Inr s'"
  shows "cur_locale s' = cur_locale s"
proof -
  have "cur_locale t = cur_locale s0"
    if "rfold (prepare_subsite cwd main mlang main_url) xs s0 = Inr t" for main mlang main_url xs s0 t
    using that by (rule rfold_invariant [where P = "\<lambda>t. cur_locale t = cur_locale s0"])
      (auto dest: prepare_subsite_locale)
  then have dbs: "cur_locale t = cur_locale s" if "initialize_dbs cwd sts s = Inr t" for t
    using that by (fastforce simp: initialize_dbs_def prepare_site_db_and_overrides_def rbind_Inr_iff Let_def)
  show ?thesis by (rule initialize_plugin_Inr [OF assms]) (auto dest: dbs)
qed

lemma initialize_main_settings: "initialize_plugin cwd sts s = Inr s' \<Longrightarrow> main_settings s' \<noteq> None"
  by (erule initialize_plugin_Inr) (auto simp: initialize_dbs_def rbind_Inr_iff)

text \<open>
  The specification of a build: the settings of all subsites are fixed once the plugin is
  initialised, and one run of the site generator is made for each.
\<close>

definition sites_of :: "environment \<Rightarrow> settings \<Rightarrow> (string \<times> settings) list \<Rightarrow> settings list" where
  "sites_of env main queue =
     map (\<lambda>(lang, overrides). configure env (fold (\<lambda>(k, v). dput k v) overrides main)) (rev queue)"

definition run_site :: "environment \<Rightarrow> settings \<Rightarrow> i18n \<Rightarrow> i18n result" where
  "run_site env sts s =
     rbind (get_pelican_cls (importable_module env) (package_attr env) sts) (\<lambda>_.
     rfold handle (site env sts)
       (s\<lparr>subsite_queue := butlast (subsite_queue s), cur_locale := set_locale env sts\<rparr>))"

lemma subsite_loop_run_site:
  "main_settings s = Some main \<Longrightarrow> rfold (subsite_step env) (rev xs) s = rfold (run_site env) (sites_of env main xs) s"
proof (induction xs arbitrary: s rule: rev_induct)
  case (snoc x xs)
  have step: "subsite_step env x s = run_site env (configure env (fold (\<lambda>(k, v). dput k v) (snd x) main)) s"
    using snoc.prems by (simp add: subsite_step_def run_site_def Let_def)
  have "rfold (subsite_step env) (rev xs) s1 = rfold (run_site env) (sites_of env main xs) s1"
    if "subsite_step env x s = Inr s1" for s1
    using subsite_step_keeps [OF that] snoc by simp
  then show ?case by (auto simp: sites_of_def split_beta step intro: rbind_cong)
qed (simp add: sites_of_def)

text \<open>
  C5: a build, in which the handler for the writer of a site recursively builds the next site, is
  the main site's run, one run for each entry of the table of subsites, the last one first and with
  settings that depend on the table as it was initialised, and then the linking of all sites.
\<close>

theorem build_runs_each_site:
  "build env settings s =
    rbind (initialize_plugin (cwd_of env) settings s) (\<lambda>s1.
    rbind (rfold handle (site env settings) s1) (\<lambda>s2.
    rbind (rfold (run_site env) (sites_of env (the (main_settings s1)) (subsite_queue s1)) s2) (\<lambda>s3.
    rbind (update_generators (has_catalog env) (cwd_of env) s3) (\<lambda>s4.
    Inr (s4\<lparr>main_settings := None, cur_locale := cur_locale s\<rparr>)))))"
  unfolding build_def
proof (intro rbind_cong refl)
  fix s1 s2 assume s1: "initialize_plugin (cwd_of env) settings s = Inr s1"
    and s2: "rfold handle (site env settings) s1 = Inr s2"
  have "main_settings s2 = Some (the (main_settings s1))" "subsite_queue s2 = subsite_queue s1"
      "cur_locale s2 = cur_locale s"
    using initialize_main_settings [OF s1] initialize_locale [OF s1] keeps_signals [OF s2] by (auto simp: keeps_def)
  then show "create_next_subsite env s2 =
      rbind (rfold (run_site env) (sites_of env (the (main_settings s1)) (subsite_queue s1)) s2) (\<lambda>s3.
      rbind (update_generators (has_catalog env) (cwd_of env) s3) (\<lambda>s4.
      Inr (s4\<lparr>main_settings := None, cur_locale := cur_locale s\<rparr>)))"
    using subsite_loop_run_site [of s2] by (simp add: create_next_subsite_loop)
qed

section \<open>Relative paths\<close>

text \<open>The states a build goes through: initialised, then any handlers and starts of subsites.\<close>

inductive reachable :: "environment \<Rightarrow> i18n \<Rightarrow> bool" for env where
  initialised: "main_settings s = None \<Longrightarrow> initialize_plugin (cwd_of env) sts s = Inr s' \<Longrightarrow> reachable env s'"
| signalled: "reachable env s \<Longrightarrow> handle sig s = Inr s' \<Longrightarrow> reachable env s'"
| subsite: "reachable env s \<Longrightarrow> subsite_queue s \<noteq> [] \<Longrightarrow> start_subsite env s = Inr (sts, s') \<Longrightarrow> reachable env s'"
| updated: "reachable env s \<Longrightarrow> update_generator (has_catalog env) (cwd_of env) g s = Inr s' \<Longrightarrow> reachable env s'"

inductive_cases reachable_elim: "reachable env s"

lemma cache_ok_empty: "relpath_db s = [] \<Longrightarrow> cache_ok cwd s"
  by (simp add: cache_ok_def)

lemma reachable_cache_ok: "reachable env s \<Longrightarrow> cache_ok (cwd_of env) s"
proof (induction rule: reachable.induct)
  case (initialised s sts s')
  then have "relpath_db s' = []"
    by (elim initialize_plugin_Inr) (auto simp: initialize_dbs_def rbind_Inr_iff)
  then show ?case by (rule cache_ok_empty)
next
  case (signalled s sig s')
  then show ?case using keeps_handle by (auto simp: keeps_def)
next
  case (subsite s sts s')
  then show ?case
    by (auto simp: start_subsite_Inr cache_ok_def site_url_def cong: option.case_cong)
next
  case (updated s g s')
  then show ?case using keeps_update_generator by (auto simp: keeps_def)
qed

definition rooted :: "string \<Rightarrow> bool" where
  "rooted p \<longleftrightarrow> prefix ''/'' p \<and> \<not> prefix ''//'' p"

text \<open>
  At any time of a build, the relative path between two sites, cached or not, leads from the
  one to the other: joined to the path of the first site's URL and normalised it is the path of
  the second's.
\<close>

lemma relpath_to_site_leads:
  assumes "reachable env s" and "site_url s lang = Some u" and "site_url s target_lang = Some v"
    and "rooted (get_site_path u)" and "rooted (get_site_path v)"
  shows "\<exists>path s'. relpath_to_site (cwd_of env) lang target_lang s = Inr (path, s')
    \<and> normpath (path_join (get_site_path u) path) = normpath (get_site_path v)"
proof -
  obtain r where r: "relpath (cwd_of env) (get_site_path v) (get_site_path u) = Inr r"
      "normpath (path_join (get_site_path u) r) = normpath (get_site_path v)"
    using relpath_leads [of "get_site_path v" "get_site_path u"] assms(4,5) unfolding rooted_def by blast
  show ?thesis
  proof (cases "dget (relpath_db s) (lang, target_lang)")
    case None
    then show ?thesis using assms(2,3) r by (simp add: relpath_to_site_def site_url_def)
  next
    case (Some path)
    then have "path = r"
      using reachable_cache_ok [OF assms(1)] assms(2,3) r(1) by (fastforce simp: cache_ok_def)
    then show ?thesis using Some r(2) by (simp add: relpath_to_site_def)
  qed
qed

section \<open>Links\<close>

text \<open>
  \<open>links_to cwd s from c s'\<close>: in \<open>s'\<close> the content \<open>c\<close> has a link made from the path between the
  sites of the two languages and the native URL that \<open>s\<close> has for it.
\<close>

definition links_to :: "string \<Rightarrow> i18n \<Rightarrow> string \<Rightarrow> ref \<Rightarrow> i18n \<Rightarrow> bool" where
  "links_to cwd s lang c s' \<longleftrightarrow> (\<exists>u v rel url. site_url s lang = Some u \<and> site_url s (c_lang (heap s c)) = Some v
     \<and> relpath cwd (get_site_path v) (get_site_path u) = Inr rel
     \<and> dict_item (native_url_db s) (c_source_path (heap s c)) = Inr url
     \<and> c_override_url (heap s' c) = Some (path_join rel url))"

text \<open>Making one link changes the link of that content and the cache, nothing else.\<close>

definition link_step :: "string \<Rightarrow> string \<Rightarrow> (ref \<Rightarrow> i18n \<Rightarrow> i18n result) \<Rightarrow> bool" where
  "link_step cwd lang f \<longleftrightarrow> (\<forall>c s s'. cache_ok cwd s \<longrightarrow> f c s = Inr s' \<longrightarrow>
     (\<exists>u. heap s' = (heap s)(c := (heap s c)\<lparr>c_override_url := u\<rparr>)) \<and> native_url_db s' = native_url_db s
     \<and> site_db s' = site_db s \<and> main_siteurl s' = main_siteurl s \<and> cache_ok cwd s' \<and> links_to cwd s lang c s')"

lemma relpath_to_site_value:
  assumes "cache_ok cwd s" and "relpath_to_site cwd l t s = Inr (rel, s')"
  shows "\<exists>u v db. site_url s l = Some u \<and> site_url s t = Some v
    \<and> relpath cwd (get_site_path v) (get_site_path u) = Inr rel \<and> s' = s\<lparr>relpath_db := db\<rparr>"
proof (cases "dget (relpath_db s) (l, t)")
  case None
  then show ?thesis using assms(2) by (auto simp: relpath_to_site_def site_url_def result_simps)
next
  case (Some p)
  then have "rel = p" "s' = s\<lparr>relpath_db := relpath_db s\<rparr>" using assms(2) by (auto simp: relpath_to_site_def)
  moreover obtain u v where "site_url s l = Some u" "site_url s t = Some v"
      "relpath cwd (get_site_path v) (get_site_path u) = Inr p"
    using assms(1) Some unfolding cache_ok_def by blast
  ultimately show ?thesis by blast
qed

lemma link_step_interlink: "link_step cwd lang (interlink_native cwd lang)" "link_step cwd lang (interlink_removed cwd lang)"
proof -
  have made: "(\<exists>u. heap t = (heap s)(c := (heap s c)\<lparr>c_override_url := u\<rparr>)) \<and> native_url_db t = native_url_db s
     \<and> site_db t = site_db s \<and> main_siteurl t = main_siteurl s \<and> cache_ok cwd t \<and> links_to cwd s lang c t"
    if ok: "cache_ok cwd s" and rel: "relpath_to_site cwd lang (c_lang (heap s c)) s = Inr (rel, s1)"
      and url: "dict_item (native_url_db s) (c_source_path (heap s c)) = Inr url"
      and t: "t = set_override_url c (path_join rel url) s1" for c s s1 rel url t
  proof -
    obtain u v db where v: "site_url s lang = Some u" "site_url s (c_lang (heap s c)) = Some v"
        "relpath cwd (get_site_path v) (get_site_path u) = Inr rel" "s1 = s\<lparr>relpath_db := db\<rparr>"
      using relpath_to_site_value [OF ok rel] by blast
    have "keeps cwd s t" unfolding t by (rule keeps_trans [OF keeps_relpath_to_site [OF rel] keeps_put(5)])
    then have "cache_ok cwd t" using ok by (simp add: keeps_def)
    then show ?thesis using v url by (auto simp: t set_override_url_def links_to_def)
  qed
  show "link_step cwd lang (interlink_native cwd lang)"
    unfolding link_step_def
  proof (intro allI impI)
    fix c s t assume ok: "cache_ok cwd s" and "interlink_native cwd lang c s = Inr t"
    then obtain rel s1 url where r: "relpath_to_site cwd lang (c_lang (heap s c)) s = Inr (rel, s1)"
        "dict_item (native_url_db s1) (c_source_path (heap s1 c)) = Inr url" "t = set_override_url c (path_join rel url) s1"
      by (auto simp: interlink_native_def rbind_Inr_iff split_beta)
    have "dict_item (native_url_db s) (c_source_path (heap s c)) = Inr url"
      using relpath_to_site_value [OF ok r(1)] r(2) by auto
    from made [OF ok r(1) this r(3)]
    show "(\<exists>u. heap t = (heap s)(c := (heap s c)\<lparr>c_override_url := u\<rparr>)) \<and> native_url_db t = native_url_db s
      \<and> site_db t = site_db s \<and> main_siteurl t = main_siteurl s \<and> cache_ok cwd t \<and> links_to cwd s lang c t" .
  qed
  show "link_step cwd lang (interlink_removed cwd lang)"
    unfolding link_step_def using made by (fastforce simp: interlink_removed_def rbind_Inr_iff split_beta)
qed

text \<open>Linking a list of contents links each of them and leaves the other contents alone.\<close>

lemma link_rfold:
  assumes "link_step cwd lang f" and "cache_ok cwd s" and "rfold f cs s = Inr s'"
  shows "(\<forall>c. c \<notin> set cs \<longrightarrow> heap s' c = heap s c) \<and> (\<forall>c \<in> set cs. links_to cwd s lang c s')"
  using assms(2,3)
proof (induction cs arbitrary: s)
  case (Cons x cs)
  obtain s1 where s1: "f x s = Inr s1" "rfold f cs s1 = Inr s'" using Cons.prems(2) by (auto simp: rbind_Inr_iff)
  obtain u where h: "heap s1 = (heap s)(x := (heap s x)\<lparr>c_override_url := u\<rparr>)" "native_url_db s1 = native_url_db s"
      "site_db s1 = site_db s" "main_siteurl s1 = main_siteurl s" "cache_ok cwd s1" "links_to cwd s lang x s1"
    using assms(1) Cons.prems(1) s1(1) unfolding link_step_def by blast
  have IH: "\<forall>c. c \<notin> set cs \<longrightarrow> heap s' c = heap s1 c" "\<forall>c \<in> set cs. links_to cwd s1 lang c s'"
    using Cons.IH [OF h(5) s1(2)] by blast+
  have same: "links_to cwd s1 lang c s' = links_to cwd s lang c s'" for c
    using h(1-4) by (simp add: links_to_def site_url_def cong: option.case_cong)
  have "links_to cwd s lang x s'" if "x \<notin> set cs" using h(6) IH(1) that by (simp add: links_to_def)
  then show ?case using IH same h(1) by auto
qed simp

lemma links_to_leads:
  assumes "links_to cwd s lang c s'" and "\<forall>l v. site_url s l = Some v \<longrightarrow> rooted (get_site_path v)"
  obtains u v rel url where "site_url s lang = Some u" "site_url s (c_lang (heap s c)) = Some v"
    "dict_item (native_url_db s) (c_source_path (heap s c)) = Inr url"
    "c_override_url (heap s' c) = Some (path_join rel url)"
    "normpath (path_join (get_site_path u) rel) = normpath (get_site_path v)"
proof -
  obtain u v rel url where l: "site_url s lang = Some u" "site_url s (c_lang (heap s c)) = Some v"
     "relpath cwd (get_site_path v) (get_site_path u) = Inr rel"
     "dict_item (native_url_db s) (c_source_path (heap s c)) = Inr url"
     "c_override_url (heap s' c) = Some (path_join rel url)"
    using assms(1) unfolding links_to_def by blast
  have "rooted (get_site_path u)" "rooted (get_site_path v)" using l(1,2) assms(2) by blast+
  then have "normpath (path_join (get_site_path u) rel) = normpath (get_site_path v)"
    using relpath_leads [of "get_site_path v" "get_site_path u" cwd] l(3) unfolding rooted_def by auto
  with l(1,2,4,5) show thesis by (rule that)
qed

text \<open>
  C7: when the removed contents of a generator are linked, every one of them gets a link to where
  its own site has it: the native URL, behind a relative path that leads from the root of the
  generator's site to the root of the content's site.
\<close>

theorem removed_content_links:
  assumes "reachable env s" and "str_item (g_settings (generators s g)) ''DEFAULT_LANG'' = Inr current"
    and "dict_item (generator_db s) g = Inr removed" and "interlink_removed_content (cwd_of env) g s = Inr s'"
    and "\<forall>l v. site_url s l = Some v \<longrightarrow> rooted (get_site_path v)" and "c \<in> set removed"
  shows "\<exists>u v rel url. site_url s current = Some u \<and> site_url s (c_lang (heap s c)) = Some v
    \<and> dict_item (native_url_db s) (c_source_path (heap s c)) = Inr url
    \<and> c_override_url (heap s' c) = Some (path_join rel url)
    \<and> normpath (path_join (get_site_path u) rel) = normpath (get_site_path v)"
proof -
  have "rfold (interlink_removed (cwd_of env) current) removed s = Inr s'"
    using assms(2-4) by (simp add: interlink_removed_content_def)
  then have "links_to (cwd_of env) s current c s'"
    using link_rfold [OF link_step_interlink(2) reachable_cache_ok [OF assms(1)]] assms(6) by blast
  then show ?thesis by (rule links_to_leads [OF _ assms(5)]) blast
qed

text \<open>
  C19: linking a content to its translations sorts them by language and gives each a link to where
  its own site has it; the relative path starts at the root of the site of the content's language,
  whichever site the content is generated for.
\<close>

theorem translation_links:
  assumes "reachable env s" and "interlink_translations (cwd_of env) c s = Inr s'"
    and "\<forall>l v. site_url s l = Some v \<longrightarrow> rooted (get_site_path v)"
    and "c \<notin> set (c_translations (heap s c))" and "t \<in> set (c_translations (heap s c))"
  shows "c_translations (heap s' c) = sort_key (\<lambda>t. c_lang (heap s t)) (c_translations (heap s c))
    \<and> (\<exists>u v rel url. site_url s (c_lang (heap s c)) = Some u \<and> site_url s (c_lang (heap s t)) = Some v
      \<and> dict_item (native_url_db s) (c_source_path (heap s t)) = Inr url
      \<and> c_override_url (heap s' t) = Some (path_join rel url)
      \<and> normpath (path_join (get_site_path u) rel) = normpath (get_site_path v))"
proof -
  let ?ts = "sort_key (\<lambda>t. c_lang (heap s t)) (c_translations (heap s c))"
  let ?s = "s\<lparr>heap := (heap s)(c := (heap s c)\<lparr>c_translations := ?ts\<rparr>)\<rparr>"
  have ok: "cache_ok (cwd_of env) ?s"
    using reachable_cache_ok [OF assms(1)] keeps_fields(1) [of "cwd_of env" s] by (simp add: keeps_def)
  have fold: "rfold (interlink_native (cwd_of env) (c_lang (heap s c))) ?ts ?s = Inr s'"
    using assms(2) by (simp add: interlink_translations_def Let_def)
  have r: "heap s' c = heap ?s c" "links_to (cwd_of env) ?s (c_lang (heap s c)) t s'"
    using link_rfold [OF link_step_interlink(1) ok fold] assms(4,5) by auto
  have "links_to (cwd_of env) s (c_lang (heap s c)) t s'"
  proof -
    have "t \<noteq> c" using assms(4,5) by blast
    then show ?thesis using r(2) by (simp add: links_to_def site_url_def cong: option.case_cong)
  qed
  then have "\<exists>u v rel url. site_url s (c_lang (heap s c)) = Some u \<and> site_url s (c_lang (heap s t)) = Some v
      \<and> dict_item (native_url_db s) (c_source_path (heap s t)) = Inr url
      \<and> c_override_url (heap s' t) = Some (path_join rel url)
      \<and> normpath (path_join (get_site_path u) rel) = normpath (get_site_path v)"
    by (rule links_to_leads [OF _ assms(3)]) blast
  then show ?thesis using r(1) by simp
qed

text \<open>Once the plugin is initialised there is a path between any two sites.\<close>

lemma relpath_total: "path \<noteq> [] \<Longrightarrow> \<exists>rel. relpath cwd path start = Inr rel"
  by (simp add: relpath_def Let_def)

lemma relpath_to_site_total:
  assumes "main_siteurl s \<noteq> None"
  shows "\<exists>rel db. relpath_to_site cwd l t s = Inr (rel, s\<lparr>relpath_db := db\<rparr>)"
proof (cases "dget (relpath_db s) (l, t)")
  case None
  have "site_url s x \<noteq> None" for x using assms by (simp add: site_url_def split: option.split)
  then obtain u v where "site_url s l = Some u" "site_url s t = Some v" by blast
  moreover have "get_site_path v \<noteq> []" by (simp add: get_site_path_def Let_def)
  then obtain rel where "relpath cwd (get_site_path v) (get_site_path u) = Inr rel" using relpath_total by blast
  ultimately show ?thesis using None by (simp add: relpath_to_site_def site_url_def) blast
next
  case (Some p)
  then have "relpath_to_site cwd l t s = Inr (p, s\<lparr>relpath_db := relpath_db s\<rparr>)" by (simp add: relpath_to_site_def)
  then show ?thesis by blast
qed

definition link_known :: "i18n \<Rightarrow> ref \<Rightarrow> bool" where
  "link_known s t \<longleftrightarrow> din (c_source_path (heap s t)) (native_url_db s)"

lemma interlink_native_known:
  assumes "main_siteurl s \<noteq> None"
  shows "if link_known s c then \<exists>s'. interlink_native cwd l c s = Inr s' \<and> main_siteurl s' \<noteq> None \<and> link_known s' = link_known s
    else interlink_native cwd l c s = Inl KeyError"
proof -
  obtain rel db where rel: "relpath_to_site cwd l (c_lang (heap s c)) s = Inr (rel, s\<lparr>relpath_db := db\<rparr>)"
    using relpath_to_site_total [OF assms] by blast
  show ?thesis
  proof (cases "dget (native_url_db s) (c_source_path (heap s c))")
    case None
    then have "\<not> link_known s c" by (simp add: link_known_def din_iff del: set_map)
    then show ?thesis using None rel by (simp add: interlink_native_def dict_item_def)
  next
    case (Some url)
    then have "link_known s c" by (simp add: link_known_def din_iff del: set_map)
    then show ?thesis using Some rel assms
      by (auto simp: interlink_native_def dict_item_def set_override_url_def link_known_def fun_eq_iff simp del: set_map)
  qed
qed

lemma interlink_native_rfold:
  assumes "main_siteurl s \<noteq> None"
  shows "if list_all (link_known s) ts then \<exists>s'. rfold (interlink_native cwd l) ts s = Inr s'
    else rfold (interlink_native cwd l) ts s = Inl KeyError"
  using assms
proof (induction ts arbitrary: s)
  case (Cons t ts)
  show ?case
  proof (cases "link_known s t")
    case True
    then obtain s' where s': "interlink_native cwd l t s = Inr s'" "main_siteurl s' \<noteq> None" "link_known s' = link_known s"
      using interlink_native_known [OF Cons.prems, of t cwd l] by auto
    show ?thesis using Cons.IH [OF s'(2)] s'(1,3) True by simp
  next
    case False
    then show ?thesis using interlink_native_known [OF Cons.prems, of t cwd l] by simp
  qed
qed simp

text \<open>
  C20: linking a content to its translations succeeds exactly when the native URL of each of them is
  known, and otherwise raises \<open>KeyError\<close>. The filter only records URLs in the languages of sites, so
  a translation into a language that has no site stops the build.
\<close>

theorem translations_linked_iff:
  assumes "main_siteurl s \<noteq> None"
  shows "if list_all (\<lambda>t. din (c_source_path (heap s t)) (native_url_db s)) (c_translations (heap s c))
    then \<exists>s'. interlink_translations cwd c s = Inr s' else interlink_translations cwd c s = Inl KeyError"
proof -
  let ?ts = "sort_key (\<lambda>t. c_lang (heap s t)) (c_translations (heap s c))"
  let ?s = "s\<lparr>heap := (heap s)(c := (heap s c)\<lparr>c_translations := ?ts\<rparr>)\<rparr>"
  have "list_all (link_known ?s) ?ts = list_all (\<lambda>t. din (c_source_path (heap s t)) (native_url_db s)) (c_translations (heap s c))"
    by (auto simp: link_known_def list_all_iff simp del: set_map)
  moreover have "main_siteurl ?s \<noteq> None" using assms by simp
  ultimately show ?thesis
    using interlink_native_rfold [of ?s ?ts cwd "c_lang (heap s c)"] by (simp add: interlink_translations_def Let_def)
qed

section \<open>The end of a build\<close>

text \<open>A generator is linked when its context has the main site, all sites, and all but its own.\<close>

definition linked :: "i18n \<Rightarrow> ref \<Rightarrow> bool" where
  "linked s g \<longleftrightarrow> (\<exists>current. str_item (g_settings (generators s g)) ''DEFAULT_LANG'' = Inr current
     \<and> din current (site_db s) \<and> g_extra_siteurls (generators s g) = ddel current (site_db s)
     \<and> g_lang_siteurls (generators s g) = site_db s \<and> g_main_siteurl (generators s g) = main_siteurl s
     \<and> g_main_lang (generators s g) = main_lang s)"

text \<open>The links between contents and the static files leave that part of the generators alone.\<close>

definition contexts_kept :: "i18n \<Rightarrow> i18n \<Rightarrow> bool" where
  "contexts_kept s s' \<longleftrightarrow> site_db s' = site_db s \<and> generator_db s' = generator_db s
     \<and> main_siteurl s' = main_siteurl s \<and> main_lang s' = main_lang s
     \<and> (\<forall>g. g_settings (generators s' g) = g_settings (generators s g)
          \<and> g_lang_siteurls (generators s' g) = g_lang_siteurls (generators s g)
          \<and> g_main_siteurl (generators s' g) = g_main_siteurl (generators s g)
          \<and> g_main_lang (generators s' g) = g_main_lang (generators s g)
          \<and> g_extra_siteurls (generators s' g) = g_extra_siteurls (generators s g))"

lemma contexts_kept_trans [trans]: "contexts_kept s t \<Longrightarrow> contexts_kept t u \<Longrightarrow> contexts_kept s u"
  by (simp add: contexts_kept_def)

interpretation context_keeping: step_relation contexts_kept
  by unfold_locales (simp add: contexts_kept_def, rule contexts_kept_trans)

lemma contexts_kept_linked: "contexts_kept s s' \<Longrightarrow> linked s' g = linked s g"
  by (simp add: contexts_kept_def linked_def)

lemma contexts_kept_relpath: "relpath_to_site cwd l t s = Inr (r, s') \<Longrightarrow> contexts_kept s s'"
  by (auto simp: relpath_to_site_def contexts_kept_def result_simps split: option.splits)

lemma contexts_kept_fields [simp]:
  "contexts_kept s (set_override_url c u s') = contexts_kept s s'"
  "contexts_kept s (s'\<lparr>heap := h\<rparr>) = contexts_kept s s'"
  "contexts_kept s (s'\<lparr>generators_info := i\<rparr>) = contexts_kept s s'"
  "contexts_kept s s"
  by (simp_all add: contexts_kept_def set_override_url_def)

lemma contexts_kept_interlink:
  "interlink_native cwd l c s = Inr s' \<Longrightarrow> contexts_kept s s'"
  "interlink_removed cwd l c s = Inr s' \<Longrightarrow> contexts_kept s s'"
  by (auto simp: interlink_native_def interlink_removed_def rbind_Inr_iff split_beta intro: contexts_kept_relpath)

lemma contexts_kept_interlink_translations:
  assumes "interlink_translations cwd c s = Inr s'"
  shows "contexts_kept s s'"
  using context_keeping.raising_loop [OF contexts_kept_interlink(1) assms [unfolded interlink_translations_def Let_def]]
  by (rule contexts_kept_trans [rotated]) simp_all

lemma contexts_kept_static: "contexts_kept s (fold (static_step r g) fs s)"
  by (rule context_keeping.pure_loop) (simp add: static_step_def contexts_kept_def Let_def)

lemma contexts_kept_after:
  assumes "interlink_static_files cwd g s1 = Inr s2" and "interlink_removed_content cwd g s2 = Inr s3"
    and "interlink_translated_content cwd g s3 = Inr s'"
  shows "contexts_kept s1 s'"
proof -
  have "contexts_kept s1 s2"
    using assms(1) contexts_kept_trans [OF contexts_kept_relpath contexts_kept_static]
    by (fastforce simp: interlink_static_files_def Let_def rbind_Inr_iff split: if_splits)
  also have "contexts_kept s2 s3"
    using assms(2)
    by (auto simp: interlink_removed_content_def rbind_Inr_iff intro: context_keeping.raising_loop [OF contexts_kept_interlink(2)])
  also have "contexts_kept s3 s'"
  proof -
    obtain info t where i: "inspect g s3 = (info, t)" by fastforce
    then obtain cs where "rfold (interlink_translations cwd) cs t = Inr s'"
      using assms(3) by (auto simp: interlink_translated_content_def rbind_Inr_iff)
    then have "contexts_kept t s'"
      by (rule context_keeping.raising_loop [where f = "interlink_translations cwd", rotated])
        (rule contexts_kept_interlink_translations)
    moreover have "contexts_kept s3 t" using i by (auto simp: inspect_def Let_def)
    ultimately show ?thesis by (rule contexts_kept_trans [rotated])
  qed
  finally show ?thesis .
qed

lemma update_generator_linked:
  assumes "update_generator cat cwd g s = Inr s'"
  shows "linked s' g \<and> (\<forall>g'. linked s g' \<longrightarrow> linked s' g') \<and> generator_db s' = generator_db s"
proof -
  obtain s0 s1 s2 s3 where s0: "install_templates_translations cat g s = Inr s0"
    and s: "add_variables_to_context g s0 = Inr s1" "interlink_static_files cwd g s1 = Inr s2"
      "interlink_removed_content cwd g s2 = Inr s3" "interlink_translated_content cwd g s3 = Inr s'"
    using assms by (auto simp: update_generator_def rbind_Inr_iff)
  have install: "contexts_kept s s0"
    using s0 by (auto simp: install_templates_translations_def contexts_kept_def rbind_Inr_iff split: option.splits)
  have kept: "contexts_kept s1 s'" by (rule contexts_kept_after [OF s(2-4)])
  have "linked s1 g \<and> (\<forall>g'. linked s0 g' \<longrightarrow> linked s1 g') \<and> generator_db s1 = generator_db s0"
    using s(1) by (auto simp: add_variables_to_context_def rbind_Inr_iff linked_def result_simps din_iff simp del: set_map)
  then show ?thesis using contexts_kept_linked [OF install] contexts_kept_linked [OF kept] install kept by (simp add: contexts_kept_def)
qed

lemma update_generators_linked:
  assumes "rfold (update_generator cat cwd) gs s = Inr s'"
  shows "(\<forall>g \<in> set gs. linked s' g) \<and> (\<forall>g. linked s g \<longrightarrow> linked s' g) \<and> generator_db s' = generator_db s"
  using assms
proof (induction gs arbitrary: s)
  case (Cons g gs)
  then obtain s1 where s1: "update_generator cat cwd g s = Inr s1" "rfold (update_generator cat cwd) gs s1 = Inr s'"
    by (auto simp: rbind_Inr_iff)
  show ?case using Cons.IH [OF s1(2)] update_generator_linked [OF s1(1)] by simp
qed simp

text \<open>
  C16: a build that meets no exception comes to its end: no subsite is left to build, the generators
  of all sites have the URLs of the other sites, the locale is the one before, and the plugin is
  ready to be initialised by the next build, with whatever settings it has.
\<close>

theorem build_ends_ready:
  assumes "build env settings s = Inr s'"
  shows "subsite_queue s' = [] \<and> (\<forall>g \<in> set (dkeys (generator_db s')). linked s' g)
    \<and> cur_locale s' = cur_locale s
    \<and> initialize_plugin (cwd_of env) later s'
        = rbind (initialize_dbs (cwd_of env) later s') (subscribe_filter_to_signals later)"
proof -
  obtain s1 s2 where b: "initialize_plugin (cwd_of env) settings s = Inr s1"
      "rfold handle (site env settings) s1 = Inr s2" "create_next_subsite env s2 = Inr s'"
    using assms by (auto simp: build_def rbind_Inr_iff)
  obtain s3 s4 where c: "rfold (subsite_step env) (rev (subsite_queue s2)) s2 = Inr s3"
      "update_generators (has_catalog env) (cwd_of env) s3 = Inr s4" "s' = s4\<lparr>main_settings := None, cur_locale := cur_locale s2\<rparr>"
    using b(3) by (auto simp: create_next_subsite_loop rbind_Inr_iff)
  have "cur_locale s1 = cur_locale s" by (rule initialize_locale [OF b(1)])
  then have "cur_locale s' = cur_locale s" using keeps_signals [OF b(2)] c(3) by (simp add: keeps_def)
  moreover have "subsite_queue s' = []"
    using subsite_loop_queue [OF c(1)] keeps_update_generators [OF c(2)] c(3) by (simp add: keeps_def)
  moreover have "\<forall>g \<in> set (dkeys (generator_db s4)). linked s4 g"
    using update_generators_linked [of "has_catalog env" "cwd_of env" _ s3 s4] c(2) by (simp add: update_generators_def)
  ultimately show ?thesis using c(3) by (simp add: linked_def initialize_plugin_def del: set_map)
qed

text \<open>
  C38: the cache is cleared only after the subsites are prepared: when the plugin is initialised
  again, a path left from the build before decides where the subsite looks for the main site's
  theme, whatever the URLs are now.
\<close>

theorem initialize_uses_stale_path:
  assumes "main_settings s = None" and "dget (relpath_db s) (lang, mlang) = Some stale"
    and "str_item sts ''DEFAULT_LANG'' = Inr mlang" and "str_item sts ''SITEURL'' = Inr siteurl"
    and "dget sts ''I18N_SUBSITES'' = Some (Sub [(lang, overrides)])" and "dget sts ''I18N_FILTER_SIGNALS'' = None"
    and "str_item overrides ''SITEURL'' = Inr url"
    and "str_item sts ''OUTPUT_PATH'' = Inr out" and "str_item sts ''CACHE_PATH'' = Inr cache"
    and "str_item sts ''THEME_STATIC_DIR'' = Inr theme_dir"
    and "\<forall>k \<in> {''THEME'', ''THEME_STATIC_DIR'', ''THEME_STATIC_PATHS''}. \<not> din k overrides"
  shows "\<exists>s' overrides'. initialize_plugin cwd sts s = Inr s'
    \<and> dget (subsite_queue s') lang = Some overrides'
    \<and> dget overrides' ''THEME_STATIC_DIR'' = Some (Str (path_join stale theme_dir))
    \<and> dget overrides' ''DEFAULT_LANG'' = Some (Str lang)
    \<and> dget (site_db s') lang = Some url"
proof -
  have url: "din ''SITEURL'' overrides"
    using assms(7) by (auto simp: str_item_def din_iff result_simps simp del: set_map)
  have sd: "\<exists>o'. set_default k (Inr v) o1 = Inr o' \<and> (\<forall>k'. k' \<noteq> k \<longrightarrow> dget o' k' = dget o1 k')" for k v o1
    by (auto simp: set_default_def pyd.get_put)
  obtain o1 where o1: "set_default ''OUTPUT_PATH'' (Inr (Str (path_join out lang))) overrides = Inr o1"
      "\<forall>k'. k' \<noteq> ''OUTPUT_PATH'' \<longrightarrow> dget o1 k' = dget overrides k'" using sd by blast
  obtain o2 where o2: "set_default ''CACHE_PATH'' (Inr (Str (path_join cache lang))) o1 = Inr o2"
      "\<forall>k'. k' \<noteq> ''CACHE_PATH'' \<longrightarrow> dget o2 k' = dget o1 k'" using sd by blast
  obtain o3 where o3: "set_default ''STATIC_PATHS'' (Inr (Strs [])) o2 = Inr o3"
      "\<forall>k'. k' \<noteq> ''STATIC_PATHS'' \<longrightarrow> dget o3 k' = dget o2 k'" using sd by blast
  have no: "\<not> din k o3" if "k \<in> {''THEME'', ''THEME_STATIC_DIR'', ''THEME_STATIC_PATHS''}" for k
    using that assms(11) o1(2) o2(2) o3(2) by (auto simp: din_iff simp del: set_map)
  have def0: "set_default ''SITEURL'' v overrides = Inr overrides" for v
    using url by (simp add: set_default_def)
  show ?thesis
    using assms(1-10) no
    by (simp add: initialize_plugin_def subscribe_filter_to_signals_def initialize_dbs_def prepare_site_db_and_overrides_def
        prepare_subsite_def def0 o1(1) o2(1) o3(1) relpath_to_site_def pyd.get_put Let_def del: set_map)
qed

end
