(* ===== verification/I18nSample.thy ===== *)
theory I18nSample
  imports I18nFilter I18nBuild
begin

text \<open>
  A website with an English main site and a German subsite, on which the theorems of \<open>I18nFilter\<close>
  and \<open>I18nBuild\<close> are applied: an article in both languages and one in German only.
\<close>

definition sample_settings :: settings where
  "sample_settings = [(''DEFAULT_LANG'', Str ''en''), (''SITEURL'', Str ''''), (''OUTPUT_PATH'', Str ''out''),
     (''CACHE_PATH'', Str ''cache''), (''THEME_STATIC_DIR'', Str ''theme''), (''STATIC_PATHS'', Strs []),
     (''JINJA_ENVIRONMENT'', Dict []), (''PELICAN_CLASS'', Str ''pelican.Pelican''),
     (''I18N_SUBSITES'', Sub [(''de'', [])])]"

definition sample_content :: "string \<Rightarrow> string \<Rightarrow> string \<Rightarrow> ref list \<Rightarrow> content" where
  "sample_content lang path url ts = \<lparr>c_lang = lang, c_source_path = path, c_url = url, c_draft_url = ''drafts/'' @ url,
     c_status = ''published'', c_translations = ts, c_override_url = None\<rparr>"

definition sample_generator :: "settings \<Rightarrow> generator" where
  "sample_generator sts = \<lparr>g_settings = sts, g_mro = [''ArticlesGenerator''], g_custom_info = [], g_lists = [],
     g_context = (if dget sts ''DEFAULT_LANG'' = Some (Str ''en'') then 0 else 1), g_added_static = [], g_main_siteurl = None, g_main_lang = None, g_lang_siteurls = [], g_extra_siteurls = [], g_theme = ''theme'', g_translations = None\<rparr>"

definition sample_start :: i18n where
  "sample_start = \<lparr>main_settings = None, main_lang = None, main_siteurl = None, main_static_files = None,
     subsite_queue = [], site_db = [], relpath_db = [], generator_db = [], native_url_db = [],
     generators_info = default_generators_info, generators = (\<lambda>_. sample_generator []), static_contents = (\<lambda>_. []),
     heap = (\<lambda>_. sample_content '''' '''' '''' []), next_ref = 0, cur_locale = ''C'', filter_signals = []\<rparr>"

definition sample_signals :: "settings \<Rightarrow> signal list" where
  "sample_signals sts = (if dget sts ''DEFAULT_LANG'' = Some (Str ''en'')
     then [Generator_init 0 (sample_generator sts),
        Content_loaded 0 (sample_content ''en'' ''a.en'' ''a.html'' [1]), Content_loaded 1 (sample_content ''de'' ''a.de'' ''a.html'' [0]),
        Content_loaded 2 (sample_content ''de'' ''b.de'' ''b.html'' []),
        Generator_signal ''article_generator_pretaxonomy'' 0 [(''translations'', [1]), (''drafts_translations'', []), (''articles'', [0, 2]), (''drafts'', [])],
        Static_generator_finalized sts []]
     else [Generator_init 1 (sample_generator sts),
        Content_loaded 10 (sample_content ''de'' ''a.de'' ''a.html'' [11]), Content_loaded 11 (sample_content ''en'' ''a.en'' ''a.html'' [10]),
        Content_loaded 12 (sample_content ''de'' ''b.de'' ''b.html'' []),
        Generator_signal ''article_generator_pretaxonomy'' 1 [(''translations'', [11]), (''drafts_translations'', []), (''articles'', [10, 12]), (''drafts'', [])]])"

definition sample_env :: environment where
  "sample_env = \<lparr>site = sample_signals, configure = (\<lambda>sts. sts),
     set_locale = (\<lambda>sts. if dget sts ''DEFAULT_LANG'' = Some (Str ''de'') then ''de_DE'' else ''C''), cwd_of = ''/srv'',
     has_catalog = (\<lambda>domain dir lang. False), importable_module = (\<lambda>m. m = ''pelican''),
     package_attr = (\<lambda>m c. if c = ''Pelican'' then Some (Obj ''Pelican'') else None)\<rparr>"

lemmas sample_eval = sample_settings_def sample_content_def sample_generator_def sample_start_def sample_signals_def sample_env_def

text \<open>The paths between the two sites.\<close>

lemma sample_paths: "get_site_path '''' = ''/''" "get_site_path ''/de'' = ''/de''"
  "relpath ''/srv'' ''/'' ''/de'' = Inr ''..''" "relpath ''/srv'' ''/de'' ''/'' = Inr ''de''" "relpath ''/srv'' ''/'' ''/'' = Inr ''.''"
  by (simp_all add: path_eval)

lemmas init_eval = initialize_plugin_def subscribe_filter_to_signals_def initialize_dbs_def prepare_site_db_and_overrides_def prepare_subsite_def
   str_item_def set_default_def relpath_to_site_def sample_paths path_join_def

lemmas filter_eval = filter_contents_translations_def handle_def signal_handlers_def inspect_def default_generators_info_def save_generator_def
  untranslated_policy_def filter_translations_def get_list_def dict_item_def translation_step_def put_list_def put_removed_def
  filter_contents_def content_step_def save_native_if_def save_native_def hide_def article2draft_def new_content_def Let_def
  save_main_static_files_def

lemmas link_eval = install_templates_translations_def template_translations_def jinja_extensions_def setting_has_def get_pelican_cls_def until_def update_generators_def update_generator_def add_variables_to_context_def interlink_static_files_def
  interlink_removed_content_def interlink_removed_def interlink_translated_content_def all_contents_def interlink_translations_def
  interlink_native_def static_step_def set_override_url_def subsite_step_def

section \<open>Applications\<close>

text \<open>The state after the initialisation, and the settings of the two sites.\<close>

definition sample_overrides :: settings where
  "sample_overrides = [(''SITEURL'', Str ''/de''), (''OUTPUT_PATH'', Str ''out/de''), (''CACHE_PATH'', Str ''cache/de''),
     (''STATIC_PATHS'', Strs []), (''THEME_STATIC_DIR'', Str ''../theme''), (''THEME_STATIC_PATHS'', Strs []),
     (''DEFAULT_LANG'', Str ''de'')]"

definition sample_main :: settings where
  "sample_main = dput ''I18N_SUBSITES'' (Sub [(''de'', sample_overrides)]) sample_settings"

definition sample_de :: settings where
  "sample_de = fold (\<lambda>(k, v). dput k v) sample_overrides sample_main"

lemma sample_init: "initialize_plugin ''/srv'' sample_settings sample_start = Inr (sample_start\<lparr>main_settings := Some sample_main,
    main_lang := Some ''en'', main_siteurl := Some '''', subsite_queue := [(''de'', sample_overrides)],
    site_db := [(''en'', ''''), (''de'', ''/de'')]\<rparr>)"
  by (simp add: sample_main_def sample_overrides_def sample_eval init_eval)

lemma sample_lookups:
  "dget sample_settings ''DEFAULT_LANG'' = Some (Str ''en'')" "dget sample_settings ''STATIC_PATHS'' = Some (Strs [])"
  "dget sample_settings ''I18N_UNTRANSLATED_ARTICLES'' = None"
  "dget sample_de ''DEFAULT_LANG'' = Some (Str ''de'')" "dget sample_de ''STATIC_PATHS'' = Some (Strs [])"
  "dget sample_de ''I18N_UNTRANSLATED_ARTICLES'' = None"
  "dget sample_settings ''JINJA_ENVIRONMENT'' = Some (Dict [])" "dget sample_de ''JINJA_ENVIRONMENT'' = Some (Dict [])"
  "dget sample_de ''PELICAN_CLASS'' = Some (Str ''pelican.Pelican'')"
  "fold (\<lambda>(k, v). dput k v) sample_overrides sample_main = sample_de"
  by (simp_all add: sample_de_def sample_main_def sample_overrides_def sample_settings_def)

lemmas state_eval = sample_lookups sample_content_def sample_generator_def sample_start_def sample_signals_def
  str_item_def relpath_to_site_def sample_paths path_join_def

text \<open>A build in which each site has a generator without lists.\<close>

definition small_env :: environment where
  "small_env = sample_env\<lparr>site := (\<lambda>sts. if dget sts ''DEFAULT_LANG'' = Some (Str ''en'')
     then [Generator_init 0 ((sample_generator sts)\<lparr>g_mro := []\<rparr>), Static_generator_finalized sts []]
     else [Generator_init 1 ((sample_generator sts)\<lparr>g_mro := []\<rparr>)])\<rparr>"

lemma small_cwd: "cwd_of small_env = ''/srv''" "cwd_of sample_env = ''/srv''"
  by (simp_all add: small_env_def sample_env_def)

lemma small_build: "\<exists>s'. build small_env sample_settings sample_start = Inr s' \<and> dkeys (generator_db s') = [0, 1]"
  unfolding build_def create_next_subsite_loop small_cwd sample_init rbind_simps
  by (simp add: small_env_def sample_env_def state_eval filter_eval link_eval no_info_def cong: option.case_cong)

theorem build_ends_ready_witness:
  "\<exists>s'. build small_env sample_settings sample_start = Inr s' \<and> subsite_queue s' = []
    \<and> linked s' 0 \<and> linked s' 1 \<and> cur_locale s' = ''C''
    \<and> initialize_plugin ''/srv'' sample_settings s'
        = rbind (initialize_dbs ''/srv'' sample_settings s') (subscribe_filter_to_signals sample_settings)"
proof -
  obtain s' where s': "build small_env sample_settings sample_start = Inr s'" "dkeys (generator_db s') = [0, 1]"
    using small_build by (elim exE conjE) (rule that)
  have c: "cur_locale sample_start = ''C''" by (simp add: sample_start_def)
  note ready = build_ends_ready [OF s'(1), of sample_settings, unfolded c small_cwd]
  have "linked s' 0" "linked s' 1" using ready s'(2) by simp_all
  with s'(1) ready show ?thesis by (intro exI [where x = s']) simp
qed

text \<open>The state in which the contents of both sites are filtered.\<close>

lemma reachable_signals: "reachable env s \<Longrightarrow> rfold handle sigs s = Inr s' \<Longrightarrow> reachable env s'"
  by (erule rfold_invariant [where P = "reachable env", rotated]) (auto intro: reachable.signalled)

lemma sample_filtered: "\<exists>s. rfold handle (sample_signals sample_settings @ sample_signals sample_de)
    (sample_start\<lparr>main_settings := Some sample_main,
      main_lang := Some ''en'', main_siteurl := Some '''', subsite_queue := [(''de'', sample_overrides)],
      site_db := [(''en'', ''''), (''de'', ''/de'')]\<rparr>) = Inr s
    \<and> str_item (g_settings (generators s 0)) ''DEFAULT_LANG'' = Inr ''en''
    \<and> dict_item (generator_db s) 0 = Inr [1]
    \<and> site_db s = [(''en'', ''''), (''de'', ''/de'')] \<and> main_siteurl s = Some ''''
    \<and> c_translations (heap s 0) = [1] \<and> c_lang (heap s 0) = ''en'' \<and> c_lang (heap s 1) = ''de''
    \<and> (\<exists>s'. interlink_removed_content ''/srv'' 0 s = Inr s') \<and> (\<exists>s'. interlink_translations ''/srv'' 0 s = Inr s')"
  by (simp add: state_eval filter_eval link_eval cong: option.case_cong)

lemma sample_reachable: "\<exists>s. reachable sample_env s
    \<and> str_item (g_settings (generators s 0)) ''DEFAULT_LANG'' = Inr ''en''
    \<and> dict_item (generator_db s) 0 = Inr [1]
    \<and> (\<forall>l v. site_url s l = Some v \<longrightarrow> rooted (get_site_path v))
    \<and> c_translations (heap s 0) = [1] \<and> c_lang (heap s 0) = ''en'' \<and> c_lang (heap s 1) = ''de''
    \<and> (\<exists>s'. interlink_removed_content ''/srv'' 0 s = Inr s') \<and> (\<exists>s'. interlink_translations ''/srv'' 0 s = Inr s')"
proof -
  have start: "main_settings sample_start = None" by (simp add: sample_start_def)
  have urls: "\<forall>l v. site_url s l = Some v \<longrightarrow> rooted (get_site_path v)"
    if "site_db s = [(''en'', ''''), (''de'', ''/de'')]" "main_siteurl s = Some ''''" for s
    using that by (auto simp: site_url_def rooted_def sample_paths split: if_splits)
  from sample_filtered show ?thesis
    by (elim exE conjE) (rule exI, intro conjI, rule reachable_signals [OF reachable.initialised [OF start]],
      (rule sample_init [folded small_cwd(2)], assumption | rule urls | assumption | blast)+)
qed

theorem removed_content_links_witness:
  "\<exists>s s' u v rel url. interlink_removed_content ''/srv'' 0 s = Inr s'
    \<and> site_url s ''en'' = Some u \<and> site_url s ''de'' = Some v \<and> c_override_url (heap s' 1) = Some (path_join rel url)
    \<and> normpath (path_join (get_site_path u) rel) = normpath (get_site_path v)"
proof -
  obtain s s' where s: "reachable sample_env s" "str_item (g_settings (generators s 0)) ''DEFAULT_LANG'' = Inr ''en''"
      "dict_item (generator_db s) 0 = Inr [1]" "\<forall>l v. site_url s l = Some v \<longrightarrow> rooted (get_site_path v)"
      "c_lang (heap s 1) = ''de''" "interlink_removed_content ''/srv'' 0 s = Inr s'"
    using sample_reachable by (elim exE conjE) (rule that)
  have "(1 :: nat) \<in> set [1]" by simp
  from removed_content_links [OF s(1-3) s(6) [folded small_cwd(2)] s(4) this] s(5,6) show ?thesis by metis
qed

theorem translation_links_witness:
  "\<exists>s s' u v rel url. interlink_translations ''/srv'' 0 s = Inr s' \<and> c_translations (heap s' 0) = [1]
    \<and> site_url s ''en'' = Some u \<and> site_url s ''de'' = Some v \<and> c_override_url (heap s' 1) = Some (path_join rel url)
    \<and> normpath (path_join (get_site_path u) rel) = normpath (get_site_path v)"
proof -
  obtain s s' where s: "reachable sample_env s" "\<forall>l v. site_url s l = Some v \<longrightarrow> rooted (get_site_path v)"
      "c_translations (heap s 0) = [1]" "c_lang (heap s 0) = ''en''" "c_lang (heap s 1) = ''de''"
      "interlink_translations ''/srv'' 0 s = Inr s'"
    using sample_reachable by (elim exE conjE) (rule that)
  have t: "0 \<notin> set (c_translations (heap s 0))" "1 \<in> set (c_translations (heap s 0))" by (simp_all add: s(3))
  have "sort_key (\<lambda>t. c_lang (heap s t)) (c_translations (heap s 0)) = [1]" by (simp add: s(3))
  with translation_links [OF s(1) s(6) [folded small_cwd(2)] s(2) t] s(4-6) show ?thesis by metis
qed

theorem initialize_uses_stale_path_witness:
  "\<exists>s' overrides'. initialize_plugin ''/srv'' (dput ''I18N_SUBSITES'' (Sub [(''de'', [(''SITEURL'', Str ''/de'')])]) sample_settings)
      (sample_start\<lparr>relpath_db := [((''de'', ''en''), ''../old'')]\<rparr>) = Inr s'
    \<and> dget (subsite_queue s') ''de'' = Some overrides'
    \<and> dget overrides' ''THEME_STATIC_DIR'' = Some (Str ''../old/theme'')"
proof -
  have j: "path_join ''../old'' ''theme'' = ''../old/theme''" by (simp add: path_join_def path_joins_def)
  show ?thesis
    using initialize_uses_stale_path [of "sample_start\<lparr>relpath_db := [((''de'', ''en''), ''../old'')]\<rparr>" "''de''" "''en''" "''../old''"
        "dput ''I18N_SUBSITES'' (Sub [(''de'', [(''SITEURL'', Str ''/de'')])]) sample_settings" "''''"
        "[(''SITEURL'', Str ''/de'')]" "''/de''" "''out''" "''cache''" "''theme''" "''/srv''"]
    by (simp add: str_item_def sample_settings_def sample_start_def j del: ex_simps) blast
qed

theorem filter_contents_lists_witness:
  "\<exists>hs s'. filter_contents ''en'' (Str ''hide'') Article2Draft 0 (''articles'', ''drafts'')
      (sample_start\<lparr>site_db := [(''en'', ''''), (''de'', ''/de'')], generator_db := [(0, [])], next_ref := 2,
        generators := (\<lambda>_. (sample_generator [])\<lparr>g_lists := [(''articles'', [0, 1]), (''drafts'', [])]\<rparr>),
        heap := (\<lambda>n. if n = 0 then sample_content ''en'' ''a.en'' ''a.html'' [] else sample_content ''de'' ''b.de'' ''b.html'' [])\<rparr>)
      = Inr s'
    \<and> get_list 0 ''articles'' s' = Inr [0] \<and> get_list 0 ''drafts'' s' = Inr hs \<and> length hs = 1
    \<and> c_status (heap s' (hd hs)) = ''draft'' \<and> native_url_db s' = [(''a.en'', ''a.html'')]"
proof -
  let ?s = "sample_start\<lparr>site_db := [(''en'', ''''), (''de'', ''/de'')], generator_db := [(0, [])], next_ref := 2,
        generators := (\<lambda>_. (sample_generator [])\<lparr>g_lists := [(''articles'', [0, 1]), (''drafts'', [])]\<rparr>),
        heap := (\<lambda>n. if n = 0 then sample_content ''en'' ''a.en'' ''a.html'' [] else sample_content ''de'' ''b.de'' ''b.html'' [])\<rparr>"
  have m: "moves ''en'' (Str ''hide'') ?s = (\<lambda>c. c \<noteq> 0)"
    by (auto simp: fun_eq_iff moves_def has_site_def sample_content_def)
  have r: "record_native ''en'' ?s [0, 1] (native_url_db ?s) = [(''a.en'', ''a.html'')]"
    by (simp add: sample_content_def sample_start_def)
  have g: "get_list 0 ''articles'' ?s = Inr [0, 1]" "get_list 0 ''drafts'' ?s = Inr []" "dict_item (generator_db ?s) 0 = Inr []"
    by (simp_all add: get_list_def sample_start_def dict_item_def)
  obtain hs s' where f: "filter_contents ''en'' (Str ''hide'') Article2Draft 0 (''articles'', ''drafts'') ?s = Inr s'"
      "get_list 0 ''articles'' s' = Inr [0]" "get_list 0 ''drafts'' s' = Inr hs"
      "list_all2 (\<lambda>c c'. heap s' c' = hidden_version Article2Draft (heap ?s c)) [1] hs"
      "native_url_db s' = [(''a.en'', ''a.html'')]"
    using filter_contents_lists [OF g, of "''en''" "Str ''hide''" Article2Draft] r unfolding m by auto
  obtain h where "hs = [h]" "heap s' h = hidden_version Article2Draft (heap ?s 1)"
    using f(4) by (auto simp: list_all2_Cons1)
  then show ?thesis using f by (intro exI [where x = "[h]"] exI [where x = s']) simp
qed

text \<open>An article with a translation into a language without a site.\<close>

theorem translations_linked_iff_witness:
  "interlink_translations ''/srv'' 0 (sample_start\<lparr>main_siteurl := Some '''',
      heap := (\<lambda>n. if n = 0 then sample_content ''en'' ''a.en'' ''a.html'' [1] else sample_content ''fr'' ''a.fr'' ''a.html'' [0]),
      native_url_db := [(''a.en'', ''a.html'')]\<rparr>) = Inl KeyError"
  using translations_linked_iff [of "sample_start\<lparr>main_siteurl := Some '''',
      heap := (\<lambda>n. if n = 0 then sample_content ''en'' ''a.en'' ''a.html'' [1] else sample_content ''fr'' ''a.fr'' ''a.html'' [0]),
      native_url_db := [(''a.en'', ''a.html'')]\<rparr>" 0 "''/srv''"]
  by (simp add: sample_content_def)

end
