(* ===== verification/UmbrellaHosts.thy ===== *)
theory UmbrellaHosts
  imports IPAddress Samples
begin

text \<open>
  \<open>umbrella-hosts\<close>, the command line tool for the addresses of the installation: the usage of the
  address space by the units of \<open>organization.xml\<close>, a free address for a unit, or a check that an
  address is free and belongs to a unit. The two documents and the lines of the directory's answer
  are arguments; a run gives what is printed, what is printed to the error stream and the exit
  status, or the exception. Addresses are IPv4.
\<close>

section \<open>Model\<close>

subsection \<open>The addresses in use\<close>

text \<open>XPath's \<open>substring-after(s, p)\<close>.\<close>

fun substring_after :: "string \<Rightarrow> string \<Rightarrow> string" where
  "substring_after p s = (if prefix p s then drop (length p) s
     else (case s of [] \<Rightarrow> [] | _ # cs \<Rightarrow> substring_after p cs))"

declare substring_after.simps [simp del]

definition address_elements :: "elem \<Rightarrow> elem list" where
  "address_elements umbrella =
    concat (map (\<lambda>server. concat (map (\<lambda>c. if substring_after ''if'' (etag c) = [] then findall c ''ip'' else [])
        (echildren server)))
      (concat (map (\<lambda>e. findall e ''server'') (iter_elem umbrella ''Properties''))))"

definition load_all_IPs :: "elem \<Rightarrow> string list \<Rightarrow> ipv4 list result" where
  "load_all_IPs umbrella ldap =
    rbind (rmap (\<lambda>ip. ip_address_opt (etext ip)) (address_elements umbrella)) (\<lambda>servers.
    rbind (rmap ip_address ldap) (\<lambda>hosts. Inr (remdups (servers @ hosts))))"

definition count_free_IPs :: "ipv4 list \<Rightarrow> ipnet \<Rightarrow> nat" where
  "count_free_IPs used network = fold (\<lambda>a cnt. if in_net a network then cnt + 1 else cnt) used 0"

fun free_loop :: "ipv4 list \<Rightarrow> nat \<Rightarrow> ipv4 list \<Rightarrow> ipv4 list \<Rightarrow> ipv4 list" where
  "free_loop used cnt [] free = free"
| "free_loop used cnt (a # as) free =
    (let free = (if a \<notin> set used then free @ [a] else free)
     in if cnt \<le> length free then free else free_loop used cnt as free)"

definition get_free_IPs :: "ipv4 list \<Rightarrow> ipnet \<Rightarrow> nat \<Rightarrow> ipv4 list" where
  "get_free_IPs used network cnt = free_loop used cnt (net_list network) []"

subsection \<open>The units\<close>

definition get_curr_network :: "elem \<Rightarrow> elem option" where
  "get_curr_network e = (case find_elem e ''network_match'' of
      None \<Rightarrow> find_elem e ''network''
    | Some n \<Rightarrow> if filled (etext n) = None then None else Some n)"

text \<open>
  \<open>'%.2f' % (count*100/total)\<close>. The number of addresses of a network is a power of two, so the
  quotient is a floating point number without error, and printing rounds it half to even.
\<close>

definition round_half_even :: "nat \<Rightarrow> nat \<Rightarrow> nat" where
  "round_half_even n d = (let q = n div d; r = n mod d in
     if 2 * r < d then q else if d < 2 * r then q + 1 else if even q then q else q + 1)"

definition two_digits :: "nat \<Rightarrow> string" where
  "two_digits n = string_of_nat (n div 10) @ string_of_nat (n mod 10)"

definition percent :: "nat \<Rightarrow> nat \<Rightarrow> string" where
  "percent count whole = (let h = round_half_even (count * 10000) whole
     in string_of_nat (h div 100) @ ''.'' @ two_digits (h mod 100))"

abbreviation nl :: string where "nl \<equiv> [CHR 0x0A]"

definition print_network :: "ipv4 list \<Rightarrow> elem \<Rightarrow> string result" where
  "print_network used n =
    rbind (ip_network_opt (etext n)) (\<lambda>network.
    let count = count_free_IPs used network; whole = num_addresses network; free = get_free_IPs used network 2
    in Inr ('' ['' @ string_of_nat count @ ''/'' @ string_of_nat whole @ '','' @ percent count whole @ ''%''
        @ concat (map (\<lambda>a. '', '' @ str_ip a) free)
        @ (if free = [] then ''NETWORK IS FULL ! No free addresses remain.'' @ nl else [])))"

definition print_unit :: "ipv4 list \<Rightarrow> elem \<Rightarrow> nat \<Rightarrow> string result" where
  "print_unit used e level = (case find_elem e ''name'' of
      None \<Rightarrow> Inr []
    | Some name \<Rightarrow>
        rbind (need AttributeError (etext name)) (\<lambda>name.
        rbind (case get_curr_network e of None \<Rightarrow> Inr [] | Some n \<Rightarrow> print_network used n) (\<lambda>network.
        Inr (py_ljust (level * 2) [] @ '' '' @ py_ljust 20 name @ network @ nl))))"

function print_tree :: "ipv4 list \<Rightarrow> elem \<Rightarrow> nat \<Rightarrow> string result" where
  "print_tree used e level =
    rbind (print_unit used e level) (\<lambda>line.
    rbind (rmap (\<lambda>node. print_tree used node (level + 1)) (findall e ''ou'')) (\<lambda>lines.
    Inr (line @ concat lines)))"
  by pat_completeness auto
termination
  by (relation "measure (\<lambda>(_, e, _). size e)") (auto dest: findall_size)

declare print_tree.simps [simp del]

subsection \<open>Paths of units\<close>

text \<open>A unit with a child element that is its name.\<close>

definition named :: "string \<Rightarrow> elem \<Rightarrow> bool" where
  "named x e \<longleftrightarrow> (\<exists>n \<in> set (findall e ''name''). (case etext n of None \<Rightarrow> [] | Some t \<Rightarrow> t) = x)"

fun below :: "string list \<Rightarrow> elem list \<Rightarrow> elem list" where
  "below [] es = es"
| "below (x # xs) es = below xs (filter (named x) (concat (map (\<lambda>e. findall e ''ou'') es)))"

text \<open>The query \<open>//ou[name="A"]/ou[name="B"]...\<close>, whose first step looks in the whole document.\<close>

definition units_at :: "elem \<Rightarrow> string list \<Rightarrow> elem list" where
  "units_at org p = (case p of [] \<Rightarrow> [] | x # xs \<Rightarrow> below xs (filter (named x) (iter_elem org ''ou'')))"

definition path_query :: "string list \<Rightarrow> string" where
  "path_query p = ''/'' @ concat (map (\<lambda>ou. ''/ou[name='' @ [CHR 0x22] @ ou @ [CHR 0x22] @ '']'') p)"

text \<open>
  A quotation mark in the path changes the query; \<open>xpath\<close> is the library's answer to such a query.
\<close>

definition get_network_by_path :: "(string \<Rightarrow> elem list result) \<Rightarrow> elem \<Rightarrow> string \<Rightarrow> elem option result" where
  "get_network_by_path xpath org path =
    (let p = py_split CHR ''/'' path;
         p = (if hd p = [] then tl p else p)
     in rbind (if \<exists>ou \<in> set p. CHR 0x22 \<in> set ou then xpath (path_query p) else Inr (units_at org p)) (\<lambda>es.
        Inr (case es of [e] \<Rightarrow> get_curr_network e | _ \<Rightarrow> None)))"

subsection \<open>The command\<close>

record outcome =
  stdout :: string
  stderr :: string
  status :: nat

definition help_text :: string where
  "help_text = concat (map (\<lambda>l. l @ nl)
    ['''', ''An utility to review/assign/check free IP addresses in this Umbrella Linux'', ''installation.'', '''',
     ''Usage:'', ''    umbrella-hosts     # prints the IP address allocations for all the '',
     ''                       # Organizatonal Units (OUs)'',
     ''    umbrella-hosts '/OU1/OU2/OU3'  # prints a single free IP address in an'',
     ''                                   # Organizational Unit, specified by path'',
     ''                                   # in the OU tree'',
     ''    umbrella-hosts '/OU1/OU2' 111.222.333.444  # checks that the specified IP'',
     ''                                               # address is free and indeed '',
     ''                                               # belongs to the specified OU'',
     ''                                               # Exits with status 0 if it is.''])"

definition offer_address :: "ipv4 list \<Rightarrow> ipnet \<Rightarrow> outcome" where
  "offer_address used network = (case get_free_IPs used network 1 of
      [] \<Rightarrow> \<lparr>stdout = [], stderr = ''There are no free IP addresses in the specified organizational unit.'' @ nl, status = 10\<rparr>
    | a # _ \<Rightarrow> \<lparr>stdout = str_ip a @ nl, stderr = [], status = 0\<rparr>)"

definition check_address :: "ipv4 list \<Rightarrow> ipnet \<Rightarrow> string \<Rightarrow> ipv4 \<Rightarrow> outcome" where
  "check_address used network path a =
    (if \<not> in_net a network then
       \<lparr>stdout = [], stderr = ''The address '' @ str_ip a @ '' does not belong to '' @ str_net network
          @ '', corresponding to '' @ [CHR 0x27] @ path @ [CHR 0x27] @ ''.'' @ nl, status = 1\<rparr>
     else if a \<in> set used then
       \<lparr>stdout = [], stderr = ''The address '' @ str_ip a @ '' is taken.'' @ nl, status = 2\<rparr>
     else \<lparr>stdout = [], stderr = [], status = 0\<rparr>)"

definition no_network :: outcome where
  "no_network = \<lparr>stdout = [], stderr = ''Can't determine the network for the specified ''
     @ ''organization path, check it against your organization.xml.'' @ nl, status = 9\<rparr>"

definition unit_command :: "(string \<Rightarrow> elem list result) \<Rightarrow> elem \<Rightarrow> elem \<Rightarrow> string list \<Rightarrow> string
    \<Rightarrow> string option \<Rightarrow> outcome result" where
  "unit_command xpath org umbrella ldap path addr =
    rbind (get_network_by_path xpath org path) (\<lambda>elem. case elem of
      None \<Rightarrow> Inr no_network
    | Some elem \<Rightarrow>
        rbind (ip_network_opt (etext elem)) (\<lambda>network.
        rbind (load_all_IPs umbrella ldap) (\<lambda>used.
        case addr of None \<Rightarrow> Inr (offer_address used network)
        | Some a \<Rightarrow> rbind (ip_address a) (\<lambda>a. Inr (check_address used network path a)))))"

definition umbrella_hosts :: "(string \<Rightarrow> elem list result) \<Rightarrow> elem \<Rightarrow> elem \<Rightarrow> string list \<Rightarrow> string list \<Rightarrow> outcome result" where
  "umbrella_hosts xpath org umbrella ldap args = (case args of
      [] \<Rightarrow> rbind (load_all_IPs umbrella ldap) (\<lambda>used.
             rbind (print_tree used org 0) (\<lambda>s. Inr \<lparr>stdout = s, stderr = [], status = 0\<rparr>))
    | [path] \<Rightarrow> if path \<noteq> ''--help'' then unit_command xpath org umbrella ldap path None
                else Inr \<lparr>stdout = help_text @ nl, stderr = [], status = 0\<rparr>
    | [path, a] \<Rightarrow> unit_command xpath org umbrella ldap path (Some a)
    | _ \<Rightarrow> Inr \<lparr>stdout = help_text @ nl, stderr = [], status = 0\<rparr>)"

section \<open>Free addresses\<close>

text \<open>The loop with its early exit gives the first free addresses, in order.\<close>

lemma free_loop_take:
  "length free < cnt \<Longrightarrow> free_loop used cnt as free = free @ take (cnt - length free) [a \<leftarrow> as. a \<notin> set used]"
proof (induction as arbitrary: free)
  case (Cons a as)
  show ?case
  proof (cases "a \<in> set used \<or> cnt \<le> Suc (length free)")
    case True
    then show ?thesis using Cons by (auto simp: Let_def le_Suc_eq)
  next
    case False
    then show ?thesis using Cons.IH [of "free @ [a]"] by (simp add: Let_def Suc_diff_Suc take_Cons' flip: Suc_diff_le)
  qed
qed simp

lemma get_free_IPs_take:
  "0 < cnt \<Longrightarrow> get_free_IPs used network cnt = take cnt [a \<leftarrow> net_list network. a \<notin> set used]"
  by (simp add: get_free_IPs_def free_loop_take)

lemma get_free_IPs_Cons:
  assumes "wf_net network" and "get_free_IPs used network 1 = a # as"
  shows "in_net a network" and "a \<notin> set used"
proof -
  have "take 1 [a \<leftarrow> net_list network. a \<notin> set used] = a # as"
    using assms(2) get_free_IPs_take [of 1 used network] by simp
  then have "a \<in> set (take 1 [a \<leftarrow> net_list network. a \<notin> set used])" by (simp only: list.set_intros)
  then have "a \<in> set [a \<leftarrow> net_list network. a \<notin> set used]" by (rule in_set_takeD)
  then show "in_net a network" "a \<notin> set used" using set_net_list [OF assms(1)] by (auto simp: addrs_def)
qed

lemma get_free_IPs_Nil:
  assumes "wf_net network"
  shows "get_free_IPs used network 1 = [] \<longleftrightarrow> (\<forall>a. in_net a network \<longrightarrow> a \<in> set used)"
  using set_net_list [OF assms] get_free_IPs_take [of 1 used network] by (auto simp: addrs_def filter_empty_conv)

lemma unit_command_None:
  "unit_command xpath org umbrella ldap path None = Inr r \<longleftrightarrow>
     get_network_by_path xpath org path = Inr None \<and> r = no_network
   \<or> (\<exists>elem network used. get_network_by_path xpath org path = Inr (Some elem)
        \<and> ip_network_opt (etext elem) = Inr network \<and> load_all_IPs umbrella ldap = Inr used
        \<and> r = offer_address used network)"
  by (auto simp: unit_command_def rbind_Inr_iff split: option.splits)

text \<open>
  C8: the two commands for a unit agree. An address that the one offers is accepted by the other,
  with the same documents and directory, and lies in the unit's network unused; and the one reports
  that no address is left only when all addresses of the network are in use.
\<close>

theorem offered_address_accepted:
  assumes "umbrella_hosts xpath org umbrella ldap [path] = Inr r" and "path \<noteq> ''--help''"
  shows "(status r = 0 \<longrightarrow> (\<exists>a. stdout r = str_ip a @ nl
      \<and> umbrella_hosts xpath org umbrella ldap [path, str_ip a] = Inr \<lparr>stdout = [], stderr = [], status = 0\<rparr>))
    \<and> (status r = 10 \<longrightarrow> (\<exists>elem network used. get_network_by_path xpath org path = Inr (Some elem)
      \<and> ip_network_opt (etext elem) = Inr network \<and> load_all_IPs umbrella ldap = Inr used
      \<and> (\<forall>a. in_net a network \<longrightarrow> a \<in> set used)))
    \<and> status r \<in> {0, 9, 10}"
proof -
  have u: "unit_command xpath org umbrella ldap path None = Inr r"
    using assms by (simp add: umbrella_hosts_def)
  then consider "r = no_network"
    | elem network used where "get_network_by_path xpath org path = Inr (Some elem)"
      "ip_network_opt (etext elem) = Inr network" "load_all_IPs umbrella ldap = Inr used" "r = offer_address used network"
    unfolding unit_command_None by blast
  then show ?thesis
  proof cases
    case 1
    then show ?thesis by (simp add: no_network_def)
  next
    case (2 elem network used)
    have wf: "wf_net network" by (rule ip_network_opt_wf [OF 2(2)])
    show ?thesis
    proof (cases "get_free_IPs used network 1")
      case Nil
      then have "status r = 10" "\<forall>a. in_net a network \<longrightarrow> a \<in> set used"
        using 2(4) get_free_IPs_Nil [OF wf] by (simp_all add: offer_address_def)
      then show ?thesis using 2(1-3) by simp
    next
      case (Cons a as)
      have "umbrella_hosts xpath org umbrella ldap [path, str_ip a] = Inr \<lparr>stdout = [], stderr = [], status = 0\<rparr>"
        using 2(1-3) get_free_IPs_Cons [OF wf Cons] by (simp add: umbrella_hosts_def unit_command_def check_address_def)
      moreover have "r = \<lparr>stdout = str_ip a @ nl, stderr = [], status = 0\<rparr>"
        using 2(4) Cons by (simp add: offer_address_def)
      ultimately show ?thesis by auto
    qed
  qed
qed

text \<open>
  C39: the address that is offered first is the address of the network itself, unless that is
  registered as in use: the loop starts at it, although it is no address for a host.
\<close>

theorem network_address_offered:
  assumes "get_network_by_path xpath org path = Inr (Some elem)" and "ip_network_opt (etext elem) = Inr network"
    and "load_all_IPs umbrella ldap = Inr used" and "network_address network \<notin> set used" and "path \<noteq> ''--help''"
  shows "umbrella_hosts xpath org umbrella ldap [path]
    = Inr \<lparr>stdout = str_ip (network_address network) @ nl, stderr = [], status = 0\<rparr>"
proof -
  have "net_list network = network_address network # tl (net_list network)"
    by (simp add: net_list_def upt_conv_Cons num_addresses_def)
  then have "get_free_IPs used network 1 = [network_address network]"
    using assms(4) get_free_IPs_take [of 1 used network]
    by (metis One_nat_def filter.simps(2) take0 take_Suc_Cons zero_less_one)
  then show ?thesis using assms by (simp add: umbrella_hosts_def unit_command_def offer_address_def)
qed

section \<open>Applications\<close>

definition sample_org :: elem where
  "sample_org = node ''Properties'' [node ''ou'' [leaf ''name'' ''A'',
     node ''ou'' [leaf ''name'' ''B'', leaf ''network'' ''10.9.0.0/30'']]]"

definition sample_addresses :: "string \<Rightarrow> elem" where
  "sample_addresses ip = node ''Properties'' [node ''server'' [leaf ''name'' ''gw'', node ''pubif'' [leaf ''ip'' ip]]]"

definition sample_net :: ipnet where "sample_net = IPNet 0x0A090000 30"

lemma sample_unit: "get_network_by_path xpath sample_org ''/A/B'' = Inr (Some (leaf ''network'' ''10.9.0.0/30''))"
  by (simp add: get_network_by_path_def units_at_def named_def iter_elem_def sample_org_def get_curr_network_def xml_eval)

lemma sample_unit_network: "ip_network_opt (etext (leaf ''network'' ''10.9.0.0/30'')) = Inr sample_net"
  by (simp add: leaf_def sample_net_def parse_eval)

lemma sample_used: "load_all_IPs (sample_addresses ''10.9.0.0'') [''10.9.0.1''] = Inr [0x0A090000, 0x0A090001]"
    "load_all_IPs (sample_addresses ''10.9.0.1'') [] = Inr [0x0A090001]"
  by (simp_all add: load_all_IPs_def address_elements_def sample_addresses_def iter_elem_def substring_after.simps
      xml_eval parse_eval)

lemma sample_offer: "offer_address [0x0A090000, 0x0A090001] sample_net
    = \<lparr>stdout = str_ip 0x0A090002 @ nl, stderr = [], status = 0\<rparr>"
  by (simp add: offer_address_def get_free_IPs_def net_list_def num_addresses_def sample_net_def upt_rec)

theorem offered_address_accepted_witness:
  "umbrella_hosts (\<lambda>_. Inr []) sample_org (sample_addresses ''10.9.0.0'') [''10.9.0.1''] [''/A/B'', str_ip 0x0A090002]
    = Inr \<lparr>stdout = [], stderr = [], status = 0\<rparr>"
proof -
  have "umbrella_hosts (\<lambda>_. Inr []) sample_org (sample_addresses ''10.9.0.0'') [''10.9.0.1''] [''/A/B'']
      = Inr \<lparr>stdout = str_ip 0x0A090002 @ nl, stderr = [], status = 0\<rparr>"
    by (simp add: umbrella_hosts_def unit_command_def sample_unit sample_unit_network sample_used sample_offer)
  from offered_address_accepted [OF this] show ?thesis by auto
qed

theorem network_address_offered_witness:
  "umbrella_hosts (\<lambda>_. Inr []) sample_org (sample_addresses ''10.9.0.1'') [] [''/A/B'']
    = Inr \<lparr>stdout = str_ip 0x0A090000 @ nl, stderr = [], status = 0\<rparr>"
  using network_address_offered [OF sample_unit sample_unit_network sample_used(2), of "\<lambda>_. Inr []"]
  by (simp add: sample_net_def)

end
