(* ===== verification/Website.thy ===== *)
theory Website
  imports I18nSample
begin

text \<open>
  \<open>pelicanconf.py\<close> and \<open>pelicanconf_local.py\<close>, the settings of the website, and what the plugin of
  the subsites makes of them. The settings are the names in capitals; the names of the languages
  are in UTF-8.
\<close>

section \<open>Model\<close>

definition pelicanconf :: settings where
  "pelicanconf = [
     (''AUTHOR'', Str ''Konstantin L. Metlov''),
     (''SITENAME'', Str ''Umbrella Linux home page''),
     (''SITEURL'', Str ''https://metlov.github.io/umbrella-linux''),
     (''DISQUS_SITENAME'', Str ''umbrella-linux''),
     (''PATH'', Str ''content''),
     (''STATIC_PATHS'', Strs [''installer'']),
     (''OUTPUT_PATH'', Str ''output/umbrella-linux''),
     (''TIMEZONE'', Str ''Europe/Moscow''),
     (''PORT'', Num 8001),
     (''DEFAULT_LANG'', Str ''en''),
     (''THEME'', Str ''themes/umbrella/''),
     (''PLUGIN_PATHS'', Strs [''plugins'']),
     (''PLUGINS'', Strs [''i18n_subsites'', ''pelican-page-hierarchy'']),
     (''PAGE_URL'', Str ''{slug}/''),
     (''PAGE_SAVE_AS'', Str ''{slug}/index.html''),
     (''SLUGIFY_SOURCE'', Str ''basename''),
     (''I18N_SUBSITES'', Sub [(''ru'', [(''SITENAME'', Str ''Umbrella Linux home page'')])]),
     (''DATE_FORMATS'', Dict [(''en'', Str ''%a, %d %b %Y''), (''ru'', Str ''%d-%m-%Y'')]),
     (''DISPLAY_PAGES_ON_MENU'', Flag True),
     (''DISPLAY_CATEGORIES_ON_MENU'', Flag True),
     (''JINJA_ENVIRONMENT'', Dict [(''extensions'', Strs [''jinja2.ext.i18n''])]),
     (''JINJA_FILTERS'', Dict [(''lookup_lang_name'', Obj ''lookup_lang_name'')]),
     (''MARKDOWN'', Dict [(''extensions'', Strs [''markdown.extensions.smarty''])]),
     (''FEED_ALL_ATOM'', Nothing),
     (''CATEGORY_FEED_ATOM'', Nothing),
     (''TRANSLATION_FEED_ATOM'', Nothing),
     (''AUTHOR_FEED_ATOM'', Nothing),
     (''AUTHOR_FEED_RSS'', Nothing),
     (''DEFAULT_PAGINATION'', Flag False)]"

definition languages_lookup :: "(string, string) dict" where
  "languages_lookup = [(''en'', ''English''),
     (''ru'', map char_of [0xD0, 0xA0, 0xD1, 0x83, 0xD1, 0x81, 0xD1, 0x81, 0xD0, 0xBA, 0xD0, 0xB8, 0xD0, 0xB9 :: nat])]"

definition lookup_lang_name :: "string \<Rightarrow> string result" where
  "lookup_lang_name lang_code = dict_item languages_lookup lang_code"

definition pelicanconf_local :: settings where
  "pelicanconf_local = dput ''SITEURL'' (Str ''http://localhost:8001'') pelicanconf"

section \<open>The subsites of the website\<close>

lemma website_paths:
  "get_site_path ''https://metlov.github.io/umbrella-linux'' = ''/umbrella-linux''"
  "get_site_path ''https://metlov.github.io/umbrella-linux/ru'' = ''/umbrella-linux/ru''"
  "get_site_path ''http://localhost:8001'' = ''/''"
  "get_site_path ''http://localhost:8001/ru'' = ''/ru''"
  by (simp_all add: path_eval py_lower_def char_lower_def Let_def)

lemma website_relpaths:
  "relpath cwd ''/umbrella-linux/ru'' ''/umbrella-linux'' = Inr ''ru''" "relpath cwd ''/umbrella-linux'' ''/umbrella-linux/ru'' = Inr ''..''"
  "relpath cwd ''/ru'' ''/'' = Inr ''ru''" "relpath cwd ''/'' ''/ru'' = Inr ''..''"
  by (simp_all add: path_eval)

lemma pelicanconf_lookups:
  "dget pelicanconf ''DEFAULT_LANG'' = Some (Str ''en'')" "dget pelicanconf_local ''DEFAULT_LANG'' = Some (Str ''en'')"
  "dget pelicanconf ''SITEURL'' = Some (Str ''https://metlov.github.io/umbrella-linux'')"
  "dget pelicanconf_local ''SITEURL'' = Some (Str ''http://localhost:8001'')"
  "dget pelicanconf ''I18N_SUBSITES'' = Some (Sub [(''ru'', [(''SITENAME'', Str ''Umbrella Linux home page'')])])"
  "dget pelicanconf_local ''I18N_SUBSITES'' = Some (Sub [(''ru'', [(''SITENAME'', Str ''Umbrella Linux home page'')])])"
  "dget pelicanconf ''I18N_FILTER_SIGNALS'' = None" "dget pelicanconf_local ''I18N_FILTER_SIGNALS'' = None"
  by (simp_all add: pelicanconf_local_def update_conv') (simp_all add: pelicanconf_def)

text \<open>The settings that the plugin reads as the files have them, beside the generator's defaults.\<close>

definition configured :: "settings \<Rightarrow> settings \<Rightarrow> bool" where
  "configured conf sts \<longleftrightarrow> list_all (\<lambda>k. dget sts k = dget conf k)
     [''DEFAULT_LANG'', ''SITEURL'', ''I18N_SUBSITES'', ''I18N_FILTER_SIGNALS'']"

definition site_url_of :: "bool \<Rightarrow> string" where
  "site_url_of testing = (if testing then ''http://localhost:8001'' else ''https://metlov.github.io/umbrella-linux'')"

text \<open>
  C18: with the settings of the website, published or local, the plugin builds one subsite, in
  Russian, below the main site; the two sites find each other under \<open>ru\<close> and \<open>..\<close>, the subsite uses
  the theme of the main site and has no static files of its own, and every language with a site has
  a name for the menu.
\<close>

theorem website_subsites:
  assumes "configured (if testing then pelicanconf_local else pelicanconf) sts" and "main_settings s = None" and "relpath_db s = []"
    and "str_item sts ''OUTPUT_PATH'' = Inr out" and "str_item sts ''CACHE_PATH'' = Inr cache"
    and "str_item sts ''THEME_STATIC_DIR'' = Inr theme_dir"
  shows "\<exists>s'. initialize_plugin cwd sts s = Inr s'
    \<and> site_db s' = [(''en'', site_url_of testing), (''ru'', site_url_of testing @ ''/ru'')]
    \<and> subsite_queue s' = [(''ru'', [(''SITENAME'', Str ''Umbrella Linux home page''), (''SITEURL'', Str (site_url_of testing @ ''/ru'')),
        (''OUTPUT_PATH'', Str (path_join out ''ru'')), (''CACHE_PATH'', Str (path_join cache ''ru'')), (''STATIC_PATHS'', Strs []),
        (''THEME_STATIC_DIR'', Str (path_join ''..'' theme_dir)), (''THEME_STATIC_PATHS'', Strs []), (''DEFAULT_LANG'', Str ''ru'')])]
    \<and> (\<exists>t. relpath_to_site cwd ''en'' ''ru'' s' = Inr (''ru'', t)) \<and> (\<exists>t. relpath_to_site cwd ''ru'' ''en'' s' = Inr (''..'', t))
    \<and> list_all (\<lambda>l. \<exists>n. lookup_lang_name l = Inr n) (dkeys (site_db s'))"
proof -
  have get: "dget sts ''DEFAULT_LANG'' = Some (Str ''en'')" "dget sts ''SITEURL'' = Some (Str (site_url_of testing))"
    "dget sts ''I18N_SUBSITES'' = Some (Sub [(''ru'', [(''SITENAME'', Str ''Umbrella Linux home page'')])])"
    "dget sts ''I18N_FILTER_SIGNALS'' = None"
    using assms(1) by (simp_all add: configured_def pelicanconf_lookups site_url_of_def split: if_splits)
  have url: "site_url_of testing \<noteq> []" "path_join (site_url_of testing) ''ru'' = site_url_of testing @ ''/ru''"
    by (simp_all add: site_url_of_def path_join_def path_joins_def)
  have rel: "relpath cwd (get_site_path (site_url_of testing @ ''/ru'')) (get_site_path (site_url_of testing)) = Inr ''ru''"
    "relpath cwd (get_site_path (site_url_of testing)) (get_site_path (site_url_of testing @ ''/ru'')) = Inr ''..''"
    by (cases testing; simp add: site_url_of_def website_paths website_relpaths)+
  show ?thesis
    using assms(2-6) get url rel
    by (simp add: initialize_plugin_def subscribe_filter_to_signals_def initialize_dbs_def prepare_site_db_and_overrides_def
        prepare_subsite_def set_default_def relpath_to_site_def Let_def lookup_lang_name_def languages_lookup_def
        str_item_def [of sts "''DEFAULT_LANG''"] str_item_def [of sts "''SITEURL''"] str_item_def [of _ "''SITEURL''"])
qed

text \<open>The published site with the generator's defaults.\<close>

definition website_settings :: settings where
  "website_settings = pelicanconf @ [(''CACHE_PATH'', Str ''cache''), (''THEME_STATIC_DIR'', Str ''theme'')]"

theorem website_subsites_witness:
  "\<exists>s'. initialize_plugin ''/srv'' website_settings sample_start = Inr s'
    \<and> site_db s' = [(''en'', ''https://metlov.github.io/umbrella-linux''), (''ru'', ''https://metlov.github.io/umbrella-linux/ru'')]"
proof -
  have c: "configured (if False then pelicanconf_local else pelicanconf) website_settings"
    by (simp add: configured_def website_settings_def pelicanconf_def)
  have k: "str_item website_settings ''OUTPUT_PATH'' = Inr ''output/umbrella-linux''" "str_item website_settings ''CACHE_PATH'' = Inr ''cache''"
      "str_item website_settings ''THEME_STATIC_DIR'' = Inr ''theme''"
    by (simp_all add: str_item_def website_settings_def pelicanconf_def)
  have n: "main_settings sample_start = None" "relpath_db sample_start = []" by (simp_all add: sample_start_def)
  from website_subsites [OF c n k] show ?thesis by (auto simp: site_url_of_def)
qed

end
